theory Spec2Isabelle
  imports Complex_Main "HOL-Library.Product_Lexorder" "HOL-Library.Sublist"
    "HOL-Library.Multiset"
begin

section \<open>Floating-point values\<close>

text \<open>
  The engine of \<^verbatim>\<open>shared_metrics_utils.py\<close> computes on Python and numpy floats.
  A float is modelled as a real number or one of the three special values; arithmetic on
  finite values is exact (rounding and overflow are not modelled), and the special values
  follow IEEE 754. Signed zeros are not distinguished.
\<close>

datatype fl = NaN | NInf | Fin real | PInf

fun isnan :: "fl \<Rightarrow> bool" where
  "isnan NaN = True"
| "isnan _ = False"

fun fneg :: "fl \<Rightarrow> fl" where
  "fneg NaN = NaN"
| "fneg NInf = PInf"
| "fneg (Fin x) = Fin (- x)"
| "fneg PInf = NInf"

fun fadd :: "fl \<Rightarrow> fl \<Rightarrow> fl" where
  "fadd NaN _ = NaN"
| "fadd _ NaN = NaN"
| "fadd (Fin x) (Fin y) = Fin (x + y)"
| "fadd PInf NInf = NaN"
| "fadd NInf PInf = NaN"
| "fadd PInf _ = PInf"
| "fadd _ PInf = PInf"
| "fadd NInf _ = NInf"
| "fadd _ NInf = NInf"

definition fsub :: "fl \<Rightarrow> fl \<Rightarrow> fl" where
  "fsub a b = fadd a (fneg b)"

text \<open>The sign of a non-NaN value: \<open>-1\<close>, \<open>0\<close> or \<open>1\<close>.\<close>

fun fsgn :: "fl \<Rightarrow> real" where
  "fsgn NaN = 0"
| "fsgn NInf = - 1"
| "fsgn (Fin x) = sgn x"
| "fsgn PInf = 1"

definition inf_of_sign :: "real \<Rightarrow> fl" where
  "inf_of_sign s = (if s = 0 then NaN else if 0 < s then PInf else NInf)"

fun fmul :: "fl \<Rightarrow> fl \<Rightarrow> fl" where
  "fmul NaN _ = NaN"
| "fmul _ NaN = NaN"
| "fmul (Fin x) (Fin y) = Fin (x * y)"
| "fmul a b = inf_of_sign (fsgn a * fsgn b)"

text \<open>
  Division as numpy performs it on a column: a zero divisor gives an infinity or NaN,
  never an exception.
\<close>

fun fdiv :: "fl \<Rightarrow> fl \<Rightarrow> fl" where
  "fdiv NaN _ = NaN"
| "fdiv _ NaN = NaN"
| "fdiv (Fin x) (Fin y) = (if y = 0 then inf_of_sign (sgn x) else Fin (x / y))"
| "fdiv (Fin x) _ = Fin 0"
| "fdiv a (Fin y) = inf_of_sign (fsgn a * (if y < 0 then - 1 else 1))"
| "fdiv _ _ = NaN"

fun fabs :: "fl \<Rightarrow> fl" where
  "fabs NaN = NaN"
| "fabs NInf = PInf"
| "fabs (Fin x) = Fin \<bar>x\<bar>"
| "fabs PInf = PInf"

text \<open>Comparisons: every comparison with NaN is false.\<close>

fun fle :: "fl \<Rightarrow> fl \<Rightarrow> bool" where
  "fle NaN _ = False"
| "fle _ NaN = False"
| "fle NInf _ = True"
| "fle _ PInf = True"
| "fle (Fin x) (Fin y) = (x \<le> y)"
| "fle _ _ = False"

fun flt :: "fl \<Rightarrow> fl \<Rightarrow> bool" where
  "flt NaN _ = False"
| "flt _ NaN = False"
| "flt PInf _ = False"
| "flt _ NInf = False"
| "flt (Fin x) (Fin y) = (x < y)"
| "flt _ _ = True"

datatype error =
  ZeroDivisionError | TypeError | ValueError | IndexError | OverflowError | UnboundLocalError

text \<open>
  Division of two Python floats: a zero divisor raises \<^verbatim>\<open>ZeroDivisionError\<close>.
\<close>

definition py_div :: "fl \<Rightarrow> fl \<Rightarrow> error + fl" where
  "py_div a b = (if b = Fin 0 then Inl ZeroDivisionError else Inr (fdiv a b))"

section \<open>Percent change and ratio\<close>

text \<open>
  \<^verbatim>\<open>
  def calculate_percent_increase(baseline_value, new_value):
      if np.isnan(baseline_value) or np.isnan(new_value) or baseline_value == 0:
          return np.nan
      return ((new_value / baseline_value) - 1) * 100
  \<close>
  The division is modelled with the stricter Python semantics, so that a division by
  zero would show as an error value.
\<close>

definition calculate_percent_increase :: "fl \<Rightarrow> fl \<Rightarrow> error + fl" where
  "calculate_percent_increase baseline_value new_value =
     (if isnan baseline_value \<or> isnan new_value \<or> baseline_value = Fin 0 then Inr NaN
      else case py_div new_value baseline_value of
             Inl e \<Rightarrow> Inl e
           | Inr q \<Rightarrow> Inr (fmul (fsub q (Fin 1)) (Fin 100)))"

definition safe_divide :: "fl \<Rightarrow> fl \<Rightarrow> error + fl" where
  "safe_divide numerator denominator =
     (if isnan numerator \<or> isnan denominator \<or> denominator = Fin 0 then Inr NaN
      else py_div numerator denominator)"

section \<open>Histogram quantile estimation\<close>

text \<open>
  The key by which bucket bounds and timestamps are sorted. Python's \<^verbatim>\<open>sorted\<close> and
  pandas' \<^verbatim>\<open>sort_values\<close> order finite values and the infinities as usual; pandas puts
  NaN last, and so does this key. Python's \<^verbatim>\<open>sorted\<close> does not: every comparison with NaN
  is false, so an item whose bound is NaN stays where the sort meets it, and the items
  around it need not come out in order either. The key is the order of \<^verbatim>\<open>sorted\<close> only
  on bounds none of which is NaN, and every theorem that depends on the order of the
  sorted bounds has that hypothesis.
\<close>

fun sort_rank :: "fl \<Rightarrow> nat \<times> real" where
  "sort_rank NInf = (0, 0)"
| "sort_rank (Fin x) = (1, x)"
| "sort_rank PInf = (2, 0)"
| "sort_rank NaN = (3, 0)"

text \<open>
  Python's \<^verbatim>\<open>max(a, b)\<close> keeps \<open>a\<close> unless \<open>b > a\<close>; with a NaN second argument it
  returns \<open>a\<close>.
\<close>

definition py_max :: "fl \<Rightarrow> fl \<Rightarrow> fl" where
  "py_max a b = (if flt a b then b else a)"

record latency_estimate =
  latency_ms :: fl
  is_estimated :: bool
  estimation_method :: string

text \<open>
  Storing under a float key in a Python dict: an equal key keeps its place and takes the
  new value; NaN is equal to no key.
\<close>

fun dict_set :: "fl \<Rightarrow> 'v \<Rightarrow> (fl \<times> 'v) list \<Rightarrow> (fl \<times> 'v) list" where
  "dict_set k v [] = [(k, v)]"
| "dict_set k v ((k', v') # kvs) =
     (if k = k' \<and> \<not> isnan k then (k', v) # kvs else (k', v') # dict_set k v kvs)"

text \<open>
  \<^verbatim>\<open>bucket_bounds = {float('inf') if k == 'inf' else float(k): v for k, v in buckets.items()}\<close>
  The conversion \<^verbatim>\<open>float(k)\<close> of a label is the parameter \<open>to_float\<close>; \<open>None\<close> is its
  \<^verbatim>\<open>ValueError\<close>, which nothing in the source catches.
\<close>

fun bucket_bounds_of ::
  "(string \<Rightarrow> fl option) \<Rightarrow> (string \<times> fl) list \<Rightarrow> (fl \<times> fl) list \<Rightarrow> error + (fl \<times> fl) list" where
  "bucket_bounds_of to_float [] acc = Inr acc"
| "bucket_bounds_of to_float ((k, v) # kvs) acc =
     (if k = ''inf'' then bucket_bounds_of to_float kvs (dict_set PInf v acc)
      else case to_float k of
             None \<Rightarrow> Inl ValueError
           | Some b \<Rightarrow> bucket_bounds_of to_float kvs (dict_set b v acc))"

definition sorted_bounds_of :: "(fl \<times> fl) list \<Rightarrow> (fl \<times> fl) list" where
  "sorted_bounds_of bucket_bounds = sort_key (\<lambda>kv. sort_rank (fst kv)) bucket_bounds"

definition non_inf_buckets_of :: "(fl \<times> fl) list \<Rightarrow> (fl \<times> fl) list" where
  "non_inf_buckets_of sorted_bounds = filter (\<lambda>kv. fst kv \<noteq> PInf) sorted_bounds"

text \<open>
  \<^verbatim>\<open>inf_count = next((count for bound, count in sorted_bounds if bound == float('inf')),
                   non_inf_buckets[-1][1])\<close>
\<close>

definition inf_count_of :: "(fl \<times> fl) list \<Rightarrow> (fl \<times> fl) list \<Rightarrow> fl" where
  "inf_count_of sorted_bounds non_inf_buckets =
     (case find (\<lambda>kv. fst kv = PInf) sorted_bounds of
        Some kv \<Rightarrow> snd kv
      | None \<Rightarrow> snd (last non_inf_buckets))"

text \<open>
  The scan over adjacent pairs of the non-inf buckets; the result is
  \<^verbatim>\<open>estimated_latency\<close> of the first pair with
  \<^verbatim>\<open>current_count <= target_count <= next_count\<close>. The divisor
  \<^verbatim>\<open>max(1, next_count - current_count)\<close> is never zero, so the division cannot raise.
\<close>

fun interpolate :: "fl \<Rightarrow> (fl \<times> fl) list \<Rightarrow> fl option" where
  "interpolate target_count ((current_bound, current_count) # (next_bound, next_count) # rest) =
     (if fle current_count target_count \<and> fle target_count next_count
      then Some (fadd current_bound
                  (fmul (fdiv (fsub target_count current_count)
                              (py_max (Fin 1) (fsub next_count current_count)))
                        (fsub next_bound current_bound)))
      else interpolate target_count ((next_bound, next_count) # rest))"
| "interpolate target_count _ = None"

definition quantile :: fl where
  "quantile = Fin (95 / 100)"

text \<open>
  The body of the loop of \<^verbatim>\<open>process_latency_buckets\<close> for one sensor and endpoint: from
  the converted bucket dict to the three cells it writes.
\<close>

definition estimate_latency :: "(fl \<times> fl) list \<Rightarrow> latency_estimate" where
  "estimate_latency bucket_bounds =
     (let sorted_bounds = sorted_bounds_of bucket_bounds in
      if sorted_bounds = [] then
        \<lparr>latency_ms = NaN, is_estimated = True, estimation_method = ''no_data''\<rparr>
      else if 2 \<le> length sorted_bounds then
        (let non_inf_buckets = non_inf_buckets_of sorted_bounds in
         if 2 \<le> length non_inf_buckets then
           (let inf_count = inf_count_of sorted_bounds non_inf_buckets in
            if flt (Fin 0) inf_count then
              (case interpolate (fmul inf_count quantile) non_inf_buckets of
                 Some estimated_latency \<Rightarrow>
                   \<lparr>latency_ms = fmul estimated_latency (Fin 1000), is_estimated = False,
                    estimation_method = ''interpolation''\<rparr>
               | None \<Rightarrow>
                   \<lparr>latency_ms = fmul (fst (last non_inf_buckets)) (Fin 1000),
                    is_estimated = True, estimation_method = ''highest_bucket''\<rparr>)
            else
              \<lparr>latency_ms = NaN, is_estimated = True, estimation_method = ''zero_counts''\<rparr>)
         else
           \<lparr>latency_ms = NaN, is_estimated = True,
            estimation_method = ''insufficient_buckets''\<rparr>)
      else
        (let bound = fst (hd sorted_bounds) in
         if bound = PInf then
           \<lparr>latency_ms = NaN, is_estimated = True, estimation_method = ''only_inf_bucket''\<rparr>
         else
           \<lparr>latency_ms = fmul bound (Fin 1000), is_estimated = True,
            estimation_method = ''single_bucket''\<rparr>))"

definition total_count_of :: "(fl \<times> fl) list \<Rightarrow> fl" where
  "total_count_of bucket_bounds =
     inf_count_of (sorted_bounds_of bucket_bounds)
       (non_inf_buckets_of (sorted_bounds_of bucket_bounds))"

definition target_count_of :: "(fl \<times> fl) list \<Rightarrow> fl" where
  "target_count_of bucket_bounds = fmul (total_count_of bucket_bounds) quantile"

subsection \<open>Notions of the specification\<close>

text \<open>The finite bounds of a bucket set, as real numbers.\<close>

fun finite_bounds :: "(fl \<times> fl) list \<Rightarrow> real list" where
  "finite_bounds [] = []"
| "finite_bounds ((Fin x, c) # kvs) = x # finite_bounds kvs"
| "finite_bounds (kv # kvs) = finite_bounds kvs"

text \<open>
  The target lies between the counts of two adjacent buckets, for a comparison \<open>le\<close>:
  \<open>fle\<close> for "between", \<open>flt\<close> for "strictly between".
\<close>

fun brackets :: "(fl \<Rightarrow> fl \<Rightarrow> bool) \<Rightarrow> fl \<Rightarrow> (fl \<times> fl) list \<Rightarrow> bool" where
  "brackets le target ((b, c) # (b', c') # rest) =
     ((le c target \<and> le target c') \<or> brackets le target ((b', c') # rest))"
| "brackets le target _ = False"

text \<open>
  The interpolation as the specification writes it,
  \<open>bound\<^sub>i + (target - count\<^sub>i) / (count\<^sub>i\<^sub>+\<^sub>1 - count\<^sub>i) * (bound\<^sub>i\<^sub>+\<^sub>1 - bound\<^sub>i)\<close>, in milliseconds.
\<close>

definition claimed_interpolation :: "fl \<Rightarrow> fl \<times> fl \<Rightarrow> fl \<times> fl \<Rightarrow> fl" where
  "claimed_interpolation target cur nxt =
     fmul (fadd (fst cur)
            (fmul (fdiv (fsub target (snd cur)) (fsub (snd nxt) (snd cur)))
                  (fsub (fst nxt) (fst cur))))
          (Fin 1000)"

section \<open>Value coercion of the metric flattener\<close>

text \<open>
  A value as \<^verbatim>\<open>json.loads\<close> delivers it. Python's parser also reads the literals
  \<^verbatim>\<open>NaN\<close> and \<^verbatim>\<open>Infinity\<close>, so a JSON float is any \<open>fl\<close>.
\<close>

datatype json =
  JNull
| JBool bool
| JInt int
| JFloat fl
| JStr string
| JList "json list"
| JObj "(string \<times> json) list"

text \<open>
  Python's \<^verbatim>\<open>float(x)\<close>. The parsing of a string is the parameter \<open>to_float\<close>, \<open>None\<close>
  being its \<^verbatim>\<open>ValueError\<close>. An integer that rounds beyond the largest double raises
  \<^verbatim>\<open>OverflowError\<close>; \<^verbatim>\<open>None\<close>, a list and a dict raise \<^verbatim>\<open>TypeError\<close>.
\<close>

fun py_float :: "(string \<Rightarrow> fl option) \<Rightarrow> json \<Rightarrow> error + fl" where
  "py_float to_float JNull = Inl TypeError"
| "py_float to_float (JBool b) = Inr (Fin (if b then 1 else 0))"
| "py_float to_float (JInt i) =
     (if \<bar>i\<bar> < 2 ^ 1024 - 2 ^ 970 then Inr (Fin (of_int i)) else Inl OverflowError)"
| "py_float to_float (JFloat x) = Inr x"
| "py_float to_float (JStr s) = (case to_float s of None \<Rightarrow> Inl ValueError | Some x \<Rightarrow> Inr x)"
| "py_float to_float (JList xs) = Inl TypeError"
| "py_float to_float (JObj kvs) = Inl TypeError"

text \<open>
  \<^verbatim>\<open>try: value = ... except (E1, E2): value = 0.0\<close>: the listed exceptions become \<open>0.0\<close>,
  any other one propagates.
\<close>

definition except_zero :: "error list \<Rightarrow> error + fl \<Rightarrow> error + fl" where
  "except_zero caught r =
     (case r of
        Inl e \<Rightarrow> if e \<in> set caught then Inr (Fin 0) else Inl e
      | Inr v \<Rightarrow> Inr v)"

text \<open>
  The coercion of \<^verbatim>\<open>raw_value = entry.get("value")\<close> in \<^verbatim>\<open>extract_metrics\<close>:
  \<^verbatim>\<open>
  if isinstance(raw_value, list) and len(raw_value) > 1:
      try: value = float(raw_value[1])
      except (IndexError, ValueError): value = 0.0
  elif isinstance(raw_value, list) and len(raw_value) == 1:
      try: value = float(raw_value[0])
      except (IndexError, ValueError): value = 0.0
  else:
      try: value = float(raw_value)
      except (TypeError, ValueError): value = 0.0
  \<close>
  A missing \<^verbatim>\<open>"value"\<close> key is \<open>JNull\<close>.
\<close>

fun coerce_value :: "(string \<Rightarrow> fl option) \<Rightarrow> json \<Rightarrow> error + fl" where
  "coerce_value to_float (JList (x0 # x1 # xs)) =
     except_zero [IndexError, ValueError] (py_float to_float x1)"
| "coerce_value to_float (JList [x0]) =
     except_zero [IndexError, ValueError] (py_float to_float x0)"
| "coerce_value to_float raw_value =
     except_zero [TypeError, ValueError] (py_float to_float raw_value)"

section \<open>Series\<close>

text \<open>
  A pandas Series of floats is a list of \<open>fl\<close>; NaN is the missing value. The functions
  below are the pandas and numpy operations the engine calls.
\<close>

definition dropna :: "fl list \<Rightarrow> fl list" where
  "dropna xs = filter (\<lambda>x. \<not> isnan x) xs"

definition fsum :: "fl list \<Rightarrow> fl" where
  "fsum xs = foldl fadd (Fin 0) xs"

definition fmax :: "fl \<Rightarrow> fl \<Rightarrow> fl" where
  "fmax a b = (if flt a b then b else a)"

text \<open>\<^verbatim>\<open>Series.mean()\<close> and \<^verbatim>\<open>Series.max()\<close> skip NaN and are NaN on no value.\<close>

definition series_mean :: "fl list \<Rightarrow> fl" where
  "series_mean xs =
     (let v = dropna xs in if v = [] then NaN else fdiv (fsum v) (Fin (real (length v))))"

definition series_max :: "fl list \<Rightarrow> fl" where
  "series_max xs = (let v = dropna xs in if v = [] then NaN else foldl fmax (hd v) (tl v))"

text \<open>
  \<^verbatim>\<open>np.mean\<close> and \<^verbatim>\<open>np.max\<close> of a non-empty list propagate NaN; \<^verbatim>\<open>np.nanmean\<close> and
  \<^verbatim>\<open>np.nanmax\<close> skip it and are NaN when nothing is left.
\<close>

definition np_mean :: "fl list \<Rightarrow> fl" where
  "np_mean xs = fdiv (fsum xs) (Fin (real (length xs)))"

definition np_max :: "fl list \<Rightarrow> fl" where
  "np_max xs = (if list_ex isnan xs then NaN else foldl fmax (hd xs) (tl xs))"

definition np_nanmean :: "fl list \<Rightarrow> fl" where
  "np_nanmean xs = series_mean xs"

definition np_nanmax :: "fl list \<Rightarrow> fl" where
  "np_nanmax xs = series_max xs"

text \<open>\<^verbatim>\<open>Series.diff()\<close>: NaN first, then each value minus the one before.\<close>

definition diff :: "fl list \<Rightarrow> fl list" where
  "diff xs = (case xs of [] \<Rightarrow> [] | x # rest \<Rightarrow> NaN # map (\<lambda>(a, b). fsub b a) (zip xs rest))"

text \<open>\<^verbatim>\<open>Series.cumsum()\<close>: a NaN stays NaN and is left out of the running sum.\<close>

fun cumsum_from :: "fl \<Rightarrow> fl list \<Rightarrow> fl list" where
  "cumsum_from acc [] = []"
| "cumsum_from acc (x # xs) =
     (if isnan x then NaN # cumsum_from acc xs
      else fadd acc x # cumsum_from (fadd acc x) xs)"

definition cumsum :: "fl list \<Rightarrow> fl list" where
  "cumsum xs = cumsum_from (Fin 0) xs"

fun fsqrt :: "fl \<Rightarrow> fl" where
  "fsqrt NaN = NaN"
| "fsqrt NInf = NaN"
| "fsqrt (Fin x) = (if x < 0 then NaN else Fin (sqrt x))"
| "fsqrt PInf = PInf"

text \<open>
  \<^verbatim>\<open>Series.rolling(w, min_periods=k)\<close>: the window of row \<open>i\<close> holds the rows
  \<open>i - w + 1, \<dots>, i\<close> that exist; its observations are the values that are not NaN. The
  mean needs \<open>k\<close> observations (and at least one), the standard deviation (one degree of
  freedom removed) needs \<open>k\<close> and at least two.
\<close>

definition window :: "nat \<Rightarrow> nat \<Rightarrow> fl list \<Rightarrow> fl list" where
  "window w i xs = drop (Suc i - w) (take (Suc i) xs)"

definition sample_std :: "fl list \<Rightarrow> fl" where
  "sample_std obs =
     (let m = fdiv (fsum obs) (Fin (real (length obs)))
      in fsqrt (fdiv (fsum (map (\<lambda>x. fmul (fsub x m) (fsub x m)) obs))
                     (Fin (real (length obs - 1)))))"

definition rolling_mean :: "nat \<Rightarrow> nat \<Rightarrow> fl list \<Rightarrow> fl list" where
  "rolling_mean w min_periods xs =
     map (\<lambda>i. let obs = dropna (window w i xs)
               in if min_periods \<le> length obs \<and> 1 \<le> length obs
                  then fdiv (fsum obs) (Fin (real (length obs))) else NaN)
         [0..<length xs]"

definition rolling_std :: "nat \<Rightarrow> nat \<Rightarrow> fl list \<Rightarrow> fl list" where
  "rolling_std w min_periods xs =
     map (\<lambda>i. let obs = dropna (window w i xs)
               in if min_periods \<le> length obs \<and> 2 \<le> length obs
                  then sample_std obs else NaN)
         [0..<length xs]"

text \<open>\<^verbatim>\<open>Series.unique()\<close>: the distinct values in the order of their first appearance.\<close>

definition unique :: "'a list \<Rightarrow> 'a list" where
  "unique xs = rev (remdups (rev xs))"

text \<open>\<^verbatim>\<open>s.split("_", n)\<close>: at most \<open>n\<close> splits at an underscore, from the left.\<close>

fun split_max :: "nat \<Rightarrow> string \<Rightarrow> string list" where
  "split_max 0 s = [s]"
| "split_max (Suc n) s =
     (if CHR ''_'' \<in> set s
      then takeWhile (\<lambda>c. c \<noteq> CHR ''_'') s
             # split_max n (tl (dropWhile (\<lambda>c. c \<noteq> CHR ''_'') s))
      else [s])"

section \<open>The table\<close>

text \<open>
  A DataFrame of the engine is a list of rows, each with its index label, four fixed
  columns, the \<^verbatim>\<open>bucket\<close> column of histogram dicts, float columns, and the two kinds of
  object columns that \<^verbatim>\<open>process_latency_buckets\<close> writes: the flags \<^verbatim>\<open>*_estimated\<close> and
  the strings \<^verbatim>\<open>*_method\<close>. A cell of a float column that is missing is NaN, a missing
  flag is \<open>None\<close>, a missing method is \<open>MNaN\<close>. The three kinds of columns have separate
  name spaces here: sensor ids and endpoints are taken not to end in \<^verbatim>\<open>_method\<close> or
  \<^verbatim>\<open>_estimated\<close>, so that the source's tests on column names agree with the kinds.

  The index labels are those of pandas: \<^verbatim>\<open>pd.DataFrame(metrics)\<close> numbers the rows
  \<open>0, 1, 2, \<dots>\<close>, and \<^verbatim>\<open>pd.concat(dfs_to_combine)\<close> in \<^verbatim>\<open>process_dataset\<close>, called without
  \<^verbatim>\<open>ignore_index\<close>, keeps the labels of its parts: in the table it passes to
  \<^verbatim>\<open>calculate_derived_metrics\<close> every phase starts again at label \<open>0\<close>. A label is not
  a position, and \<^verbatim>\<open>df.at[idx, c]\<close> and \<^verbatim>\<open>df.loc[idx, c]\<close> address rows by label.
\<close>

datatype mcell = MNaN | MStr string

type_synonym bucket_dict = "(string \<times> (string \<times> (string \<times> fl) list) list) list"

record row =
  index_label :: nat
  timestamp :: fl
  human_time :: string
  phase :: string
  vulnerability_type :: string
  bucket :: "bucket_dict option"
  cells :: "string \<Rightarrow> fl"
  flags :: "string \<Rightarrow> bool option"
  methods :: "string \<Rightarrow> mcell"

record dataframe =
  columns :: "string list"
  flag_columns :: "string list"
  method_columns :: "string list"
  bucket_column :: bool
  rows :: "row list"

definition column :: "dataframe \<Rightarrow> string \<Rightarrow> fl list" where
  "column df c = map (\<lambda>r. cells r c) (rows df)"

definition add_name :: "string \<Rightarrow> string list \<Rightarrow> string list" where
  "add_name c cs = (if c \<in> set cs then cs else cs @ [c])"

text \<open>\<^verbatim>\<open>df[c] = series\<close>: the column is created or replaced, row by row.\<close>

fun put_cells :: "string \<Rightarrow> fl list \<Rightarrow> row list \<Rightarrow> row list" where
  "put_cells c (v # vs) (r # rs) = r\<lparr>cells := (cells r)(c := v)\<rparr> # put_cells c vs rs"
| "put_cells c vs rs = rs"

definition set_column :: "string \<Rightarrow> fl list \<Rightarrow> dataframe \<Rightarrow> dataframe" where
  "set_column c vs df = df\<lparr>columns := add_name c (columns df), rows := put_cells c vs (rows df)\<rparr>"

text \<open>
  Writing single cells of a column that does not exist yet (\<^verbatim>\<open>df.at[idx, c] = v\<close>,
  \<^verbatim>\<open>df.loc[idx, c] = series\<close>, \<^verbatim>\<open>df.loc[mask, c] = series\<close>) first creates it, NaN in
  every row.
\<close>

definition new_column :: "string \<Rightarrow> dataframe \<Rightarrow> dataframe" where
  "new_column c df =
     (if c \<in> set (columns df) then df
      else set_column c (replicate (length (rows df)) NaN) df)"

text \<open>
  \<^verbatim>\<open>df.loc[mask, c] = series\<close> with a boolean mask and a series taken from the masked rows:
  the rows are addressed by position, \<open>ivs\<close> pairs each position with its value.
\<close>

definition put_cell :: "string \<Rightarrow> row list \<Rightarrow> nat \<times> fl \<Rightarrow> row list" where
  "put_cell c rs iv = rs[fst iv := (rs ! fst iv)\<lparr>cells := (cells (rs ! fst iv))(c := snd iv)\<rparr>]"

definition loc_set :: "string \<Rightarrow> (nat \<times> fl) list \<Rightarrow> dataframe \<Rightarrow> dataframe" where
  "loc_set c ivs df = (let df' = new_column c df in df'\<lparr>rows := foldl (put_cell c) (rows df') ivs\<rparr>)"

text \<open>
  \<^verbatim>\<open>df.at[idx, c] = v\<close> for an index label \<open>idx\<close>: on a unique index one cell is written;
  on an index with repeated labels \<^verbatim>\<open>.at\<close> falls back to \<^verbatim>\<open>.loc\<close>, which writes the cell
  of every row that carries the label.
\<close>

definition at_set :: "nat \<Rightarrow> string \<Rightarrow> fl \<Rightarrow> dataframe \<Rightarrow> dataframe" where
  "at_set idx c v df =
     (let df' = new_column c df
      in df'\<lparr>rows := map (\<lambda>r. if index_label r = idx then r\<lparr>cells := (cells r)(c := v)\<rparr> else r)
                         (rows df')\<rparr>)"

text \<open>
  \<^verbatim>\<open>df.loc[idx, c] = series\<close> for a list \<open>idx\<close> of index labels and a series that has these
  labels as its index (\<open>series\<close> pairs each label with its value). pandas looks up the rows
  that carry a label of \<open>idx\<close> and aligns the series with their labels: every such row
  receives the value that the series holds at the label of the row, wherever the row
  stands in the table. When a label occurs twice in \<open>idx\<close> the alignment is a reindexing
  of a series with duplicate labels, which raises \<^verbatim>\<open>ValueError\<close>.
\<close>

definition loc_set_labels :: "string \<Rightarrow> (nat \<times> fl) list \<Rightarrow> dataframe \<Rightarrow> error + dataframe" where
  "loc_set_labels c series df =
     (if distinct (map fst series) then
        (let df' = new_column c df
         in Inr (df'\<lparr>rows := map (\<lambda>r. case map_of series (index_label r) of
                                              None \<Rightarrow> r
                                            | Some v \<Rightarrow> r\<lparr>cells := (cells r)(c := v)\<rparr>)
                                  (rows df')\<rparr>))
      else Inl ValueError)"

section \<open>Latency buckets of a table\<close>

definition latency_col_of :: "string \<Rightarrow> string \<Rightarrow> string" where
  "latency_col_of endpoint sensor_id = ''latency_ms_'' @ endpoint @ ''_'' @ sensor_id"

text \<open>
  The estimates of one row, in the order of the two inner loops of
  \<^verbatim>\<open>process_latency_buckets\<close>, each with the name of its latency column. A label that
  \<^verbatim>\<open>float\<close> rejects raises, and the exception leaves the function.
\<close>

fun endpoint_estimates ::
  "(string \<Rightarrow> fl option) \<Rightarrow> string \<Rightarrow> (string \<times> (string \<times> fl) list) list
     \<Rightarrow> error + (string \<times> latency_estimate) list" where
  "endpoint_estimates to_float sensor_id [] = Inr []"
| "endpoint_estimates to_float sensor_id ((endpoint, buckets) # rest) =
     (case bucket_bounds_of to_float buckets [] of
        Inl e \<Rightarrow> Inl e
      | Inr bucket_bounds \<Rightarrow>
          (case endpoint_estimates to_float sensor_id rest of
             Inl e \<Rightarrow> Inl e
           | Inr es \<Rightarrow>
               Inr ((latency_col_of endpoint sensor_id, estimate_latency bucket_bounds) # es)))"

fun sensor_estimates ::
  "(string \<Rightarrow> fl option) \<Rightarrow> bucket_dict \<Rightarrow> error + (string \<times> latency_estimate) list" where
  "sensor_estimates to_float [] = Inr []"
| "sensor_estimates to_float ((sensor_id, endpoints) # rest) =
     (case endpoint_estimates to_float sensor_id endpoints of
        Inl e \<Rightarrow> Inl e
      | Inr es \<Rightarrow>
          (case sensor_estimates to_float rest of
             Inl e \<Rightarrow> Inl e
           | Inr es' \<Rightarrow> Inr (es @ es')))"

text \<open>
  The three \<^verbatim>\<open>df.at[idx, ...] = ...\<close> of one estimate; \<open>idx\<close> is the index label that
  \<^verbatim>\<open>iterrows\<close> gives with the row, and each of the three writes reaches every row that
  carries this label.
\<close>

definition new_flag_column :: "string \<Rightarrow> dataframe \<Rightarrow> dataframe" where
  "new_flag_column c df =
     (if c \<in> set (flag_columns df) then df
      else df\<lparr>flag_columns := flag_columns df @ [c],
              rows := map (\<lambda>r. r\<lparr>flags := (flags r)(c := None)\<rparr>) (rows df)\<rparr>)"

definition new_method_column :: "string \<Rightarrow> dataframe \<Rightarrow> dataframe" where
  "new_method_column c df =
     (if c \<in> set (method_columns df) then df
      else df\<lparr>method_columns := method_columns df @ [c],
              rows := map (\<lambda>r. r\<lparr>methods := (methods r)(c := MNaN)\<rparr>) (rows df)\<rparr>)"

definition write_estimate :: "nat \<Rightarrow> dataframe \<Rightarrow> string \<times> latency_estimate \<Rightarrow> dataframe" where
  "write_estimate idx df ce =
     (let latency_col = fst ce;
          estimation_flag_col = latency_col @ ''_estimated'';
          estimation_method_col = latency_col @ ''_method'';
          df1 = at_set idx latency_col (latency_ms (snd ce)) df;
          df2 = new_method_column estimation_method_col (new_flag_column estimation_flag_col df1)
      in df2\<lparr>rows :=
            map (\<lambda>r. if index_label r = idx
                      then r\<lparr>flags := (flags r)(estimation_flag_col := Some (is_estimated (snd ce))),
                             methods := (methods r)
                               (estimation_method_col := MStr (estimation_method (snd ce)))\<rparr>
                      else r)
                (rows df2)\<rparr>)"

text \<open>
  \<^verbatim>\<open>for idx, row in df.iterrows()\<close>: the index label and the \<^verbatim>\<open>bucket\<close> cell of each
  row, in the order of the rows, as they are when the loop starts.
\<close>

definition iterrows :: "dataframe \<Rightarrow> (nat \<times> bucket_dict option) list" where
  "iterrows df = map (\<lambda>r. (index_label r, bucket r)) (rows df)"

fun process_rows ::
  "(string \<Rightarrow> fl option) \<Rightarrow> (nat \<times> bucket_dict option) list \<Rightarrow> dataframe \<Rightarrow> error + dataframe" where
  "process_rows to_float [] df = Inr df"
| "process_rows to_float ((idx, b) # rest) df =
     (case b of
        None \<Rightarrow> process_rows to_float rest df
      | Some d \<Rightarrow>
          (case sensor_estimates to_float d of
             Inl e \<Rightarrow> Inl e
           | Inr es \<Rightarrow> process_rows to_float rest (foldl (write_estimate idx) df es)))"

text \<open>\<^verbatim>\<open>df[col] = df[col].astype(str)\<close> for the columns whose name ends in \<^verbatim>\<open>_method\<close>.\<close>

fun astype_str :: "mcell \<Rightarrow> mcell" where
  "astype_str MNaN = MStr ''nan''"
| "astype_str (MStr s) = MStr s"

definition methods_astype_str :: "dataframe \<Rightarrow> dataframe" where
  "methods_astype_str df =
     df\<lparr>rows := map (\<lambda>r. r\<lparr>methods := (\<lambda>col. if col \<in> set (method_columns df) \<and> suffix ''_method'' col
                                            then astype_str (methods r col) else methods r col)\<rparr>)
                    (rows df)\<rparr>"

definition process_latency_buckets :: "(string \<Rightarrow> fl option) \<Rightarrow> dataframe \<Rightarrow> error + dataframe" where
  "process_latency_buckets to_float df =
     (case process_rows to_float (iterrows df) df of
        Inl e \<Rightarrow> Inl e
      | Inr df' \<Rightarrow> Inr (methods_astype_str df'))"

text \<open>\<^verbatim>\<open>df.drop(columns=['bucket'])\<close>\<close>

definition drop_bucket :: "dataframe \<Rightarrow> dataframe" where
  "drop_bucket df = df\<lparr>bucket_column := False, rows := map (\<lambda>r. r\<lparr>bucket := None\<rparr>) (rows df)\<rparr>"

section \<open>Derived metrics\<close>

definition abs_diff :: "fl list \<Rightarrow> fl list \<Rightarrow> fl list" where
  "abs_diff xs ys = map (\<lambda>(a, b). fabs (fsub a b)) (zip xs ys)"

text \<open>The body of the loop over \<^verbatim>\<open>sensor_temp_cols\<close> that computes the deviations.\<close>

definition temperature_deviation :: "dataframe \<Rightarrow> string \<Rightarrow> dataframe" where
  "temperature_deviation df sensor_col =
     (let sensor_id = split_max 1 sensor_col ! 1;
          gateway_col = ''gateway_temp_'' @ sensor_id;
          true_col = ''true_temp_'' @ sensor_id;
          df1 = (if gateway_col \<in> set (columns df)
                 then set_column (''sensor_gateway_dev_'' @ sensor_id)
                        (abs_diff (column df sensor_col) (column df gateway_col)) df
                 else df)
      in if true_col \<in> set (columns df1) then
           (let df2 = set_column (''sensor_true_dev_'' @ sensor_id)
                        (abs_diff (column df1 sensor_col) (column df1 true_col)) df1
            in if gateway_col \<in> set (columns df2)
               then set_column (''gateway_true_dev_'' @ sensor_id)
                      (abs_diff (column df2 gateway_col) (column df2 true_col)) df2
               else df2)
         else df1)"

text \<open>
  The reporting intervals of one sensor in one phase:
  \<^verbatim>\<open>
  phase_df = df[df['phase'] == phase].copy()
  if len(phase_df) > 1:
      phase_df = phase_df.sort_values('timestamp')
      phase_df[f'reporting_interval_{sensor_id}'] = phase_df['timestamp'].diff()
      idx = phase_df.index
      df.loc[idx, f'reporting_interval_{sensor_id}'] = phase_df[f'reporting_interval_{sensor_id}']
  \<close>
  The rows of the phase are sorted by timestamp (NaN last) and the differences of
  consecutive timestamps are written back by index label. pandas' default sort is not
  stable; the model's is, which differs only on equal timestamps.
\<close>

definition reporting_interval_phase :: "string \<Rightarrow> dataframe \<Rightarrow> string \<Rightarrow> error + dataframe" where
  "reporting_interval_phase sensor_id df p =
     (let phase_df = filter (\<lambda>r. phase r = p) (rows df) in
      if 1 < length phase_df then
        (let sorted_df = sort_key (\<lambda>r. sort_rank (timestamp r)) phase_df;
             intervals = diff (map timestamp sorted_df);
             idx = map index_label sorted_df
         in loc_set_labels (''reporting_interval_'' @ sensor_id) (zip idx intervals) df)
      else Inr df)"

text \<open>A loop whose body can raise: the first exception leaves the loop.\<close>

fun foldl_result :: "('a \<Rightarrow> 'b \<Rightarrow> error + 'a) \<Rightarrow> 'a \<Rightarrow> 'b list \<Rightarrow> error + 'a" where
  "foldl_result f a [] = Inr a"
| "foldl_result f a (x # xs) =
     (case f a x of
        Inl e \<Rightarrow> Inl e
      | Inr a' \<Rightarrow> foldl_result f a' xs)"

definition reporting_interval :: "dataframe \<Rightarrow> string \<Rightarrow> error + dataframe" where
  "reporting_interval df col =
     foldl_result (reporting_interval_phase (split_max 1 col ! 1)) df (unique (map phase (rows df)))"

definition network_rate :: "string \<Rightarrow> dataframe \<Rightarrow> string \<Rightarrow> dataframe" where
  "network_rate rate_prefix df col =
     set_column (rate_prefix @ split_max 2 col ! 2)
       (map (\<lambda>(a, b). fdiv a b) (zip (diff (column df col)) (diff (map timestamp (rows df)))))
       df"

definition network_rates :: "dataframe \<Rightarrow> dataframe" where
  "network_rates df =
     (let network_sent_cols = filter (prefix ''network_sent_'') (columns df);
          network_received_cols = filter (prefix ''network_received_'') (columns df)
      in foldl (network_rate ''network_received_rate_'')
           (foldl (network_rate ''network_sent_rate_'') df network_sent_cols)
           network_received_cols)"

text \<open>
  \<^verbatim>\<open>mask = df[col].notna(); df.loc[mask, "response_time_ms"] += df.loc[mask, col] * 1000\<close>
\<close>

definition add_response_time :: "string \<Rightarrow> row \<Rightarrow> row" where
  "add_response_time col r =
     (if isnan (cells r col) then r
      else r\<lparr>cells := (cells r)(''response_time_ms'' :=
                 fadd (cells r ''response_time_ms'') (fmul (cells r col) (Fin 1000)))\<rparr>)"

definition latency_metric :: "dataframe \<Rightarrow> string \<Rightarrow> dataframe" where
  "latency_metric df col =
     (let parts = split_max 2 col in
      if 3 \<le> length parts then
        (let ms_col = ''latency_ms_'' @ parts ! 1 @ ''_'' @ parts ! 2;
             df1 = (if ms_col \<notin> set (columns df)
                    then set_column ms_col (map (\<lambda>x. fmul x (Fin 1000)) (column df col)) df
                    else df)
         in df1\<lparr>rows := map (add_response_time col) (rows df1)\<rparr>)
      else df)"

definition latency_metrics :: "dataframe \<Rightarrow> dataframe" where
  "latency_metrics df =
     (let latency_cols =
            filter (\<lambda>col. prefix ''latency_'' col \<and> \<not> prefix ''latency_ms_'' col) (columns df)
      in if latency_cols \<noteq> [] then
           foldl latency_metric
             (if ''response_time_ms'' \<notin> set (columns df)
              then set_column ''response_time_ms'' (replicate (length (rows df)) (Fin 0)) df
              else df)
             latency_cols
         else df)"

text \<open>\<^verbatim>\<open>Series.replace(0, np.nan)\<close>\<close>

definition replace_zero :: "fl \<Rightarrow> fl" where
  "replace_zero s = (if s = Fin 0 then NaN else s)"

definition zscore :: "fl list \<Rightarrow> fl list \<Rightarrow> fl list \<Rightarrow> fl list" where
  "zscore xs means stds =
     map (\<lambda>(x, m, s). fabs (fdiv (fsub x m) (replace_zero s))) (zip xs (zip means stds))"

definition rolling_stat :: "dataframe \<Rightarrow> string \<Rightarrow> dataframe" where
  "rolling_stat df col =
     (if 5 \<le> length (rows df) then
        (let df1 = set_column (col @ ''_roll_mean'') (rolling_mean 5 1 (column df col)) df;
             df2 = set_column (col @ ''_roll_std'') (rolling_std 5 1 (column df1 col)) df1
         in set_column (col @ ''_zscore'')
              (zscore (column df2 col) (column df2 (col @ ''_roll_mean''))
                      (column df2 (col @ ''_roll_std'')))
              df2)
      else df)"

text \<open>
  \<^verbatim>\<open>phase_mask = df['phase'] == phase\<close>: the positions of the rows of a phase. The interval
  stability is read and written through this mask, by position.
\<close>

definition phase_positions :: "string \<Rightarrow> dataframe \<Rightarrow> nat list" where
  "phase_positions p df = filter (\<lambda>i. phase (rows df ! i) = p) [0..<length (rows df)]"

definition interval_stability_phase :: "string \<Rightarrow> dataframe \<Rightarrow> string \<Rightarrow> dataframe" where
  "interval_stability_phase sensor_id df p =
     (let idx = phase_positions p df in
      if 5 < length idx then
        loc_set (''interval_stability_'' @ sensor_id)
          (zip idx (rolling_std 5 2
                      (map (\<lambda>i. cells (rows df ! i) (''reporting_interval_'' @ sensor_id)) idx)))
          df
      else df)"

text \<open>
  The source iterates over a Python set of sensor ids, in no fixed order; each id reads
  and writes columns of its own, and the model takes the ids in the order of the columns.
\<close>

definition interval_stability :: "dataframe \<Rightarrow> string \<Rightarrow> dataframe" where
  "interval_stability df sensor_id =
     (if ''reporting_interval_'' @ sensor_id \<in> set (columns df)
      then foldl (interval_stability_phase sensor_id) df (unique (map phase (rows df)))
      else df)"

definition cumulative_failure :: "dataframe \<Rightarrow> string \<Rightarrow> dataframe" where
  "cumulative_failure df col =
     (let parts = split_max 2 col in
      if 3 \<le> length parts
      then set_column (''cumulative_failures_'' @ parts ! 1 @ ''_'' @ parts ! 2)
             (cumsum (column df col)) df
      else df)"

text \<open>
  \<^verbatim>\<open>calculate_derived_metrics(df)\<close>. The source works on \<^verbatim>\<open>df.copy()\<close>, so the table
  passed in is not touched and the function is a pure one from table to table; an empty
  table is returned as it is. Two things can raise: a bucket label that \<^verbatim>\<open>float\<close> rejects,
  and the write of the reporting intervals of a phase in which an index label repeats.
\<close>

definition derive_columns :: "dataframe \<Rightarrow> error + dataframe" where
  "derive_columns df =
     (let sensor_temp_cols = filter (prefix ''temperature_'') (columns df);
          df2 = foldl temperature_deviation df sensor_temp_cols
      in case foldl_result reporting_interval df2 sensor_temp_cols of
           Inl e \<Rightarrow> Inl e
         | Inr df3 \<Rightarrow>
             (let df4 = network_rates df3;
                  df5 = latency_metrics df4;
                  df6 = foldl rolling_stat df5 sensor_temp_cols;
                  df7 = foldl interval_stability df6
                          (remdups (map (\<lambda>col. split_max 1 col ! 1) sensor_temp_cols))
              in Inr (foldl cumulative_failure df7 (filter (prefix ''failed_'') (columns df7)))))"

definition calculate_derived_metrics :: "(string \<Rightarrow> fl option) \<Rightarrow> dataframe \<Rightarrow> error + dataframe" where
  "calculate_derived_metrics to_float df =
     (if rows df = [] then Inr df
      else if bucket_column df then
        (case process_latency_buckets to_float df of
           Inl e \<Rightarrow> Inl e
         | Inr df1 \<Rightarrow> derive_columns (drop_bucket df1))
      else derive_columns df)"

section \<open>Frame of an update\<close>

text \<open>
  \<open>unchanged_outside P df df'\<close>: going from \<open>df\<close> to \<open>df'\<close> keeps the rows in place with
  their index label, timestamp, phase and vulnerability type, appends only float columns
  whose name satisfies \<open>P\<close>, and changes no float cell of a column whose name does not
  satisfy \<open>P\<close>.
\<close>

definition unchanged_outside :: "(string \<Rightarrow> bool) \<Rightarrow> dataframe \<Rightarrow> dataframe \<Rightarrow> bool" where
  "unchanged_outside P df df' \<longleftrightarrow>
     map index_label (rows df') = map index_label (rows df) \<and>
     map timestamp (rows df') = map timestamp (rows df) \<and>
     map phase (rows df') = map phase (rows df) \<and>
     map vulnerability_type (rows df') = map vulnerability_type (rows df) \<and>
     (\<exists>new. columns df' = columns df @ new \<and> list_all P new) \<and>
     (\<forall>c. \<not> P c \<longrightarrow> column df' c = column df c)"

text \<open>The names of the columns that each step of the derived metrics writes.\<close>

definition deviation_name :: "string \<Rightarrow> bool" where
  "deviation_name c \<longleftrightarrow> prefix ''sensor_gateway_dev_'' c \<or> prefix ''sensor_true_dev_'' c
     \<or> prefix ''gateway_true_dev_'' c"

definition rate_name :: "string \<Rightarrow> bool" where
  "rate_name c \<longleftrightarrow> prefix ''network_sent_rate_'' c \<or> prefix ''network_received_rate_'' c"

definition latency_name :: "string \<Rightarrow> bool" where
  "latency_name c \<longleftrightarrow> c = ''response_time_ms'' \<or> prefix ''latency_ms_'' c"

definition rolling_name :: "string \<Rightarrow> string \<Rightarrow> bool" where
  "rolling_name col c \<longleftrightarrow> c = col @ ''_roll_mean'' \<or> c = col @ ''_roll_std'' \<or> c = col @ ''_zscore''"

text \<open>
  The labels of the latency buckets of a table all convert to a float: no conversion in
  \<^verbatim>\<open>process_latency_buckets\<close> raises.
\<close>

definition bucket_ok :: "(string \<Rightarrow> fl option) \<Rightarrow> bucket_dict option \<Rightarrow> bool" where
  "bucket_ok to_float b =
     (case b of
        None \<Rightarrow> True
      | Some d \<Rightarrow>
          list_all (\<lambda>se. list_all (\<lambda>eb. list_all (\<lambda>kv. fst kv = ''inf'' \<or> to_float (fst kv) \<noteq> None)
                                             (snd eb))
                                (snd se)) d)"

definition labels_convert :: "(string \<Rightarrow> fl option) \<Rightarrow> dataframe \<Rightarrow> bool" where
  "labels_convert to_float df = list_all (bucket_ok to_float) (map bucket (rows df))"

text \<open>
  No index label occurs twice among the rows of one phase. This holds of a table with a
  unique index, and of the table that \<^verbatim>\<open>process_dataset\<close> puts together from one frame
  per phase; it is what the write of the reporting intervals needs in order not to raise.
\<close>

definition labels_distinct_in_phase :: "dataframe \<Rightarrow> bool" where
  "labels_distinct_in_phase df = distinct (map (\<lambda>r. (phase r, index_label r)) (rows df))"

text \<open>
  A raw latency column: its name starts with \<^verbatim>\<open>latency_\<close> but not with \<^verbatim>\<open>latency_ms_\<close>
  (the test that builds \<^verbatim>\<open>latency_cols\<close>).
\<close>

definition raw_latency_name :: "string \<Rightarrow> bool" where
  "raw_latency_name col \<longleftrightarrow> prefix ''latency_'' col \<and> \<not> prefix ''latency_ms_'' col"

text \<open>
  The reporting interval the specification expects on the row of each of the timestamps
  0, 5, 10, 17: no interval on the first one, then 5, 5 and 7.
\<close>

definition expected_interval :: "fl \<Rightarrow> fl" where
  "expected_interval t =
     (if t = Fin 0 then NaN else if t = Fin 5 then Fin 5 else if t = Fin 10 then Fin 5 else Fin 7)"

text \<open>
  The reporting-interval column \<open>c\<close> exists and holds, on every row of the phase \<open>p\<close>, the
  interval that the specification expects for the timestamp of the row.
\<close>

definition phase_intervals_stored :: "string \<Rightarrow> string \<Rightarrow> dataframe \<Rightarrow> bool" where
  "phase_intervals_stored p c df \<longleftrightarrow>
     c \<in> set (columns df)
     \<and> (\<forall>r\<in>set (rows df). phase r = p \<longrightarrow> cells r c = expected_interval (timestamp r))"

section \<open>Impact analysis\<close>

record phase_summary =
  summary_vulnerability_type :: string
  fault_type :: string
  summary_phase :: string
  avg_cpu :: fl
  max_cpu :: fl
  avg_memory :: fl
  max_memory :: fl
  avg_temp_deviation :: fl
  max_temp_deviation :: fl
  avg_latency_ms :: fl
  max_latency_ms :: fl
  avg_reporting_interval :: fl
  summary_interval_stability :: fl
  network_egress_rate :: fl
  measurements :: nat

record impact =
  impact_vulnerability_type :: string
  impact_fault_type :: string
  detection_probability :: fl
  cpu_increase_percent :: fl
  memory_increase_percent :: fl
  temp_deviation_increase_percent :: fl
  latency_increase_percent :: fl
  reporting_interval_change_percent :: fl
  interval_stability_change_percent :: fl
  network_rate_increase_percent :: fl
  recovery_cpu_ratio :: "fl option"
  recovery_memory_ratio :: "fl option"
  recovery_latency_ratio :: "fl option"
  recovery_interval_ratio :: "fl option"

text \<open>The values of a column in a selection of rows (\<^verbatim>\<open>phase_df[col]\<close>).\<close>

definition values_of :: "row list \<Rightarrow> string \<Rightarrow> fl list" where
  "values_of rs col = map (\<lambda>r. cells r col) rs"

text \<open>\<^verbatim>\<open>np.mean(xs) if xs else np.nan\<close>, and the like.\<close>

definition or_nan :: "(fl list \<Rightarrow> fl) \<Rightarrow> fl list \<Rightarrow> fl" where
  "or_nan f xs = (if xs = [] then NaN else f xs)"

text \<open>
  The reporting intervals that count: those present, positive and below 30 seconds; a
  column with none contributes nothing.
\<close>

definition valid_intervals :: "fl list \<Rightarrow> fl list" where
  "valid_intervals xs = filter (\<lambda>x. flt x (Fin 30)) (filter (\<lambda>x. flt (Fin 0) x) (dropna xs))"

definition means_of_nonempty :: "fl list list \<Rightarrow> fl list" where
  "means_of_nonempty xss = map series_mean (filter (\<lambda>xs. xs \<noteq> []) xss)"

text \<open>The summary row of one group \<^verbatim>\<open>phase_df\<close> of \<^verbatim>\<open>analyze_impact\<close>.\<close>

definition summarize :: "dataframe \<Rightarrow> string \<Rightarrow> string \<Rightarrow> string \<Rightarrow> row list \<Rightarrow> phase_summary" where
  "summarize df vulnerability_type' fault ph phase_df =
     (let cpu_cols = filter (prefix ''cpu_'') (columns df);
          mem_cols = filter (prefix ''memory_'') (columns df);
          temp_dev_cols = filter (sublist ''true_dev_'') (columns df);
          latency_ms_cols =
            filter (\<lambda>col. prefix ''latency_ms_'' col \<and> \<not> suffix ''_estimated'' col
                          \<and> \<not> suffix ''_method'' col) (columns df);
          reporting_interval_cols = filter (prefix ''reporting_interval_'') (columns df);
          interval_stability_cols = filter (prefix ''interval_stability_'') (columns df);
          network_rate_cols =
            filter (\<lambda>col. sublist ''network_sent_rate_'' col \<or> sublist ''network_received_rate_'' col)
              (columns df);
          use_fallback = (latency_ms_cols = [] \<and> ''response_time_ms'' \<in> set (columns df));
          avg_latency =
            (if use_fallback then [series_mean (values_of phase_df ''response_time_ms'')]
             else map (\<lambda>col. series_mean (values_of phase_df col)) latency_ms_cols);
          max_latency =
            (if use_fallback then [series_max (values_of phase_df ''response_time_ms'')]
             else map (\<lambda>col. series_max (values_of phase_df col)) latency_ms_cols);
          avg_interval =
            means_of_nonempty
              (map (\<lambda>col. valid_intervals (values_of phase_df col)) reporting_interval_cols);
          stability_metric =
            means_of_nonempty
              (map (\<lambda>col. dropna (values_of phase_df col)) interval_stability_cols);
          network_rates =
            means_of_nonempty
              (map (\<lambda>col. filter (\<lambda>x. flt (Fin 0) x) (dropna (values_of phase_df col)))
                   (filter (sublist ''sent_rate'') network_rate_cols))
      in \<lparr>summary_vulnerability_type = vulnerability_type',
          fault_type = fault,
          summary_phase = ph,
          avg_cpu = or_nan np_mean (map (\<lambda>col. series_mean (values_of phase_df col)) cpu_cols),
          max_cpu = or_nan np_max (map (\<lambda>col. series_max (values_of phase_df col)) cpu_cols),
          avg_memory = or_nan np_mean (map (\<lambda>col. series_mean (values_of phase_df col)) mem_cols),
          max_memory = or_nan np_max (map (\<lambda>col. series_max (values_of phase_df col)) mem_cols),
          avg_temp_deviation =
            or_nan np_mean (map (\<lambda>col. series_mean (values_of phase_df col)) temp_dev_cols),
          max_temp_deviation =
            or_nan np_max (map (\<lambda>col. series_max (values_of phase_df col)) temp_dev_cols),
          avg_latency_ms = or_nan np_nanmean avg_latency,
          max_latency_ms = or_nan np_nanmax max_latency,
          avg_reporting_interval = or_nan np_mean avg_interval,
          summary_interval_stability = or_nan np_mean stability_metric,
          network_egress_rate = or_nan np_mean network_rates,
          measurements = length phase_df\<rparr>)"

definition summary_of :: "dataframe \<Rightarrow> string \<Rightarrow> phase_summary list" where
  "summary_of df vulnerability_type' =
     concat (map (\<lambda>fault.
       concat (map (\<lambda>ph.
         (let phase_df = filter (\<lambda>r. vulnerability_type r = fault \<and> phase r = ph) (rows df)
          in if phase_df = [] then [] else [summarize df vulnerability_type' fault ph phase_df]))
         (unique (map phase (rows df)))))
       (unique (map vulnerability_type (rows df))))"

text \<open>Sequencing of computations that may raise.\<close>

definition and_then :: "error + 'a \<Rightarrow> ('a \<Rightarrow> error + 'b) \<Rightarrow> error + 'b" where
  "and_then r f = (case r of Inl e \<Rightarrow> Inl e | Inr v \<Rightarrow> f v)"

definition ratio_if :: "phase_summary option \<Rightarrow> (phase_summary \<Rightarrow> fl) \<Rightarrow> phase_summary
    \<Rightarrow> error + fl option" where
  "ratio_if recovery field baseline =
     (case recovery of
        None \<Rightarrow> Inr None
      | Some r \<Rightarrow> and_then (safe_divide (field r) (field baseline)) (\<lambda>v. Inr (Some v)))"

text \<open>
  The impact record of one label, from the first summary rows of its baseline, event and
  (if any) recovery phase.
\<close>

definition impact_of ::
  "string \<Rightarrow> string \<Rightarrow> phase_summary \<Rightarrow> phase_summary \<Rightarrow> phase_summary option \<Rightarrow> error + impact" where
  "impact_of vulnerability_type' fault baseline event recovery =
     and_then (calculate_percent_increase (avg_cpu baseline) (avg_cpu event)) (\<lambda>cpu.
     and_then (calculate_percent_increase (avg_memory baseline) (avg_memory event)) (\<lambda>mem.
     and_then (calculate_percent_increase (avg_temp_deviation baseline) (avg_temp_deviation event)) (\<lambda>dev.
     and_then (calculate_percent_increase (avg_latency_ms baseline) (avg_latency_ms event)) (\<lambda>lat.
     and_then (calculate_percent_increase (avg_reporting_interval baseline)
                 (avg_reporting_interval event)) (\<lambda>rep.
     and_then (calculate_percent_increase (summary_interval_stability baseline)
                 (summary_interval_stability event)) (\<lambda>stab.
     and_then (calculate_percent_increase (network_egress_rate baseline)
                 (network_egress_rate event)) (\<lambda>net.
     and_then (ratio_if recovery avg_cpu baseline) (\<lambda>rcpu.
     and_then (ratio_if recovery avg_memory baseline) (\<lambda>rmem.
     and_then (ratio_if recovery avg_latency_ms baseline) (\<lambda>rlat.
     and_then (ratio_if recovery avg_reporting_interval baseline) (\<lambda>rint.
     Inr \<lparr>impact_vulnerability_type = vulnerability_type',
          impact_fault_type = fault,
          detection_probability = NaN,
          cpu_increase_percent = cpu,
          memory_increase_percent = mem,
          temp_deviation_increase_percent = dev,
          latency_increase_percent = lat,
          reporting_interval_change_percent = rep,
          interval_stability_change_percent = stab,
          network_rate_increase_percent = net,
          recovery_cpu_ratio = rcpu,
          recovery_memory_ratio = rmem,
          recovery_latency_ratio = rlat,
          recovery_interval_ratio = rint\<rparr>)))))))))))"

text \<open>
  The loop over the labels: a label without a baseline or without an event summary is
  skipped, and so is one whose computation raises (\<^verbatim>\<open>except Exception\<close>).
\<close>

definition impact_data_of :: "dataframe \<Rightarrow> string \<Rightarrow> phase_summary list \<Rightarrow> impact list" where
  "impact_data_of df vulnerability_type' summary_df =
     concat (map (\<lambda>fault.
       (let baseline = filter (\<lambda>s. fault_type s = fault \<and> summary_phase s = ''baseline'') summary_df;
            event = filter (\<lambda>s. fault_type s = fault \<and> summary_phase s = ''event'') summary_df;
            recovery = filter (\<lambda>s. fault_type s = fault \<and> summary_phase s = ''recovery'') summary_df
        in if baseline = [] \<or> event = [] then []
           else (case impact_of vulnerability_type' fault (hd baseline) (hd event)
                        (if recovery = [] then None else Some (hd recovery)) of
                   Inl e \<Rightarrow> []
                 | Inr i \<Rightarrow> [i])))
       (unique (map vulnerability_type (rows df))))"

text \<open>
  \<^verbatim>\<open>analyze_impact(df, output_dir, vulnerability_type)\<close>. The source first assigns
  \<^verbatim>\<open>df[col] = df[col].astype(str)\<close> for every \<^verbatim>\<open>*_method\<close> column (and
  \<^verbatim>\<open>pd.to_numeric\<close>, which leaves a float column as it is, for every latency column):
  it writes into the table it was given. The first component of the result is that table
  after the call; the other two are the summary and the impact table. Writing the two CSV
  files is not modelled.

  On an empty table the source means to return two empty tables, but \<^verbatim>\<open>pd\<close> is a local
  name of the function (the function imports pandas itself, two lines further down) and
  \<^verbatim>\<open>return pd.DataFrame(), pd.DataFrame()\<close> reads it before that import has run: the call
  raises \<^verbatim>\<open>UnboundLocalError\<close>, and the table is as it was.
\<close>

definition analyze_impact ::
  "dataframe \<Rightarrow> string \<Rightarrow> error + dataframe \<times> phase_summary list \<times> impact list" where
  "analyze_impact df vulnerability_type' =
     (if rows df = [] then Inl UnboundLocalError
      else (let df' = methods_astype_str df;
                summary_df = summary_of df' vulnerability_type'
            in Inr (df', summary_df, impact_data_of df' vulnerability_type' summary_df)))"

section \<open>Theorems\<close>

text \<open>
  C2: the percent change is NaN for a baseline of 0 and for a NaN baseline, whatever the
  event value; from 100 to 150 it is exactly 50; and no pair of arguments makes the
  function raise (in particular no division by zero).
\<close>

theorem C2_percent_change_nan_guard:
  "calculate_percent_increase (Fin 0) x = Inr NaN
   \<and> calculate_percent_increase NaN x = Inr NaN
   \<and> calculate_percent_increase (Fin 100) (Fin 150) = Inr (Fin 50)
   \<and> (\<exists>v. calculate_percent_increase b x = Inr v)"
  by (simp add: calculate_percent_increase_def py_div_def fsub_def)

theorem C2_percent_change_nan_guard_witness:
  "calculate_percent_increase (Fin 0) PInf = Inr NaN
   \<and> calculate_percent_increase NaN (Fin 7) = Inr NaN
   \<and> calculate_percent_increase (Fin 100) (Fin 150) = Inr (Fin 50)
   \<and> (\<exists>v. calculate_percent_increase (Fin 4) (Fin 6) = Inr v)"
  using C2_percent_change_nan_guard [of PInf "Fin 4"]
    C2_percent_change_nan_guard [of "Fin 7"] C2_percent_change_nan_guard [of "Fin 6" "Fin 4"]
  by blast

subsection \<open>The quantile estimator\<close>

lemmas estimator_defs = estimate_latency_def sorted_bounds_of_def non_inf_buckets_of_def
  inf_count_of_def total_count_of_def target_count_of_def quantile_def py_max_def fsub_def

lemma py_max_one_nonzero: "py_max (Fin 1) d \<noteq> Fin 0"
  by (cases d) (simp_all add: py_max_def)

lemma length_sorted_bounds: "length (sorted_bounds_of bs) = length bs"
  by (simp add: sorted_bounds_of_def)

lemma length_non_inf_sorted:
  "length (non_inf_buckets_of (sorted_bounds_of bs)) = length (filter (\<lambda>kv. fst kv \<noteq> PInf) bs)"
  unfolding non_inf_buckets_of_def sorted_bounds_of_def
  by (simp add: filter_sort)

lemma set_non_inf_sorted:
  "set (non_inf_buckets_of (sorted_bounds_of bs)) = {kv \<in> set bs. fst kv \<noteq> PInf}"
  unfolding non_inf_buckets_of_def sorted_bounds_of_def by auto

lemma one_bucket:
  "estimate_latency [(bound, cnt)] =
     (if bound = PInf
      then \<lparr>latency_ms = NaN, is_estimated = True, estimation_method = ''only_inf_bucket''\<rparr>
      else \<lparr>latency_ms = fmul bound (Fin 1000), is_estimated = True,
            estimation_method = ''single_bucket''\<rparr>)"
  by (simp add: estimate_latency_def sorted_bounds_of_def)

lemma insufficient_buckets:
  assumes "2 \<le> length bs" and "length (filter (\<lambda>kv. fst kv \<noteq> PInf) bs) < 2"
  shows "estimate_latency bs =
     \<lparr>latency_ms = NaN, is_estimated = True, estimation_method = ''insufficient_buckets''\<rparr>"
proof -
  have "sorted_bounds_of bs \<noteq> []"
    using assms(1) length_sorted_bounds[of bs] by auto
  then show ?thesis
    using assms length_sorted_bounds[of bs] length_non_inf_sorted[of bs]
    by (simp add: estimate_latency_def Let_def)
qed

text \<open>
  C3 (as amended): a bucket set of exactly one bucket gives the bound in milliseconds with
  method \<open>single_bucket\<close> when the bound is not +infinity, and NaN with method
  \<open>only_inf_bucket\<close> when it is; both are marked estimated. A set of two or more buckets
  of which fewer than two have a bound other than +infinity (one finite bucket beside the
  +infinity bucket) gives NaN with method \<open>insufficient_buckets\<close>, marked estimated.
\<close>

theorem C3_fewer_than_two_finite_buckets:
  "estimate_latency [(bound, cnt)] =
     (if bound = PInf
      then \<lparr>latency_ms = NaN, is_estimated = True, estimation_method = ''only_inf_bucket''\<rparr>
      else \<lparr>latency_ms = fmul bound (Fin 1000), is_estimated = True,
            estimation_method = ''single_bucket''\<rparr>)
   \<and> (2 \<le> length bs \<and> length (filter (\<lambda>kv. fst kv \<noteq> PInf) bs) < 2 \<longrightarrow>
        estimate_latency bs =
          \<lparr>latency_ms = NaN, is_estimated = True, estimation_method = ''insufficient_buckets''\<rparr>)"
  using one_bucket insufficient_buckets by blast

theorem C3_fewer_than_two_finite_buckets_witness:
  "estimate_latency [(Fin (1 / 2), Fin 5)] =
     \<lparr>latency_ms = Fin 500, is_estimated = True, estimation_method = ''single_bucket''\<rparr>
   \<and> 2 \<le> length [(Fin (1 / 2), Fin 3), (PInf, Fin 5)]
   \<and> length (filter (\<lambda>kv. fst kv \<noteq> PInf) [(Fin (1 / 2), Fin 3), (PInf, Fin 5)]) < 2
   \<and> estimate_latency [(Fin (1 / 2), Fin 3), (PInf, Fin 5)] =
       \<lparr>latency_ms = NaN, is_estimated = True, estimation_method = ''insufficient_buckets''\<rparr>"
  using C3_fewer_than_two_finite_buckets
          [of "Fin (1 / 2)" "Fin 5" "[(Fin (1 / 2), Fin 3), (PInf, Fin 5)]"]
  by simp

text \<open>
  C3 as the specification states it fails: the set \<open>{0.5: 3, +inf: 5}\<close> has exactly one
  finite bucket, and the estimator answers NaN with method \<open>insufficient_buckets\<close>, not
  500 ms with method \<open>single_bucket\<close>.
\<close>

theorem C3_one_finite_bucket_counterexample:
  "length (finite_bounds [(Fin (1 / 2), Fin 3), (PInf, Fin 5)]) = 1
   \<and> estimation_method (estimate_latency [(Fin (1 / 2), Fin 3), (PInf, Fin 5)]) \<noteq> ''single_bucket''
   \<and> latency_ms (estimate_latency [(Fin (1 / 2), Fin 3), (PInf, Fin 5)]) \<noteq> fmul (Fin (1 / 2)) (Fin 1000)"
  by (simp add: estimator_defs)

lemma interpolate_first:
  "Suc i < length xs \<Longrightarrow> fle (snd (xs ! i)) t \<Longrightarrow> fle t (snd (xs ! Suc i)) \<Longrightarrow>
   \<forall>j<i. \<not> (fle (snd (xs ! j)) t \<and> fle t (snd (xs ! Suc j))) \<Longrightarrow>
   interpolate t xs =
     Some (fadd (fst (xs ! i))
            (fmul (fdiv (fsub t (snd (xs ! i)))
                        (py_max (Fin 1) (fsub (snd (xs ! Suc i)) (snd (xs ! i)))))
                  (fsub (fst (xs ! Suc i)) (fst (xs ! i)))))"
proof (induction t xs arbitrary: i rule: interpolate.induct)
  case (1 t cb cc nb nc rest)
  let ?ys = "(nb, nc) # rest"
  show ?case
  proof (cases i)
    case 0
    with 1 show ?thesis by simp
  next
    case (Suc k)
    with "1.prems" have nomatch: "\<not> (fle cc t \<and> fle t nc)" by fastforce
    have "interpolate t ?ys =
      Some (fadd (fst (?ys ! k))
             (fmul (fdiv (fsub t (snd (?ys ! k)))
                         (py_max (Fin 1) (fsub (snd (?ys ! Suc k)) (snd (?ys ! k)))))
                   (fsub (fst (?ys ! Suc k)) (fst (?ys ! k)))))"
    proof (rule "1.IH")
      show "\<not> (fle cc t \<and> fle t nc)" by (rule nomatch)
      show "Suc k < length ?ys" using "1.prems"(1) Suc by simp
      show "fle (snd (?ys ! k)) t" using "1.prems"(2) Suc by simp
      show "fle t (snd (?ys ! Suc k))" using "1.prems"(3) Suc by simp
      show "\<forall>j<k. \<not> (fle (snd (?ys ! j)) t \<and> fle t (snd (?ys ! Suc j)))"
      proof (intro allI impI)
        fix j assume "j < k"
        then have "Suc j < i" using Suc by simp
        with "1.prems"(4)
        have "\<not> (fle (snd (((cb, cc) # ?ys) ! Suc j)) t \<and> fle t (snd (((cb, cc) # ?ys) ! Suc (Suc j))))"
          by blast
        then show "\<not> (fle (snd (?ys ! j)) t \<and> fle t (snd (?ys ! Suc j)))" by simp
      qed
    qed
    moreover have "interpolate t ((cb, cc) # ?ys) = interpolate t ?ys"
      using nomatch by auto
    ultimately show ?thesis using Suc by simp
  qed
qed simp_all

lemma estimate_latency_two_finite:
  assumes "2 \<le> length (non_inf_buckets_of (sorted_bounds_of bs))"
      and "flt (Fin 0) (total_count_of bs)"
  shows "estimate_latency bs =
     (case interpolate (target_count_of bs) (non_inf_buckets_of (sorted_bounds_of bs)) of
        Some estimated_latency \<Rightarrow>
          \<lparr>latency_ms = fmul estimated_latency (Fin 1000), is_estimated = False,
           estimation_method = ''interpolation''\<rparr>
      | None \<Rightarrow>
          \<lparr>latency_ms = fmul (fst (last (non_inf_buckets_of (sorted_bounds_of bs)))) (Fin 1000),
           is_estimated = True, estimation_method = ''highest_bucket''\<rparr>)"
proof -
  have "length (non_inf_buckets_of (sorted_bounds_of bs)) \<le> length (sorted_bounds_of bs)"
    by (simp add: non_inf_buckets_of_def)
  with assms(1) have "2 \<le> length (sorted_bounds_of bs)" by linarith
  moreover from this have "sorted_bounds_of bs \<noteq> []" by auto
  ultimately show ?thesis
    using assms by (simp add: estimate_latency_def Let_def total_count_of_def target_count_of_def)
qed

text \<open>
  C4 (as amended): for a bucket set none of whose bounds is NaN, with at least two
  finite-bound buckets and a positive total, the first
  adjacent pair, in ascending order of bound, with \<open>count\<^sub>i \<le> target \<le> count\<^sub>j\<close> gives
  \<open>bound\<^sub>i + (target - count\<^sub>i) / max(1, count\<^sub>j - count\<^sub>i) * (bound\<^sub>j - bound\<^sub>i)\<close> in
  milliseconds, with method \<open>interpolation\<close> and not marked estimated. When the two counts
  differ by more than 1 this is the formula of the specification.
\<close>

theorem C4_interpolation_first_pair:
  assumes "\<forall>kv\<in>set bs. fst kv \<noteq> NaN"
      and "2 \<le> length (non_inf_buckets_of (sorted_bounds_of bs))"
      and "flt (Fin 0) (total_count_of bs)"
      and "Suc i < length (non_inf_buckets_of (sorted_bounds_of bs))"
      and "non_inf_buckets_of (sorted_bounds_of bs) ! i = (bound_i, count_i)"
      and "non_inf_buckets_of (sorted_bounds_of bs) ! Suc i = (bound_j, count_j)"
      and "fle count_i (target_count_of bs)"
      and "fle (target_count_of bs) count_j"
      and "\<forall>k<i. \<not> (fle (snd (non_inf_buckets_of (sorted_bounds_of bs) ! k)) (target_count_of bs)
                    \<and> fle (target_count_of bs) (snd (non_inf_buckets_of (sorted_bounds_of bs) ! Suc k)))"
  shows "estimate_latency bs =
     \<lparr>latency_ms =
        fmul (fadd bound_i
               (fmul (fdiv (fsub (target_count_of bs) count_i)
                           (py_max (Fin 1) (fsub count_j count_i)))
                     (fsub bound_j bound_i)))
             (Fin 1000),
      is_estimated = False, estimation_method = ''interpolation''\<rparr>
    \<and> (flt (Fin 1) (fsub count_j count_i) \<longrightarrow>
         latency_ms (estimate_latency bs) =
           claimed_interpolation (target_count_of bs) (bound_i, count_i) (bound_j, count_j))"
proof -
  have "interpolate (target_count_of bs) (non_inf_buckets_of (sorted_bounds_of bs)) =
     Some (fadd bound_i
            (fmul (fdiv (fsub (target_count_of bs) count_i)
                        (py_max (Fin 1) (fsub count_j count_i)))
                  (fsub bound_j bound_i)))"
    using interpolate_first[OF assms(4), of "target_count_of bs"] assms(5-9)
    by simp
  then show ?thesis
    using estimate_latency_two_finite[OF assms(2,3)]
    by (simp add: claimed_interpolation_def py_max_def)
qed

theorem C4_interpolation_first_pair_witness:
  "2 \<le> length (non_inf_buckets_of (sorted_bounds_of [(Fin (1 / 10), Fin 10), (Fin (1 / 2), Fin 20), (PInf, Fin 20)]))
   \<and> flt (Fin 0) (total_count_of [(Fin (1 / 10), Fin 10), (Fin (1 / 2), Fin 20), (PInf, Fin 20)])
   \<and> fle (Fin 10) (target_count_of [(Fin (1 / 10), Fin 10), (Fin (1 / 2), Fin 20), (PInf, Fin 20)])
   \<and> fle (target_count_of [(Fin (1 / 10), Fin 10), (Fin (1 / 2), Fin 20), (PInf, Fin 20)]) (Fin 20)
   \<and> estimate_latency [(Fin (1 / 10), Fin 10), (Fin (1 / 2), Fin 20), (PInf, Fin 20)] =
       \<lparr>latency_ms = Fin 460, is_estimated = False, estimation_method = ''interpolation''\<rparr>
   \<and> claimed_interpolation (Fin 19) (Fin (1 / 10), Fin 10) (Fin (1 / 2), Fin 20) = Fin 460"
proof -
  let ?bs = "[(Fin (1 / 10), Fin 10), (Fin (1 / 2), Fin 20), (PInf, Fin 20)]"
  have nb: "non_inf_buckets_of (sorted_bounds_of ?bs) = [(Fin (1 / 10), Fin 10), (Fin (1 / 2), Fin 20)]"
    by (simp add: estimator_defs)
  have tc: "total_count_of ?bs = Fin 20" "target_count_of ?bs = Fin 19"
    by (simp_all add: estimator_defs)
  have h0: "\<forall>kv\<in>set ?bs. fst kv \<noteq> NaN" by simp
  have h1: "2 \<le> length (non_inf_buckets_of (sorted_bounds_of ?bs))" by (simp add: nb)
  have h2: "flt (Fin 0) (total_count_of ?bs)" by (simp add: tc)
  have h3: "Suc 0 < length (non_inf_buckets_of (sorted_bounds_of ?bs))" by (simp add: nb)
  have h4: "non_inf_buckets_of (sorted_bounds_of ?bs) ! 0 = (Fin (1 / 10), Fin 10)" by (simp add: nb)
  have h5: "non_inf_buckets_of (sorted_bounds_of ?bs) ! Suc 0 = (Fin (1 / 2), Fin 20)" by (simp add: nb)
  have h6: "fle (Fin 10) (target_count_of ?bs)" by (simp add: tc)
  have h7: "fle (target_count_of ?bs) (Fin 20)" by (simp add: tc)
  have h8: "\<forall>k<0. \<not> (fle (snd (non_inf_buckets_of (sorted_bounds_of ?bs) ! k)) (target_count_of ?bs)
                    \<and> fle (target_count_of ?bs) (snd (non_inf_buckets_of (sorted_bounds_of ?bs) ! Suc k)))"
    by simp
  from C4_interpolation_first_pair[OF h0 h1 h2 h3 h4 h5 h6 h7 h8] h1 h2 h6 h7
  show ?thesis by (simp add: tc fsub_def py_max_def claimed_interpolation_def)
qed

text \<open>
  C4 as the specification states it fails where the two counts differ by less than 1:
  for the buckets \<open>{0.1: 0, 0.5: 0.5}\<close> the total is 0.5 and the target 0.475, the pair
  satisfies \<open>0 \<le> 0.475 \<le> 0.5\<close>, the specification's formula gives 480 ms and the
  estimator, which divides by \<open>max(1, 0.5) = 1\<close>, gives 290 ms.
\<close>

theorem C4_fractional_counts_counterexample:
  "non_inf_buckets_of (sorted_bounds_of [(Fin (1 / 10), Fin 0), (Fin (1 / 2), Fin (1 / 2))]) =
     [(Fin (1 / 10), Fin 0), (Fin (1 / 2), Fin (1 / 2))]
   \<and> flt (Fin 0) (total_count_of [(Fin (1 / 10), Fin 0), (Fin (1 / 2), Fin (1 / 2))])
   \<and> fle (Fin 0) (target_count_of [(Fin (1 / 10), Fin 0), (Fin (1 / 2), Fin (1 / 2))])
   \<and> fle (target_count_of [(Fin (1 / 10), Fin 0), (Fin (1 / 2), Fin (1 / 2))]) (Fin (1 / 2))
   \<and> claimed_interpolation (target_count_of [(Fin (1 / 10), Fin 0), (Fin (1 / 2), Fin (1 / 2))])
        (Fin (1 / 10), Fin 0) (Fin (1 / 2), Fin (1 / 2)) = Fin 480
   \<and> latency_ms (estimate_latency [(Fin (1 / 10), Fin 0), (Fin (1 / 2), Fin (1 / 2))]) = Fin 290"
  by (simp add: estimator_defs claimed_interpolation_def)

lemma interpolate_brackets: "(interpolate t xs \<noteq> None) = brackets fle t xs"
  by (induction t xs rule: interpolate.induct) auto

lemma interpolate_pair:
  "interpolate t xs = Some e \<Longrightarrow>
   \<exists>i. Suc i < length xs \<and> fle (snd (xs ! i)) t \<and> fle t (snd (xs ! Suc i))
     \<and> e = fadd (fst (xs ! i))
              (fmul (fdiv (fsub t (snd (xs ! i)))
                          (py_max (Fin 1) (fsub (snd (xs ! Suc i)) (snd (xs ! i)))))
                    (fsub (fst (xs ! Suc i)) (fst (xs ! i))))"
proof (induction t xs rule: interpolate.induct)
  case (1 t cb cc nb nc rest)
  let ?f = "\<lambda>xs i. fadd (fst (xs ! i))
              (fmul (fdiv (fsub t (snd (xs ! i)))
                          (py_max (Fin 1) (fsub (snd (xs ! Suc i)) (snd (xs ! i)))))
                    (fsub (fst (xs ! Suc i)) (fst (xs ! i))))"
  show ?case
  proof (cases "fle cc t \<and> fle t nc")
    case True
    with "1.prems" have "e = ?f ((cb, cc) # (nb, nc) # rest) 0" by simp
    with True show ?thesis by (intro exI[of _ 0]) simp
  next
    case False
    then have "interpolate t ((nb, nc) # rest) = Some e" using "1.prems" by auto
    from "1.IH"[OF False this] obtain i where
      i: "Suc i < length ((nb, nc) # rest)" "fle (snd (((nb, nc) # rest) ! i)) t"
         "fle t (snd (((nb, nc) # rest) ! Suc i))" "e = ?f ((nb, nc) # rest) i"
      by blast
    then show ?thesis by (intro exI[of _ "Suc i"]) simp
  qed
qed simp_all

lemma finite_bounds_set: "set (finite_bounds xs) = {x. \<exists>c. (Fin x, c) \<in> set xs}"
  by (induction xs rule: finite_bounds.induct) auto

lemma sorted_non_inf:
  "sorted (map (\<lambda>kv. sort_rank (fst kv)) (non_inf_buckets_of (sorted_bounds_of bs)))"
  unfolding non_inf_buckets_of_def sorted_bounds_of_def
  by (rule sorted_filter) (rule sorted_sort_key)

lemma highest_finite_bound:
  assumes bounds: "\<forall>kv\<in>set bs. fst kv \<noteq> NaN \<and> fst kv \<noteq> NInf"
      and ne: "non_inf_buckets_of (sorted_bounds_of bs) \<noteq> []"
  shows "fst (last (non_inf_buckets_of (sorted_bounds_of bs))) = Fin (Max (set (finite_bounds bs)))"
proof -
  let ?nb = "non_inf_buckets_of (sorted_bounds_of bs)"
  let ?k = "\<lambda>kv. sort_rank (fst kv)"
  have fin: "\<exists>x. fst kv = Fin x" if "kv \<in> set ?nb" for kv
  proof -
    from that have "kv \<in> set bs" "fst kv \<noteq> PInf" by (auto simp: set_non_inf_sorted)
    with bounds show ?thesis by (cases "fst kv") auto
  qed
  have l: "last ?nb \<in> set ?nb" using ne by simp
  then obtain m where m: "fst (last ?nb) = Fin m" using fin by blast
  have mem: "m \<in> set (finite_bounds bs)"
  proof -
    have "(Fin m, snd (last ?nb)) \<in> set ?nb" using l m by (metis prod.collapse)
    then show ?thesis by (auto simp: finite_bounds_set set_non_inf_sorted)
  qed
  have le: "y \<le> m" if "y \<in> set (finite_bounds bs)" for y
  proof -
    from that obtain c where "(Fin y, c) \<in> set ?nb"
      by (auto simp: finite_bounds_set set_non_inf_sorted)
    then obtain i where i: "i < length ?nb" "?nb ! i = (Fin y, c)"
      by (auto simp: in_set_conv_nth)
    have "map ?k ?nb ! i \<le> map ?k ?nb ! (length ?nb - 1)"
      by (rule sorted_nth_mono[OF sorted_non_inf]) (use i(1) in simp_all)
    then have "?k (?nb ! i) \<le> ?k (last ?nb)"
      using i(1) ne by (simp add: last_conv_nth)
    then show ?thesis by (simp add: i(2) m)
  qed
  have "Max (set (finite_bounds bs)) = m"
    by (rule Max_eqI) (use mem le in simp_all)
  with m show ?thesis by simp
qed

text \<open>
  C5 (as amended): for a bucket set none of whose bounds is NaN or -infinity, with at
  least two finite-bound buckets and a positive total, the estimate is marked not
  estimated exactly when the target lies between the counts of two adjacent finite
  buckets, ends included (\<open>count\<^sub>i \<le> target \<le> count\<^sub>i\<^sub>+\<^sub>1\<close>). When it is marked estimated,
  the estimate before the conversion to milliseconds is exactly the largest finite bound,
  with method \<open>highest_bucket\<close>. When it is not, the estimate is the interpolation
  \<open>bound\<^sub>i + (target - count\<^sub>i) / max(1, count\<^sub>i\<^sub>+\<^sub>1 - count\<^sub>i) * (bound\<^sub>i\<^sub>+\<^sub>1 - bound\<^sub>i)\<close> of such a
  pair. No interval is stated for the interpolated value: the source computes it in
  double precision, where the rounding of the difference, the product and the sum can
  carry it past the bound of the pair (for \<open>{0.3: 0, 0.9: 19, +inf: 20}\<close> it is
  \<open>0.3 + 1.0 * (0.9 - 0.3) = 0.9000000000000001\<close>, above the largest bound), which the
  exact arithmetic of this model does not show.
\<close>

theorem C5_estimated_flag_and_estimate:
  assumes bounds: "\<forall>kv\<in>set bs. fst kv \<noteq> NaN \<and> fst kv \<noteq> NInf"
      and two: "2 \<le> length (non_inf_buckets_of (sorted_bounds_of bs))"
      and pos: "flt (Fin 0) (total_count_of bs)"
    shows "(\<not> is_estimated (estimate_latency bs)) =
             brackets fle (target_count_of bs) (non_inf_buckets_of (sorted_bounds_of bs))
         \<and> (is_estimated (estimate_latency bs) \<longrightarrow>
              estimate_latency bs =
                \<lparr>latency_ms = fmul (Fin (Max (set (finite_bounds bs)))) (Fin 1000),
                 is_estimated = True, estimation_method = ''highest_bucket''\<rparr>)
         \<and> (\<not> is_estimated (estimate_latency bs) \<longrightarrow>
              (\<exists>i. Suc i < length (non_inf_buckets_of (sorted_bounds_of bs))
                 \<and> fle (snd (non_inf_buckets_of (sorted_bounds_of bs) ! i)) (target_count_of bs)
                 \<and> fle (target_count_of bs) (snd (non_inf_buckets_of (sorted_bounds_of bs) ! Suc i))
                 \<and> estimate_latency bs =
                     \<lparr>latency_ms =
                        fmul (fadd (fst (non_inf_buckets_of (sorted_bounds_of bs) ! i))
                               (fmul (fdiv (fsub (target_count_of bs)
                                              (snd (non_inf_buckets_of (sorted_bounds_of bs) ! i)))
                                           (py_max (Fin 1)
                                              (fsub (snd (non_inf_buckets_of (sorted_bounds_of bs) ! Suc i))
                                                    (snd (non_inf_buckets_of (sorted_bounds_of bs) ! i)))))
                                     (fsub (fst (non_inf_buckets_of (sorted_bounds_of bs) ! Suc i))
                                           (fst (non_inf_buckets_of (sorted_bounds_of bs) ! i)))))
                             (Fin 1000),
                      is_estimated = False, estimation_method = ''interpolation''\<rparr>))"
proof -
  let ?nb = "non_inf_buckets_of (sorted_bounds_of bs)"
  let ?t = "target_count_of bs"
  have ne: "?nb \<noteq> []" using two by auto
  have est: "estimate_latency bs =
     (case interpolate ?t ?nb of
        Some estimated_latency \<Rightarrow>
          \<lparr>latency_ms = fmul estimated_latency (Fin 1000), is_estimated = False,
           estimation_method = ''interpolation''\<rparr>
      | None \<Rightarrow>
          \<lparr>latency_ms = fmul (fst (last ?nb)) (Fin 1000),
           is_estimated = True, estimation_method = ''highest_bucket''\<rparr>)"
    by (rule estimate_latency_two_finite[OF two pos])
  have part1: "(\<not> is_estimated (estimate_latency bs)) = brackets fle ?t ?nb"
    unfolding est interpolate_brackets[symmetric] by (simp split: option.split)
  have part2: "estimate_latency bs =
                \<lparr>latency_ms = fmul (Fin (Max (set (finite_bounds bs)))) (Fin 1000),
                 is_estimated = True, estimation_method = ''highest_bucket''\<rparr>"
    if "is_estimated (estimate_latency bs)"
  proof (cases "interpolate ?t ?nb")
    case None
    then show ?thesis unfolding est by (simp add: highest_finite_bound[OF bounds ne])
  next
    case (Some e)
    with that show ?thesis unfolding est by simp
  qed
  have part3: "\<exists>i. Suc i < length ?nb \<and> fle (snd (?nb ! i)) ?t \<and> fle ?t (snd (?nb ! Suc i))
                 \<and> estimate_latency bs =
                     \<lparr>latency_ms =
                        fmul (fadd (fst (?nb ! i))
                               (fmul (fdiv (fsub ?t (snd (?nb ! i)))
                                           (py_max (Fin 1) (fsub (snd (?nb ! Suc i)) (snd (?nb ! i)))))
                                     (fsub (fst (?nb ! Suc i)) (fst (?nb ! i)))))
                             (Fin 1000),
                      is_estimated = False, estimation_method = ''interpolation''\<rparr>"
    if "\<not> is_estimated (estimate_latency bs)"
  proof (cases "interpolate ?t ?nb")
    case None
    with that show ?thesis unfolding est by simp
  next
    case (Some e)
    from interpolate_pair[OF Some] obtain i where
      i: "Suc i < length ?nb" "fle (snd (?nb ! i)) ?t" "fle ?t (snd (?nb ! Suc i))"
         "e = fadd (fst (?nb ! i))
               (fmul (fdiv (fsub ?t (snd (?nb ! i)))
                           (py_max (Fin 1) (fsub (snd (?nb ! Suc i)) (snd (?nb ! i)))))
                     (fsub (fst (?nb ! Suc i)) (fst (?nb ! i))))"
      by blast
    have "estimate_latency bs =
            \<lparr>latency_ms = fmul e (Fin 1000), is_estimated = False,
             estimation_method = ''interpolation''\<rparr>"
      unfolding est using Some by simp
    with i show ?thesis by blast
  qed
  from part1 part2 part3 show ?thesis by blast
qed

theorem C5_estimated_flag_and_estimate_witness:
  "2 \<le> length (non_inf_buckets_of (sorted_bounds_of [(Fin (1 / 10), Fin 10), (Fin (1 / 2), Fin 20), (PInf, Fin 20)]))
   \<and> flt (Fin 0) (total_count_of [(Fin (1 / 10), Fin 10), (Fin (1 / 2), Fin 20), (PInf, Fin 20)])
   \<and> brackets fle (target_count_of [(Fin (1 / 10), Fin 10), (Fin (1 / 2), Fin 20), (PInf, Fin 20)])
       (non_inf_buckets_of (sorted_bounds_of [(Fin (1 / 10), Fin 10), (Fin (1 / 2), Fin 20), (PInf, Fin 20)]))
   \<and> \<not> is_estimated (estimate_latency [(Fin (1 / 10), Fin 10), (Fin (1 / 2), Fin 20), (PInf, Fin 20)])
   \<and> 2 \<le> length (non_inf_buckets_of (sorted_bounds_of [(Fin (1 / 2), Fin 10), (Fin (1 / 10), Fin 5), (PInf, Fin 20)]))
   \<and> flt (Fin 0) (total_count_of [(Fin (1 / 2), Fin 10), (Fin (1 / 10), Fin 5), (PInf, Fin 20)])
   \<and> is_estimated (estimate_latency [(Fin (1 / 2), Fin 10), (Fin (1 / 10), Fin 5), (PInf, Fin 20)])
   \<and> Max (set (finite_bounds [(Fin (1 / 2), Fin 10), (Fin (1 / 10), Fin 5), (PInf, Fin 20)])) = 1 / 2
   \<and> estimate_latency [(Fin (1 / 2), Fin 10), (Fin (1 / 10), Fin 5), (PInf, Fin 20)] =
       \<lparr>latency_ms = Fin 500, is_estimated = True, estimation_method = ''highest_bucket''\<rparr>"
proof -
  let ?bs = "[(Fin (1 / 10), Fin 10), (Fin (1 / 2), Fin 20), (PInf, Fin 20)]"
  let ?cs = "[(Fin (1 / 2), Fin 10), (Fin (1 / 10), Fin 5), (PInf, Fin 20)]"
  have nb: "non_inf_buckets_of (sorted_bounds_of ?bs) = [(Fin (1 / 10), Fin 10), (Fin (1 / 2), Fin 20)]"
    by (simp add: estimator_defs)
  have tc: "total_count_of ?bs = Fin 20" "target_count_of ?bs = Fin 19"
    by (simp_all add: estimator_defs)
  have b1: "\<forall>kv\<in>set ?bs. fst kv \<noteq> NaN \<and> fst kv \<noteq> NInf" by simp
  have b2: "2 \<le> length (non_inf_buckets_of (sorted_bounds_of ?bs))" by (simp add: nb)
  have b3: "flt (Fin 0) (total_count_of ?bs)" by (simp add: tc)
  have br: "brackets fle (target_count_of ?bs) (non_inf_buckets_of (sorted_bounds_of ?bs))"
    by (simp add: nb tc)
  have nc: "non_inf_buckets_of (sorted_bounds_of ?cs) = [(Fin (1 / 10), Fin 5), (Fin (1 / 2), Fin 10)]"
    by (simp add: estimator_defs)
  have td: "total_count_of ?cs = Fin 20" "target_count_of ?cs = Fin 19"
    by (simp_all add: estimator_defs)
  have c1: "\<forall>kv\<in>set ?cs. fst kv \<noteq> NaN \<and> fst kv \<noteq> NInf" by simp
  have c2: "2 \<le> length (non_inf_buckets_of (sorted_bounds_of ?cs))" by (simp add: nc)
  have c3: "flt (Fin 0) (total_count_of ?cs)" by (simp add: td)
  have nbr: "\<not> brackets fle (target_count_of ?cs) (non_inf_buckets_of (sorted_bounds_of ?cs))"
    by (simp add: nc td)
  have mx: "Max (set (finite_bounds ?cs)) = 1 / 2" by simp
  note B = C5_estimated_flag_and_estimate[OF b1 b2 b3]
  note C = C5_estimated_flag_and_estimate[OF c1 c2 c3]
  have e1: "\<not> is_estimated (estimate_latency ?bs)" using B[THEN conjunct1] br by simp
  have e2: "is_estimated (estimate_latency ?cs)" using C[THEN conjunct1] nbr by simp
  have e3: "estimate_latency ?cs =
       \<lparr>latency_ms = Fin 500, is_estimated = True, estimation_method = ''highest_bucket''\<rparr>"
    using C[THEN conjunct2, THEN conjunct1] e2 by (simp add: mx)
  show ?thesis using b2 b3 br e1 c2 c3 e2 mx e3 by (intro conjI)
qed

text \<open>
  C5 as the specification states it fails on "strictly": for the buckets
  \<open>{0.1: 19, 0.5: 20, +inf: 20}\<close> the target is 19, the pair of counts \<open>(19, 20)\<close> satisfies
  \<open>19 \<le> 19 \<le> 20\<close>, and the estimate is marked not estimated although the target is not
  strictly between two adjacent counts.
\<close>

theorem C5_target_on_a_count_counterexample:
  "2 \<le> length (finite_bounds [(Fin (1 / 10), Fin 19), (Fin (1 / 2), Fin 20), (PInf, Fin 20)])
   \<and> flt (Fin 0) (total_count_of [(Fin (1 / 10), Fin 19), (Fin (1 / 2), Fin 20), (PInf, Fin 20)])
   \<and> is_estimated (estimate_latency [(Fin (1 / 10), Fin 19), (Fin (1 / 2), Fin 20), (PInf, Fin 20)]) = False
   \<and> \<not> brackets flt (target_count_of [(Fin (1 / 10), Fin 19), (Fin (1 / 2), Fin 20), (PInf, Fin 20)])
         (non_inf_buckets_of (sorted_bounds_of [(Fin (1 / 10), Fin 19), (Fin (1 / 2), Fin 20), (PInf, Fin 20)]))"
  by (simp add: estimator_defs)

subsection \<open>Value coercion\<close>

text \<open>
  What the third branch tolerates: a value that is not a list of one or more elements and
  is not an integer beyond the range of a double is coerced without an exception, and a
  value \<^verbatim>\<open>float\<close> rejects becomes \<open>0.0\<close>.
\<close>

lemma coerce_value_scalar:
  "coerce_value to_float JNull = Inr (Fin 0)"
  "coerce_value to_float (JList []) = Inr (Fin 0)"
  "coerce_value to_float (JObj kvs) = Inr (Fin 0)"
  "coerce_value to_float (JFloat x) = Inr x"
  "coerce_value to_float (JStr s) = Inr (case to_float s of None \<Rightarrow> Fin 0 | Some x \<Rightarrow> x)"
  by (simp_all add: except_zero_def split: option.split)

text \<open>
  C6 fails on the code: for the value \<^verbatim>\<open>[1700000000.0, null]\<close>, a two-element list whose
  second element is \<^verbatim>\<open>null\<close>, \<^verbatim>\<open>float(None)\<close> raises \<^verbatim>\<open>TypeError\<close>, which the handler
  of the list branch (\<^verbatim>\<open>except (IndexError, ValueError)\<close>) does not catch: the flattener
  raises instead of storing \<open>0.0\<close>. The same holds for a one-element list \<^verbatim>\<open>[null]\<close>.
\<close>

theorem C6_list_with_null_raises:
  "coerce_value to_float (JList [JFloat (Fin 1700000000), JNull]) = Inl TypeError
   \<and> coerce_value to_float (JList [JNull]) = Inl TypeError"
  by (simp add: except_zero_def)

subsection \<open>Frames of the table updates\<close>

lemma unchanged_outside_refl: "unchanged_outside P df df"
  by (simp add: unchanged_outside_def)

lemma unchanged_outside_trans:
  assumes "unchanged_outside P df1 df2" and "unchanged_outside P df2 df3"
  shows "unchanged_outside P df1 df3"
proof -
  from assms obtain new new' where
    "columns df2 = columns df1 @ new" "list_all P new"
    "columns df3 = columns df2 @ new'" "list_all P new'"
    unfolding unchanged_outside_def by blast
  then have "columns df3 = columns df1 @ (new @ new') \<and> list_all P (new @ new')" by simp
  then have "\<exists>n. columns df3 = columns df1 @ n \<and> list_all P n" by blast
  then show ?thesis using assms unfolding unchanged_outside_def by simp
qed

lemma unchanged_outside_mono:
  assumes "unchanged_outside P df df'" and "\<And>c. P c \<Longrightarrow> Q c"
  shows "unchanged_outside Q df df'"
proof -
  from assms(1) obtain new where "columns df' = columns df @ new" "list_all P new"
    unfolding unchanged_outside_def by blast
  then have "columns df' = columns df @ new \<and> list_all Q new"
    using assms(2) by (simp add: list_all_iff)
  then have "\<exists>n. columns df' = columns df @ n \<and> list_all Q n" by blast
  moreover have "\<forall>c. \<not> Q c \<longrightarrow> column df' c = column df c"
    using assms unfolding unchanged_outside_def by blast
  ultimately show ?thesis using assms(1) unfolding unchanged_outside_def by simp
qed

lemma unchanged_outside_length:
  "unchanged_outside P df df' \<Longrightarrow> length (rows df') = length (rows df)"
  unfolding unchanged_outside_def by (metis length_map)

lemma unchanged_outside_foldl:
  "(\<And>d x. x \<in> set xs \<Longrightarrow> unchanged_outside P d (f d x)) \<Longrightarrow> unchanged_outside P df (foldl f df xs)"
proof (induction xs arbitrary: df)
  case Nil
  show ?case by (simp add: unchanged_outside_refl)
next
  case (Cons x xs)
  have a: "unchanged_outside P df (f df x)" using Cons.prems by simp
  have b: "unchanged_outside P (f df x) (foldl f (f df x) xs)"
    using Cons.IH Cons.prems by simp
  from unchanged_outside_trans[OF a b] show ?case by simp
qed

lemma put_cells_fields:
  "map index_label (put_cells c vs rs) = map index_label rs"
  "map timestamp (put_cells c vs rs) = map timestamp rs"
  "map phase (put_cells c vs rs) = map phase rs"
  "map vulnerability_type (put_cells c vs rs) = map vulnerability_type rs"
  "map bucket (put_cells c vs rs) = map bucket rs"
  "length (put_cells c vs rs) = length rs"
  by (induction c vs rs rule: put_cells.induct) simp_all

lemma put_cells_other:
  "c' \<noteq> c \<Longrightarrow> map (\<lambda>r. cells r c') (put_cells c vs rs) = map (\<lambda>r. cells r c') rs"
  by (induction c vs rs rule: put_cells.induct) simp_all

lemma put_cells_same:
  "length vs = length rs \<Longrightarrow> map (\<lambda>r. cells r c) (put_cells c vs rs) = vs"
  by (induction c vs rs rule: put_cells.induct) simp_all

lemma add_name_append: "\<exists>new. add_name c cs = cs @ new \<and> list_all (\<lambda>x. x = c) new"
  by (simp add: add_name_def)

lemma set_column_frame: "unchanged_outside (\<lambda>x. x = c) df (set_column c vs df)"
  using add_name_append[of c "columns df"]
  by (simp add: unchanged_outside_def set_column_def put_cells_fields column_def put_cells_other)

lemma column_set_column:
  "length vs = length (rows df) \<Longrightarrow> column (set_column c vs df) c = vs"
  by (simp add: column_def set_column_def put_cells_same)

lemma new_column_frame: "unchanged_outside (\<lambda>x. x = c) df (new_column c df)"
  by (simp add: new_column_def set_column_frame unchanged_outside_refl)

lemma map_update_same: "(map f rs)[i := f (rs ! i)] = map f rs"
  by (cases "i < length rs") (simp_all add: list_update_same_conv list_update_beyond)

lemma put_cell_fields:
  "map index_label (put_cell c rs iv) = map index_label rs"
  "map timestamp (put_cell c rs iv) = map timestamp rs"
  "map phase (put_cell c rs iv) = map phase rs"
  "map vulnerability_type (put_cell c rs iv) = map vulnerability_type rs"
  "length (put_cell c rs iv) = length rs"
  by (simp_all add: put_cell_def map_update map_update_same)

lemma put_cell_other:
  "c' \<noteq> c \<Longrightarrow> map (\<lambda>r. cells r c') (put_cell c rs iv) = map (\<lambda>r. cells r c') rs"
  using map_update_same[of "\<lambda>r. cells r c'" rs "fst iv"]
  by (simp add: put_cell_def map_update)

lemma foldl_put_cell_fields:
  "map index_label (foldl (put_cell c) rs ivs) = map index_label rs"
  "map timestamp (foldl (put_cell c) rs ivs) = map timestamp rs"
  "map phase (foldl (put_cell c) rs ivs) = map phase rs"
  "map vulnerability_type (foldl (put_cell c) rs ivs) = map vulnerability_type rs"
  "length (foldl (put_cell c) rs ivs) = length rs"
  by (induction ivs arbitrary: rs) (simp_all add: put_cell_fields)

lemma foldl_put_cell_other:
  "c' \<noteq> c \<Longrightarrow> map (\<lambda>r. cells r c') (foldl (put_cell c) rs ivs) = map (\<lambda>r. cells r c') rs"
  by (induction ivs arbitrary: rs) (simp_all add: put_cell_other)

lemma loc_set_frame: "unchanged_outside (\<lambda>x. x = c) df (loc_set c ivs df)"
proof -
  have "unchanged_outside (\<lambda>x. x = c) (new_column c df) (loc_set c ivs df)"
    by (simp add: loc_set_def Let_def unchanged_outside_def foldl_put_cell_fields column_def
        foldl_put_cell_other)
  with new_column_frame[of c df] show ?thesis by (rule unchanged_outside_trans)
qed

lemma at_set_frame: "unchanged_outside (\<lambda>x. x = c) df (at_set idx c v df)"
proof -
  have "unchanged_outside (\<lambda>x. x = c) (new_column c df) (at_set idx c v df)"
    by (simp add: at_set_def Let_def unchanged_outside_def column_def comp_def if_distrib
        cong: if_cong)
  with new_column_frame[of c df] show ?thesis by (rule unchanged_outside_trans)
qed

lemma loc_set_labels_frame:
  assumes "loc_set_labels c series df = Inr df'"
  shows "unchanged_outside (\<lambda>x. x = c) df df'"
proof -
  let ?w = "\<lambda>r. case map_of series (index_label r) of
                  None \<Rightarrow> r
                | Some v \<Rightarrow> r\<lparr>cells := (cells r)(c := v)\<rparr>"
  have w: "index_label (?w r) = index_label r" "timestamp (?w r) = timestamp r"
    "phase (?w r) = phase r" "vulnerability_type (?w r) = vulnerability_type r"
    "c' \<noteq> c \<Longrightarrow> cells (?w r) c' = cells r c'" for r c'
    by (simp_all split: option.split)
  from assms have df': "df' = (new_column c df)\<lparr>rows := map ?w (rows (new_column c df))\<rparr>"
    by (simp add: loc_set_labels_def Let_def split: if_splits)
  have "unchanged_outside (\<lambda>x. x = c) (new_column c df) df'"
    unfolding df' by (simp add: unchanged_outside_def column_def comp_def w)
  with new_column_frame[of c df] show ?thesis by (rule unchanged_outside_trans)
qed

lemma unchanged_outside_column:
  "unchanged_outside P df df' \<Longrightarrow> \<not> P c \<Longrightarrow> column df' c = column df c"
  by (simp add: unchanged_outside_def)

lemma unchanged_outside_filter:
  assumes "unchanged_outside P df df'" and "\<And>c. P c \<Longrightarrow> \<not> Q c"
  shows "filter Q (columns df') = filter Q (columns df)"
proof -
  from assms(1) obtain new where n: "columns df' = columns df @ new" "list_all P new"
    unfolding unchanged_outside_def by blast
  then have "filter Q new = []" using assms(2) by (simp add: list_all_iff filter_empty_conv)
  with n(1) show ?thesis by simp
qed

lemma unchanged_outside_member:
  "unchanged_outside P df df' \<Longrightarrow> \<not> P c \<Longrightarrow> c \<in> set (columns df') \<longleftrightarrow> c \<in> set (columns df)"
  unfolding unchanged_outside_def list_all_iff by auto

lemma unchanged_outside_fields:
  assumes "unchanged_outside P df df'"
  shows "map timestamp (rows df') = map timestamp (rows df)"
    and "map phase (rows df') = map phase (rows df)"
    and "map vulnerability_type (rows df') = map vulnerability_type (rows df)"
    and "map index_label (rows df') = map index_label (rows df)"
  using assms by (simp_all add: unchanged_outside_def)

lemma set_column_writes: "P c \<Longrightarrow> unchanged_outside P df (set_column c vs df)"
  by (rule unchanged_outside_mono[OF set_column_frame]) simp

lemma loc_set_writes: "P c \<Longrightarrow> unchanged_outside P df (loc_set c ivs df)"
  by (rule unchanged_outside_mono[OF loc_set_frame]) simp

lemma temperature_deviation_frame:
  "unchanged_outside deviation_name df (temperature_deviation df sensor_col)"
proof -
  define sensor_id where "sensor_id = split_max 1 sensor_col ! 1"
  define df1 where "df1 =
    (if ''gateway_temp_'' @ sensor_id \<in> set (columns df)
     then set_column (''sensor_gateway_dev_'' @ sensor_id)
            (abs_diff (column df sensor_col) (column df (''gateway_temp_'' @ sensor_id))) df
     else df)"
  define df2 where "df2 = set_column (''sensor_true_dev_'' @ sensor_id)
            (abs_diff (column df1 sensor_col) (column df1 (''true_temp_'' @ sensor_id))) df1"
  define df3 where "df3 =
    (if ''gateway_temp_'' @ sensor_id \<in> set (columns df2)
     then set_column (''gateway_true_dev_'' @ sensor_id)
            (abs_diff (column df2 (''gateway_temp_'' @ sensor_id))
                      (column df2 (''true_temp_'' @ sensor_id))) df2
     else df2)"
  have w: "\<And>d vs. unchanged_outside deviation_name d (set_column (''sensor_gateway_dev_'' @ sensor_id) vs d)"
    "\<And>d vs. unchanged_outside deviation_name d (set_column (''sensor_true_dev_'' @ sensor_id) vs d)"
    "\<And>d vs. unchanged_outside deviation_name d (set_column (''gateway_true_dev_'' @ sensor_id) vs d)"
    by (rule set_column_writes, simp add: deviation_name_def)+
  have 1: "unchanged_outside deviation_name df df1"
    unfolding df1_def by (simp only: w unchanged_outside_refl if_split simp_thms)
  have 2: "unchanged_outside deviation_name df1 df2"
    unfolding df2_def by (rule w)
  have 3: "unchanged_outside deviation_name df2 df3"
    unfolding df3_def by (simp only: w unchanged_outside_refl if_split simp_thms)
  have "temperature_deviation df sensor_col =
          (if ''true_temp_'' @ sensor_id \<in> set (columns df1) then df3 else df1)"
    unfolding temperature_deviation_def Let_def sensor_id_def df1_def df2_def df3_def ..
  then show ?thesis
    using 1 unchanged_outside_trans[OF 1 unchanged_outside_trans[OF 2 3]] by simp
qed

lemma pair_map: "map (\<lambda>r. (f r, g r)) xs = zip (map f xs) (map g xs)"
  by (induction xs) simp_all

lemma labels_distinct_filter:
  assumes "labels_distinct_in_phase df"
  shows "distinct (map index_label (filter (\<lambda>r. phase r = p) (rows df)))"
proof -
  let ?rs = "filter (\<lambda>r. phase r = p) (rows df)"
  have "distinct (map (\<lambda>r. (phase r, index_label r)) ?rs)"
    using assms unfolding labels_distinct_in_phase_def by (rule distinct_map_filter)
  moreover have "map (\<lambda>r. (phase r, index_label r)) ?rs = map (Pair p) (map index_label ?rs)"
    by (simp add: comp_def)
  ultimately have "distinct (map (Pair p) (map index_label ?rs))" by simp
  then show ?thesis using distinct_map[of "Pair p" "map index_label ?rs"] by blast
qed

lemma labels_distinct_unchanged:
  assumes "unchanged_outside P df df'" and "labels_distinct_in_phase df"
  shows "labels_distinct_in_phase df'"
  using assms(2) unchanged_outside_fields(2,4)[OF assms(1)]
  by (simp add: labels_distinct_in_phase_def pair_map)

lemma length_diff: "length (diff xs) = length xs"
  by (cases xs) (simp_all add: diff_def)

lemma reporting_interval_phase_ok:
  assumes "labels_distinct_in_phase df"
  shows "\<exists>df'. reporting_interval_phase sensor_id df p = Inr df'
          \<and> unchanged_outside (\<lambda>x. x = ''reporting_interval_'' @ sensor_id) df df'"
proof (cases "1 < length (filter (\<lambda>r. phase r = p) (rows df))")
  case False
  then show ?thesis by (simp add: reporting_interval_phase_def unchanged_outside_refl)
next
  case True
  let ?c = "''reporting_interval_'' @ sensor_id"
  let ?s = "sort_key (\<lambda>r. sort_rank (timestamp r)) (filter (\<lambda>r. phase r = p) (rows df))"
  let ?series = "zip (map index_label ?s) (diff (map timestamp ?s))"
  have fst: "map fst ?series = map index_label ?s" by (simp add: length_diff)
  have "mset (map index_label ?s) = mset (map index_label (filter (\<lambda>r. phase r = p) (rows df)))"
    by simp
  then have "distinct (map index_label ?s)"
    using labels_distinct_filter[OF assms, of p] by (metis mset_eq_imp_distinct_iff)
  then have "distinct (map fst ?series)" by (simp only: fst)
  then obtain df' where df': "loc_set_labels ?c ?series df = Inr df'"
    by (simp add: loc_set_labels_def Let_def)
  have "reporting_interval_phase sensor_id df p = Inr df'"
    using True df' by (simp add: reporting_interval_phase_def Let_def)
  with loc_set_labels_frame[OF df'] show ?thesis by blast
qed

lemma foldl_result_ok:
  assumes "\<And>d x. x \<in> set xs \<Longrightarrow> labels_distinct_in_phase d \<Longrightarrow>
             \<exists>d'. f d x = Inr d' \<and> unchanged_outside P d d'"
      and "labels_distinct_in_phase df"
  shows "\<exists>df'. foldl_result f df xs = Inr df' \<and> unchanged_outside P df df'"
  using assms
proof (induction xs arbitrary: df)
  case Nil
  show ?case by (simp add: unchanged_outside_refl)
next
  case (Cons x xs)
  from Cons.prems(1)[of x df] Cons.prems(2) obtain d' where
    d': "f df x = Inr d'" "unchanged_outside P df d'" by auto
  have "labels_distinct_in_phase d'" by (rule labels_distinct_unchanged[OF d'(2) Cons.prems(2)])
  with Cons.IH[of d'] Cons.prems(1) obtain df' where
    df': "foldl_result f d' xs = Inr df'" "unchanged_outside P d' df'" by auto
  show ?case using d'(1) df'(1) unchanged_outside_trans[OF d'(2) df'(2)] by simp
qed

lemma reporting_interval_writes:
  assumes "labels_distinct_in_phase df"
  shows "\<exists>df'. reporting_interval df col = Inr df'
          \<and> unchanged_outside (\<lambda>x. x = ''reporting_interval_'' @ split_max 1 col ! 1) df df'"
  unfolding reporting_interval_def
  by (rule foldl_result_ok[OF _ assms]) (rule reporting_interval_phase_ok)

lemma reporting_interval_frame:
  assumes "labels_distinct_in_phase df"
  shows "\<exists>df'. reporting_interval df col = Inr df'
          \<and> unchanged_outside (prefix ''reporting_interval_'') df df'"
proof -
  from reporting_interval_writes[OF assms, of col] obtain df' where
    df': "reporting_interval df col = Inr df'"
    "unchanged_outside (\<lambda>x. x = ''reporting_interval_'' @ split_max 1 col ! 1) df df'" by blast
  have "unchanged_outside (prefix ''reporting_interval_'') df df'"
    by (rule unchanged_outside_mono[OF df'(2)]) simp
  with df'(1) show ?thesis by blast
qed

lemma network_rate_frame:
  "unchanged_outside (prefix pre) df (network_rate pre df col)"
  unfolding network_rate_def by (rule set_column_writes) simp

lemma network_rates_frame: "unchanged_outside rate_name df (network_rates df)"
proof -
  have 1: "\<And>d xs. unchanged_outside rate_name d (foldl (network_rate ''network_sent_rate_'') d xs)"
    by (rule unchanged_outside_foldl)
       (rule unchanged_outside_mono[OF network_rate_frame], simp add: rate_name_def)
  have 2: "\<And>d xs. unchanged_outside rate_name d (foldl (network_rate ''network_received_rate_'') d xs)"
    by (rule unchanged_outside_foldl)
       (rule unchanged_outside_mono[OF network_rate_frame], simp add: rate_name_def)
  show ?thesis unfolding network_rates_def Let_def
    by (rule unchanged_outside_trans[OF 1 2])
qed

lemma add_response_time_fields:
  "index_label (add_response_time col r) = index_label r"
  "timestamp (add_response_time col r) = timestamp r"
  "phase (add_response_time col r) = phase r"
  "vulnerability_type (add_response_time col r) = vulnerability_type r"
  "c \<noteq> ''response_time_ms'' \<Longrightarrow> cells (add_response_time col r) c = cells r c"
  by (simp_all add: add_response_time_def)

lemma add_response_time_frame:
  "unchanged_outside latency_name df (df\<lparr>rows := map (add_response_time col) (rows df)\<rparr>)"
  by (simp add: unchanged_outside_def column_def comp_def add_response_time_fields latency_name_def)

lemma latency_metric_frame: "unchanged_outside latency_name df (latency_metric df col)"
proof -
  have "\<And>c vs. prefix ''latency_ms_'' c \<Longrightarrow> unchanged_outside latency_name df (set_column c vs df)"
    by (rule set_column_writes) (simp add: latency_name_def)
  then show ?thesis
    unfolding latency_metric_def Let_def
    by (auto intro!: unchanged_outside_refl add_response_time_frame
        intro: unchanged_outside_trans[OF _ add_response_time_frame])
qed

lemma latency_metrics_frame: "unchanged_outside latency_name df (latency_metrics df)"
proof -
  have 1: "unchanged_outside latency_name df
     (set_column ''response_time_ms'' (replicate (length (rows df)) (Fin 0)) df)"
    by (rule set_column_writes) (simp add: latency_name_def)
  have 2: "\<And>d xs. unchanged_outside latency_name d (foldl latency_metric d xs)"
    by (rule unchanged_outside_foldl) (rule latency_metric_frame)
  show ?thesis unfolding latency_metrics_def Let_def
    using 1 2 unchanged_outside_trans[OF 1 2] by (auto intro: unchanged_outside_refl)
qed

lemma rolling_stat_frame: "unchanged_outside (rolling_name col) df (rolling_stat df col)"
  unfolding rolling_stat_def Let_def
  by (auto intro!: unchanged_outside_refl
      intro: unchanged_outside_trans[OF set_column_writes
               unchanged_outside_trans[OF set_column_writes set_column_writes]]
      simp: rolling_name_def)

lemma interval_stability_frame:
  "unchanged_outside (prefix ''interval_stability_'') df (interval_stability df sensor_id)"
proof -
  have "\<And>d xs. unchanged_outside (prefix ''interval_stability_'') d
           (foldl (interval_stability_phase sensor_id) d xs)"
    by (rule unchanged_outside_foldl)
       (simp add: interval_stability_phase_def Let_def unchanged_outside_refl loc_set_writes)
  then show ?thesis by (simp add: interval_stability_def unchanged_outside_refl)
qed

lemma cumulative_failure_frame:
  "unchanged_outside (prefix ''cumulative_failures_'') df (cumulative_failure df col)"
  by (simp add: cumulative_failure_def Let_def unchanged_outside_refl set_column_writes)

subsection \<open>The latency buckets leave the other columns alone\<close>

lemma bucket_bounds_of_ok:
  "list_all (\<lambda>kv. fst kv = ''inf'' \<or> to_float (fst kv) \<noteq> None) buckets \<Longrightarrow>
   \<exists>bb. bucket_bounds_of to_float buckets acc = Inr bb"
  by (induction to_float buckets acc rule: bucket_bounds_of.induct) auto

lemma endpoint_estimates_ok:
  "list_all (\<lambda>eb. list_all (\<lambda>kv. fst kv = ''inf'' \<or> to_float (fst kv) \<noteq> None) (snd eb)) endpoints \<Longrightarrow>
   \<exists>es. endpoint_estimates to_float sensor_id endpoints = Inr es
        \<and> list_all (\<lambda>ce. prefix ''latency_ms_'' (fst ce)) es"
proof (induction endpoints)
  case Nil
  show ?case by simp
next
  case (Cons eb endpoints)
  obtain endpoint buckets where eb: "eb = (endpoint, buckets)" by (cases eb)
  from Cons.prems eb obtain bb where bb: "bucket_bounds_of to_float buckets [] = Inr bb"
    using bucket_bounds_of_ok[of to_float buckets "[]"] by auto
  from Cons obtain es where es: "endpoint_estimates to_float sensor_id endpoints = Inr es"
    "list_all (\<lambda>ce. prefix ''latency_ms_'' (fst ce)) es" by auto
  show ?case using eb bb es by (simp add: latency_col_of_def)
qed

lemma sensor_estimates_ok:
  "bucket_ok to_float (Some d) \<Longrightarrow>
   \<exists>es. sensor_estimates to_float d = Inr es \<and> list_all (\<lambda>ce. prefix ''latency_ms_'' (fst ce)) es"
proof (induction d)
  case Nil
  show ?case by simp
next
  case (Cons se d)
  obtain sensor_id endpoints where se: "se = (sensor_id, endpoints)" by (cases se)
  from Cons.prems se obtain es where es: "endpoint_estimates to_float sensor_id endpoints = Inr es"
    "list_all (\<lambda>ce. prefix ''latency_ms_'' (fst ce)) es"
    using endpoint_estimates_ok[of to_float endpoints sensor_id] by (auto simp: bucket_ok_def)
  from Cons obtain es' where es': "sensor_estimates to_float d = Inr es'"
    "list_all (\<lambda>ce. prefix ''latency_ms_'' (fst ce)) es'" by (auto simp: bucket_ok_def)
  show ?case using se es es' by simp
qed

lemma same_cells_frame:
  assumes "columns df' = columns df"
      and "map index_label (rows df') = map index_label (rows df)"
      and "map timestamp (rows df') = map timestamp (rows df)"
      and "map phase (rows df') = map phase (rows df)"
      and "map vulnerability_type (rows df') = map vulnerability_type (rows df)"
      and "map cells (rows df') = map cells (rows df)"
  shows "unchanged_outside P df df'"
proof -
  have "column df' c = column df c" for c
  proof -
    have "column df' c = map (\<lambda>f. f c) (map cells (rows df'))" by (simp add: column_def comp_def)
    also have "\<dots> = column df c" by (simp add: assms(6) column_def comp_def)
    finally show ?thesis .
  qed
  then show ?thesis using assms(1-5) by (simp add: unchanged_outside_def)
qed

lemma new_flag_column_frame: "unchanged_outside P df (new_flag_column c df)"
  by (rule same_cells_frame) (simp_all add: new_flag_column_def comp_def)

lemma new_method_column_frame: "unchanged_outside P df (new_method_column c df)"
  by (rule same_cells_frame) (simp_all add: new_method_column_def comp_def)

lemma update_objects_frame:
  "unchanged_outside P df
     (df\<lparr>rows := map (\<lambda>r. if index_label r = idx then r\<lparr>flags := f r, methods := m r\<rparr> else r)
                     (rows df)\<rparr>)"
  by (rule same_cells_frame) (simp_all add: comp_def if_distrib cong: if_cong)

lemma write_estimate_frame:
  "unchanged_outside (\<lambda>x. x = fst ce) df (write_estimate idx df ce)"
  unfolding write_estimate_def Let_def
  by (rule unchanged_outside_trans[OF at_set_frame
        unchanged_outside_trans[OF new_flag_column_frame
          unchanged_outside_trans[OF new_method_column_frame update_objects_frame]]])

lemma foldl_write_estimate:
  "list_all (\<lambda>ce. prefix ''latency_ms_'' (fst ce)) es \<Longrightarrow>
   unchanged_outside (prefix ''latency_ms_'') df (foldl (write_estimate idx) df es)"
proof (induction es arbitrary: df)
  case Nil
  show ?case by (simp add: unchanged_outside_refl)
next
  case (Cons ce es)
  have 1: "unchanged_outside (prefix ''latency_ms_'') df (write_estimate idx df ce)"
    by (rule unchanged_outside_mono[OF write_estimate_frame]) (use Cons.prems in simp)
  have 2: "unchanged_outside (prefix ''latency_ms_'') (write_estimate idx df ce)
             (foldl (write_estimate idx) (write_estimate idx df ce) es)"
    using Cons.IH[of "write_estimate idx df ce"] Cons.prems by simp
  show ?case using unchanged_outside_trans[OF 1 2] by simp
qed

lemma process_rows_ok:
  "list_all (bucket_ok to_float) (map snd its) \<Longrightarrow>
   \<exists>df'. process_rows to_float its df = Inr df'
        \<and> unchanged_outside (prefix ''latency_ms_'') df df'"
proof (induction its arbitrary: df)
  case Nil
  show ?case by (simp add: unchanged_outside_refl)
next
  case (Cons it its)
  obtain idx b where it: "it = (idx, b)" by (cases it)
  show ?case
  proof (cases b)
    case None
    then show ?thesis using Cons it by simp
  next
    case (Some d)
    with Cons.prems it have "bucket_ok to_float (Some d)" by simp
    from sensor_estimates_ok[OF this] obtain es where es: "sensor_estimates to_float d = Inr es"
      "list_all (\<lambda>ce. prefix ''latency_ms_'' (fst ce)) es" by blast
    let ?d = "foldl (write_estimate idx) df es"
    have w: "unchanged_outside (prefix ''latency_ms_'') df ?d"
      by (rule foldl_write_estimate[OF es(2)])
    from Cons.IH[of ?d] Cons.prems obtain df' where
      df': "process_rows to_float its ?d = Inr df'" "unchanged_outside (prefix ''latency_ms_'') ?d df'"
      by auto
    show ?thesis using it Some es(1) df'(1) unchanged_outside_trans[OF w df'(2)] by simp
  qed
qed

lemma methods_astype_str_frame: "unchanged_outside P df (methods_astype_str df)"
  by (rule same_cells_frame) (simp_all add: methods_astype_str_def comp_def)

lemma drop_bucket_frame: "unchanged_outside P df (drop_bucket df)"
  by (rule same_cells_frame) (simp_all add: drop_bucket_def comp_def)

lemma calculate_derived_metrics_ok:
  assumes "labels_convert to_float df" and "rows df \<noteq> []"
  shows "\<exists>df1. calculate_derived_metrics to_float df = derive_columns df1
            \<and> unchanged_outside (prefix ''latency_ms_'') df df1"
proof (cases "bucket_column df")
  case False
  then show ?thesis using assms(2) by (auto simp: calculate_derived_metrics_def unchanged_outside_refl)
next
  case True
  have "list_all (bucket_ok to_float) (map snd (iterrows df))"
    using assms(1) by (simp add: labels_convert_def iterrows_def comp_def)
  from process_rows_ok[OF this, of df]
  obtain df' where df': "process_rows to_float (iterrows df) df = Inr df'"
    "unchanged_outside (prefix ''latency_ms_'') df df'"
    by blast
  let ?df1 = "drop_bucket (methods_astype_str df')"
  have "unchanged_outside (prefix ''latency_ms_'') df ?df1"
    by (rule unchanged_outside_trans[OF df'(2)
          unchanged_outside_trans[OF methods_astype_str_frame drop_bucket_frame]])
  moreover have "calculate_derived_metrics to_float df = derive_columns ?df1"
    using True assms(2) df'(1) by (simp add: calculate_derived_metrics_def process_latency_buckets_def)
  ultimately show ?thesis by blast
qed

subsection \<open>The steps of the derived metrics\<close>

lemma rolling_stats_frame:
  assumes "\<forall>col\<in>set cols. prefix ''temperature_'' col"
  shows "unchanged_outside (prefix ''temperature_'') df (foldl rolling_stat df cols)"
proof (rule unchanged_outside_foldl)
  fix d col assume "col \<in> set cols"
  then have p: "prefix ''temperature_'' col" using assms by blast
  show "unchanged_outside (prefix ''temperature_'') d (rolling_stat d col)"
    by (rule unchanged_outside_mono[OF rolling_stat_frame])
       (use p in \<open>auto simp: rolling_name_def intro: prefix_prefix\<close>)
qed

lemma derive_columns_chain:
  fixes df :: dataframe
  assumes distinct_labels: "labels_distinct_in_phase df"
  defines "cols \<equiv> filter (prefix ''temperature_'') (columns df)"
  obtains df2 df3 df4 df5 df6 df7 res where
    "df2 = foldl temperature_deviation df cols"
    "unchanged_outside deviation_name df df2"
    "foldl_result reporting_interval df2 cols = Inr df3"
    "unchanged_outside (prefix ''reporting_interval_'') df2 df3"
    "df4 = network_rates df3"
    "unchanged_outside rate_name df3 df4"
    "df5 = latency_metrics df4"
    "unchanged_outside latency_name df4 df5"
    "df6 = foldl rolling_stat df5 cols"
    "unchanged_outside (prefix ''temperature_'') df5 df6"
    "unchanged_outside (prefix ''interval_stability_'') df6 df7"
    "derive_columns df = Inr res"
    "unchanged_outside (prefix ''cumulative_failures_'') df7 res"
proof -
  define df2 where "df2 = foldl temperature_deviation df cols"
  have 2: "unchanged_outside deviation_name df df2"
    unfolding df2_def by (rule unchanged_outside_foldl) (rule temperature_deviation_frame)
  have "labels_distinct_in_phase df2" by (rule labels_distinct_unchanged[OF 2 distinct_labels])
  with foldl_result_ok[of cols reporting_interval "prefix ''reporting_interval_''" df2]
  obtain df3 where d3: "foldl_result reporting_interval df2 cols = Inr df3"
    and 3: "unchanged_outside (prefix ''reporting_interval_'') df2 df3"
    using reporting_interval_frame by blast
  define df4 where "df4 = network_rates df3"
  define df5 where "df5 = latency_metrics df4"
  define df6 where "df6 = foldl rolling_stat df5 cols"
  define df7 where "df7 = foldl interval_stability df6 (remdups (map (\<lambda>col. split_max 1 col ! 1) cols))"
  define res where "res = foldl cumulative_failure df7 (filter (prefix ''failed_'') (columns df7))"
  have d: "derive_columns df = Inr res"
    unfolding derive_columns_def Let_def cols_def[symmetric] df2_def[symmetric]
    by (simp add: d3 res_def df7_def df6_def df5_def df4_def)
  have 4: "unchanged_outside rate_name df3 df4"
    unfolding df4_def by (rule network_rates_frame)
  have 5: "unchanged_outside latency_name df4 df5"
    unfolding df5_def by (rule latency_metrics_frame)
  have 6: "unchanged_outside (prefix ''temperature_'') df5 df6"
    unfolding df6_def by (rule rolling_stats_frame) (simp add: cols_def)
  have 7: "unchanged_outside (prefix ''interval_stability_'') df6 df7"
    unfolding df7_def by (rule unchanged_outside_foldl) (rule interval_stability_frame)
  have 8: "unchanged_outside (prefix ''cumulative_failures_'') df7 res"
    unfolding res_def by (rule unchanged_outside_foldl) (rule cumulative_failure_frame)
  show thesis
    by (rule that[OF df2_def 2 d3 3 df4_def 4 df5_def 5 df6_def 6 7 d 8])
qed

subsection \<open>The aggregated response time\<close>

lemma cells_nth: "i < length (rows d) \<Longrightarrow> cells (rows d ! i) c = column d c ! i"
  by (simp add: column_def)

lemma latency_metric_nan_row:
  assumes "\<not> prefix ''latency_ms_'' col" and "i < length (rows d)"
      and "isnan (cells (rows d ! i) col)"
  shows "cells (rows (latency_metric d col) ! i) ''response_time_ms'' =
         cells (rows d ! i) ''response_time_ms''"
proof (cases "3 \<le> length (split_max 2 col)")
  case False
  then show ?thesis by (simp add: latency_metric_def Let_def)
next
  case True
  define ms_col where "ms_col = ''latency_ms_'' @ split_max 2 col ! 1 @ ''_'' @ split_max 2 col ! 2"
  define d1 where "d1 = (if ms_col \<notin> set (columns d)
                    then set_column ms_col (map (\<lambda>x. fmul x (Fin 1000)) (column d col)) d
                    else d)"
  have "prefix ''latency_ms_'' ms_col" by (simp add: ms_col_def)
  then have ms: "ms_col \<noteq> ''response_time_ms''" "ms_col \<noteq> col"
    using assms(1) by auto
  have f: "unchanged_outside (\<lambda>x. x = ms_col) d d1"
    unfolding d1_def by (simp add: set_column_frame unchanged_outside_refl)
  have len: "length (rows d1) = length (rows d)" by (rule unchanged_outside_length[OF f])
  have c: "column d1 ''response_time_ms'' = column d ''response_time_ms''" "column d1 col = column d col"
    using unchanged_outside_column[OF f] ms by auto
  have r: "cells (rows d1 ! i) ''response_time_ms'' = cells (rows d ! i) ''response_time_ms''"
    "cells (rows d1 ! i) col = cells (rows d ! i) col"
    using c assms(2) len by (simp_all add: cells_nth)
  have "latency_metric d col = d1\<lparr>rows := map (add_response_time col) (rows d1)\<rparr>"
    using True unfolding latency_metric_def Let_def d1_def ms_col_def by simp
  then have "cells (rows (latency_metric d col) ! i) ''response_time_ms'' =
             cells (add_response_time col (rows d1 ! i)) ''response_time_ms''"
    using assms(2) len by simp
  also have "\<dots> = cells (rows d1 ! i) ''response_time_ms''"
    using assms(3) r(2) by (simp add: add_response_time_def)
  finally show ?thesis using r(1) by simp
qed

lemma raw_not_latency_name: "raw_latency_name c \<Longrightarrow> \<not> latency_name c"
  by (auto simp: raw_latency_name_def latency_name_def)

lemma foldl_latency_metric_nan_row:
  assumes "\<forall>col\<in>set cols. raw_latency_name col" and "i < length (rows d)"
      and "\<forall>col\<in>set cols. isnan (cells (rows d ! i) col)"
  shows "cells (rows (foldl latency_metric d cols) ! i) ''response_time_ms'' =
         cells (rows d ! i) ''response_time_ms''"
  using assms
proof (induction cols arbitrary: d)
  case Nil
  show ?case by simp
next
  case (Cons col cols)
  let ?d = "latency_metric d col"
  have f: "unchanged_outside latency_name d ?d" by (rule latency_metric_frame)
  have len: "length (rows ?d) = length (rows d)" by (rule unchanged_outside_length[OF f])
  have keep: "cells (rows ?d ! i) c = cells (rows d ! i) c" if "c \<in> set cols" for c
  proof -
    have "\<not> latency_name c" using Cons.prems(1) that raw_not_latency_name by simp
    then have "column ?d c = column d c" by (rule unchanged_outside_column[OF f])
    then show ?thesis using Cons.prems(2) len by (simp add: cells_nth)
  qed
  have 1: "cells (rows ?d ! i) ''response_time_ms'' = cells (rows d ! i) ''response_time_ms''"
    by (rule latency_metric_nan_row)
       (use Cons.prems in \<open>simp_all add: raw_latency_name_def\<close>)
  have "cells (rows (foldl latency_metric ?d cols) ! i) ''response_time_ms'' =
        cells (rows ?d ! i) ''response_time_ms''"
  proof (rule Cons.IH)
    show "\<forall>col\<in>set cols. raw_latency_name col" using Cons.prems(1) by simp
    show "i < length (rows ?d)" using Cons.prems(2) len by simp
    show "\<forall>col\<in>set cols. isnan (cells (rows ?d ! i) col)" using Cons.prems(3) keep by simp
  qed
  with 1 show ?case by simp
qed

lemma latency_metrics_nan_row:
  assumes "''response_time_ms'' \<notin> set (columns d)"
      and "\<exists>c\<in>set (columns d). raw_latency_name c"
      and "i < length (rows d)"
      and "\<forall>c\<in>set (columns d). raw_latency_name c \<longrightarrow> isnan (cells (rows d ! i) c)"
  shows "''response_time_ms'' \<in> set (columns (latency_metrics d))
       \<and> cells (rows (latency_metrics d) ! i) ''response_time_ms'' = Fin 0"
proof -
  define cols where "cols = filter raw_latency_name (columns d)"
  define d0 where "d0 = set_column ''response_time_ms'' (replicate (length (rows d)) (Fin 0)) d"
  have ne: "cols \<noteq> []" using assms(2) by (auto simp: cols_def filter_empty_conv)
  have lm: "latency_metrics d = foldl latency_metric d0 cols"
    using ne assms(1) unfolding latency_metrics_def Let_def cols_def d0_def
    by (simp add: raw_latency_name_def[abs_def])
  have f0: "unchanged_outside (\<lambda>x. x = ''response_time_ms'') d d0"
    unfolding d0_def by (rule set_column_frame)
  have len0: "length (rows d0) = length (rows d)" by (rule unchanged_outside_length[OF f0])
  have rt0: "column d0 ''response_time_ms'' = replicate (length (rows d)) (Fin 0)"
    unfolding d0_def by (rule column_set_column) simp
  have in0: "''response_time_ms'' \<in> set (columns d0)" by (simp add: d0_def set_column_def add_name_def)
  have raw0: "cells (rows d0 ! i) c = cells (rows d ! i) c" if "raw_latency_name c" for c
  proof -
    have "c \<noteq> ''response_time_ms''" using that by (auto simp: raw_latency_name_def)
    then have "column d0 c = column d c" using unchanged_outside_column[OF f0] by simp
    then show ?thesis using assms(3) len0 by (simp add: cells_nth)
  qed
  have "cells (rows (foldl latency_metric d0 cols) ! i) ''response_time_ms'' =
        cells (rows d0 ! i) ''response_time_ms''"
  proof (rule foldl_latency_metric_nan_row)
    show "\<forall>col\<in>set cols. raw_latency_name col" by (simp add: cols_def)
    show "i < length (rows d0)" using assms(3) len0 by simp
    show "\<forall>col\<in>set cols. isnan (cells (rows d0 ! i) col)"
      using assms(4) raw0 by (simp add: cols_def)
  qed
  also have "\<dots> = Fin 0" using rt0 assms(3) len0 by (simp add: cells_nth)
  finally have v: "cells (rows (latency_metrics d) ! i) ''response_time_ms'' = Fin 0"
    by (simp add: lm)
  have "unchanged_outside latency_name d0 (foldl latency_metric d0 cols)"
    by (rule unchanged_outside_foldl) (rule latency_metric_frame)
  then have "''response_time_ms'' \<in> set (columns (latency_metrics d))"
    using in0 unfolding lm unchanged_outside_def by auto
  with v show ?thesis by simp
qed

lemma prefix_heads: "prefix (x # xs) c \<Longrightarrow> prefix (y # ys) c \<Longrightarrow> x = y"
  by (cases c) auto

text \<open>
  C10: for a non-empty table as the flattener builds it (no \<^verbatim>\<open>response_time_ms\<close> column
  yet, bucket labels that convert to floats) with at least one raw latency column, the
  derived metrics are computed without an exception, the result has a
  \<^verbatim>\<open>response_time_ms\<close> column over the same rows, and every row whose raw latency cells are
  all missing has \<^verbatim>\<open>response_time_ms = 0.0\<close>. The table is one in which no index label
  repeats within a phase: a table with a unique index, or one that \<^verbatim>\<open>process_dataset\<close>
  puts together from one frame per phase (on any other table that has a temperature
  column, the write of the reporting intervals raises before the latency columns are
  reached).
\<close>

theorem C10_response_time_zero_without_latency:
  assumes "labels_convert to_float df" and "rows df \<noteq> []"
      and "\<exists>c\<in>set (columns df). raw_latency_name c"
      and "''response_time_ms'' \<notin> set (columns df)"
      and "labels_distinct_in_phase df"
  shows "\<exists>df'. calculate_derived_metrics to_float df = Inr df'
          \<and> ''response_time_ms'' \<in> set (columns df')
          \<and> length (rows df') = length (rows df)
          \<and> (\<forall>i<length (rows df).
                (\<forall>c\<in>set (columns df). raw_latency_name c \<longrightarrow> isnan (cells (rows df ! i) c)) \<longrightarrow>
                cells (rows df' ! i) ''response_time_ms'' = Fin 0)"
proof -
  from calculate_derived_metrics_ok[OF assms(1,2)] obtain df1 where
    res1: "calculate_derived_metrics to_float df = derive_columns df1"
    and f1: "unchanged_outside (prefix ''latency_ms_'') df df1" by blast
  have ld1: "labels_distinct_in_phase df1"
    by (rule labels_distinct_unchanged[OF f1 assms(5)])
  obtain df2 df3 df4 df5 df6 df7 out where
    f2: "unchanged_outside deviation_name df1 df2"
    and f3: "unchanged_outside (prefix ''reporting_interval_'') df2 df3"
    and f4: "unchanged_outside rate_name df3 df4"
    and d5: "df5 = latency_metrics df4"
    and f6: "unchanged_outside (prefix ''temperature_'') df5 df6"
    and f7: "unchanged_outside (prefix ''interval_stability_'') df6 df7"
    and d8: "derive_columns df1 = Inr out"
    and f8: "unchanged_outside (prefix ''cumulative_failures_'') df7 out"
    by (rule derive_columns_chain[OF ld1]) blast
  have res: "calculate_derived_metrics to_float df = Inr out" by (simp only: res1 d8)
  define before where "before = (\<lambda>c. prefix ''latency_ms_'' c \<or> deviation_name c
      \<or> prefix ''reporting_interval_'' c \<or> rate_name c)"
  define after where "after = (\<lambda>c. prefix ''temperature_'' c \<or> prefix ''interval_stability_'' c
      \<or> prefix ''cumulative_failures_'' c)"
  have fb: "unchanged_outside before df df4"
    by (rule unchanged_outside_trans[OF unchanged_outside_mono[OF f1]
          unchanged_outside_trans[OF unchanged_outside_mono[OF f2]
            unchanged_outside_trans[OF unchanged_outside_mono[OF f3]
              unchanged_outside_mono[OF f4]]]])
       (simp_all add: before_def)
  have fa: "unchanged_outside after df5 out"
    by (rule unchanged_outside_trans[OF unchanged_outside_mono[OF f6]
          unchanged_outside_trans[OF unchanged_outside_mono[OF f7]
            unchanged_outside_mono[OF f8]]])
       (simp_all add: after_def)
  have nb: "\<not> before ''response_time_ms''"
    by (simp add: before_def deviation_name_def rate_name_def)
  have na: "\<not> after ''response_time_ms''" by (simp add: after_def)
  have raw_nb: "\<not> before c" if "raw_latency_name c" for c
    using that by (auto simp: before_def deviation_name_def rate_name_def raw_latency_name_def
        dest: prefix_heads)
  have len4: "length (rows df4) = length (rows df)" by (rule unchanged_outside_length[OF fb])
  have len5: "length (rows df5) = length (rows df4)"
    unfolding d5 by (rule unchanged_outside_length[OF latency_metrics_frame])
  have len: "length (rows out) = length (rows df)"
    using unchanged_outside_length[OF fa] len5 len4 by simp
  have rt4: "''response_time_ms'' \<notin> set (columns df4)"
    using unchanged_outside_member[OF fb nb] assms(4) by simp
  have mem4: "c \<in> set (columns df4) \<longleftrightarrow> c \<in> set (columns df)" if "raw_latency_name c" for c
    by (rule unchanged_outside_member[OF fb raw_nb[OF that]])
  have ex4: "\<exists>c\<in>set (columns df4). raw_latency_name c" using assms(3) mem4 by blast
  have col4: "column df4 c = column df c" if "raw_latency_name c" for c
    by (rule unchanged_outside_column[OF fb raw_nb[OF that]])
  have in5: "''response_time_ms'' \<in> set (columns df5)"
  proof -
    from assms(2) have "0 < length (rows df4)" using len4 by simp
    moreover have "\<forall>c\<in>set (columns df4). raw_latency_name c \<longrightarrow> True" by simp
    from ex4 obtain c where c: "c \<in> set (columns df4)" "raw_latency_name c" by blast
    define cols where "cols = filter raw_latency_name (columns df4)"
    have ne: "cols \<noteq> []" using c by (auto simp: cols_def filter_empty_conv)
    define d0 where "d0 = set_column ''response_time_ms'' (replicate (length (rows df4)) (Fin 0)) df4"
    have lm: "df5 = foldl latency_metric d0 cols"
      using ne rt4 unfolding d5 latency_metrics_def Let_def cols_def d0_def
      by (simp add: raw_latency_name_def[abs_def])
    have "''response_time_ms'' \<in> set (columns d0)" by (simp add: d0_def set_column_def add_name_def)
    moreover have "unchanged_outside latency_name d0 (foldl latency_metric d0 cols)"
      by (rule unchanged_outside_foldl) (rule latency_metric_frame)
    ultimately show ?thesis unfolding lm unchanged_outside_def by auto
  qed
  have in_res: "''response_time_ms'' \<in> set (columns out)"
    using unchanged_outside_member[OF fa na] in5 by simp
  have rows_ok: "cells (rows out ! i) ''response_time_ms'' = Fin 0"
    if i: "i < length (rows df)"
      and nan: "\<forall>c\<in>set (columns df). raw_latency_name c \<longrightarrow> isnan (cells (rows df ! i) c)" for i
  proof -
    have i4: "i < length (rows df4)" using i len4 by simp
    have nan4: "\<forall>c\<in>set (columns df4). raw_latency_name c \<longrightarrow> isnan (cells (rows df4 ! i) c)"
    proof (intro ballI impI)
      fix c assume c: "c \<in> set (columns df4)" "raw_latency_name c"
      then have "c \<in> set (columns df)" using mem4 by simp
      with nan c(2) have "isnan (cells (rows df ! i) c)" by simp
      then show "isnan (cells (rows df4 ! i) c)"
        using col4[OF c(2)] i i4 by (simp add: cells_nth)
    qed
    from latency_metrics_nan_row[OF rt4 ex4 i4 nan4]
    have "cells (rows df5 ! i) ''response_time_ms'' = Fin 0" by (simp add: d5)
    moreover have "column out ''response_time_ms'' = column df5 ''response_time_ms''"
      by (rule unchanged_outside_column[OF fa na])
    ultimately show ?thesis using i len len5 len4 by (simp add: cells_nth)
  qed
  show ?thesis using res in_res len rows_ok by blast
qed

theorem C10_response_time_zero_without_latency_witness:
  "\<exists>df'. calculate_derived_metrics (\<lambda>s. if s = ''0.5'' then Some (Fin (1 / 2)) else None)
       \<lparr>columns = [''latency_x_A'', ''cpu_A''], flag_columns = [], method_columns = [],
        bucket_column = True,
        rows = [\<lparr>index_label = 0, timestamp = Fin 0, human_time = [], phase = ''baseline'',
                 vulnerability_type = ''bola'',
                 bucket = Some [(''A'', [(''x'', [(''0.5'', Fin 2), (''inf'', Fin 2)])])],
                 cells = (\<lambda>c. NaN)(''latency_x_A'' := Fin 2, ''cpu_A'' := Fin 10),
                 flags = (\<lambda>c. None), methods = (\<lambda>c. MNaN)\<rparr>,
                \<lparr>index_label = 1, timestamp = Fin 5, human_time = [], phase = ''baseline'',
                 vulnerability_type = ''bola'', bucket = None,
                 cells = (\<lambda>c. NaN)(''cpu_A'' := Fin 10),
                 flags = (\<lambda>c. None), methods = (\<lambda>c. MNaN)\<rparr>]\<rparr> = Inr df'
     \<and> ''response_time_ms'' \<in> set (columns df')
     \<and> cells (rows df' ! 1) ''response_time_ms'' = Fin 0"
proof -
  let ?f = "(\<lambda>s. if s = ''0.5'' then Some (Fin (1 / 2)) else None)"
  let ?T = "\<lparr>columns = [''latency_x_A'', ''cpu_A''], flag_columns = [], method_columns = [],
        bucket_column = True,
        rows = [\<lparr>index_label = 0, timestamp = Fin 0, human_time = [], phase = ''baseline'',
                 vulnerability_type = ''bola'',
                 bucket = Some [(''A'', [(''x'', [(''0.5'', Fin 2), (''inf'', Fin 2)])])],
                 cells = (\<lambda>c. NaN)(''latency_x_A'' := Fin 2, ''cpu_A'' := Fin 10),
                 flags = (\<lambda>c. None), methods = (\<lambda>c. MNaN)\<rparr>,
                \<lparr>index_label = 1, timestamp = Fin 5, human_time = [], phase = ''baseline'',
                 vulnerability_type = ''bola'', bucket = None,
                 cells = (\<lambda>c. NaN)(''cpu_A'' := Fin 10),
                 flags = (\<lambda>c. None), methods = (\<lambda>c. MNaN)\<rparr>]\<rparr>"
  have h1: "labels_convert ?f ?T" by (simp add: labels_convert_def bucket_ok_def)
  have h2: "rows ?T \<noteq> []" by simp
  have h3: "\<exists>c\<in>set (columns ?T). raw_latency_name c" by (simp add: raw_latency_name_def)
  have h4: "''response_time_ms'' \<notin> set (columns ?T)" by simp
  have h5: "labels_distinct_in_phase ?T" by (simp add: labels_distinct_in_phase_def)
  have row: "\<forall>c\<in>set (columns ?T). raw_latency_name c \<longrightarrow> isnan (cells (rows ?T ! 1) c)"
    by (simp add: raw_latency_name_def)
  from C10_response_time_zero_without_latency[OF h1 h2 h3 h4 h5] obtain df' where
    r: "calculate_derived_metrics ?f ?T = Inr df'" "''response_time_ms'' \<in> set (columns df')"
    and all: "\<forall>i<length (rows ?T).
                (\<forall>c\<in>set (columns ?T). raw_latency_name c \<longrightarrow> isnan (cells (rows ?T ! i) c)) \<longrightarrow>
                cells (rows df' ! i) ''response_time_ms'' = Fin 0"
    by blast
  have "1 < length (rows ?T)" by simp
  with all row have "cells (rows df' ! 1) ''response_time_ms'' = Fin 0" by blast
  with r show ?thesis by blast
qed

subsection \<open>The rolling z-score of a constant column\<close>

lemma foldl_fadd_replicate: "foldl fadd (Fin a) (replicate m (Fin v)) = Fin (a + real m * v)"
  by (induction m arbitrary: a) (simp_all add: algebra_simps)

lemma fsum_replicate: "fsum (replicate m (Fin v)) = Fin (real m * v)"
  by (simp add: fsum_def foldl_fadd_replicate)

lemma sample_std_replicate:
  assumes "2 \<le> m"
  shows "sample_std (replicate m (Fin v)) = Fin 0"
proof -
  have m: "real m \<noteq> 0" "real (m - 1) \<noteq> 0" using assms by simp_all
  have mean: "fdiv (fsum (replicate m (Fin v))) (Fin (real (length (replicate m (Fin v))))) = Fin v"
    using m(1) by (simp add: fsum_replicate)
  have "map (\<lambda>x. fmul (fsub x (Fin v)) (fsub x (Fin v))) (replicate m (Fin v)) = replicate m (Fin 0)"
    by (simp add: fsub_def)
  then show ?thesis
    unfolding sample_std_def Let_def mean using m(2) by (simp add: fsum_replicate)
qed

lemma window_replicate: "\<exists>m. window w i (replicate n x) = replicate m x"
  unfolding window_def by (metis drop_replicate take_replicate)

lemma rolling_std_replicate:
  "s \<in> set (rolling_std w k (replicate n (Fin v))) \<Longrightarrow> s = NaN \<or> s = Fin 0"
proof -
  assume "s \<in> set (rolling_std w k (replicate n (Fin v)))"
  then obtain i where s: "s = (let obs = dropna (window w i (replicate n (Fin v)))
               in if k \<le> length obs \<and> 2 \<le> length obs then sample_std obs else NaN)"
    unfolding rolling_std_def by auto
  obtain m where m: "window w i (replicate n (Fin v)) = replicate m (Fin v)"
    using window_replicate by blast
  have "dropna (replicate m (Fin v)) = replicate m (Fin v)" by (simp add: dropna_def)
  with s m show ?thesis by (simp add: sample_std_replicate)
qed

lemma length_rolling: "length (rolling_std w k xs) = length xs" "length (rolling_mean w k xs) = length xs"
  by (simp_all add: rolling_std_def rolling_mean_def)

lemma zscore_nan:
  assumes "length ms = length xs" and "length ss = length xs"
      and "\<forall>s\<in>set ss. s = NaN \<or> s = Fin 0"
  shows "zscore xs ms ss = replicate (length xs) NaN"
proof -
  have "z = NaN" if "z \<in> set (zscore xs ms ss)" for z
  proof -
    from that obtain x m s where "s \<in> set ss" "z = fabs (fdiv (fsub x m) (replace_zero s))"
      unfolding zscore_def by (auto dest!: set_zip_rightD)
    moreover from this assms(3) have "replace_zero s = NaN" by (auto simp: replace_zero_def)
    moreover have "fdiv a NaN = NaN" for a by (cases a) simp_all
    ultimately show ?thesis by simp
  qed
  moreover have "length (zscore xs ms ss) = length xs" using assms by (simp add: zscore_def)
  ultimately show ?thesis by (metis replicate_eqI)
qed

lemma append_neq_self: "ys \<noteq> [] \<Longrightarrow> xs @ ys \<noteq> xs"
  by simp

lemma rolling_stat_constant:
  assumes "column d col = replicate (length (rows d)) (Fin v)" and "5 \<le> length (rows d)"
  shows "column (rolling_stat d col) (col @ ''_zscore'') = replicate (length (rows d)) NaN"
    and "col @ ''_zscore'' \<in> set (columns (rolling_stat d col))"
proof -
  define d1 where "d1 = set_column (col @ ''_roll_mean'') (rolling_mean 5 1 (column d col)) d"
  define d2 where "d2 = set_column (col @ ''_roll_std'') (rolling_std 5 1 (column d1 col)) d1"
  define zs where "zs = zscore (column d2 col) (column d2 (col @ ''_roll_mean''))
                      (column d2 (col @ ''_roll_std''))"
  have r: "rolling_stat d col = set_column (col @ ''_zscore'') zs d2"
    using assms(2) unfolding rolling_stat_def Let_def d1_def d2_def zs_def by simp
  have f1: "unchanged_outside (\<lambda>x. x = col @ ''_roll_mean'') d d1"
    unfolding d1_def by (rule set_column_frame)
  have f2: "unchanged_outside (\<lambda>x. x = col @ ''_roll_std'') d1 d2"
    unfolding d2_def by (rule set_column_frame)
  have len: "length (rows d1) = length (rows d)" "length (rows d2) = length (rows d)"
    using unchanged_outside_length[OF f1] unchanged_outside_length[OF f2] by simp_all
  have lc: "length (column x c) = length (rows x)" for x c by (simp add: column_def)
  have c1: "column d1 col = column d col"
    by (rule unchanged_outside_column[OF f1]) simp
  have c2: "column d2 col = column d col"
    using unchanged_outside_column[OF f2, of col] c1 by simp
  have s2: "column d2 (col @ ''_roll_std'') = rolling_std 5 1 (column d col)"
    unfolding d2_def c1[symmetric]
    by (rule column_set_column) (simp add: length_rolling lc)
  have "zs = replicate (length (column d2 col)) NaN"
    unfolding zs_def
  proof (rule zscore_nan)
    show "length (column d2 (col @ ''_roll_mean'')) = length (column d2 col)" by (simp add: lc)
    show "length (column d2 (col @ ''_roll_std'')) = length (column d2 col)" by (simp add: lc)
    show "\<forall>s\<in>set (column d2 (col @ ''_roll_std'')). s = NaN \<or> s = Fin 0"
      unfolding s2 assms(1) using rolling_std_replicate by blast
  qed
  then have zs: "zs = replicate (length (rows d)) NaN" by (simp add: lc len)
  show "column (rolling_stat d col) (col @ ''_zscore'') = replicate (length (rows d)) NaN"
    unfolding r zs by (rule column_set_column) (simp add: len)
  show "col @ ''_zscore'' \<in> set (columns (rolling_stat d col))"
    unfolding r by (simp add: set_column_def add_name_def)
qed

lemma rolling_name_zscore: "rolling_name y (col @ ''_zscore'') \<longleftrightarrow> y = col"
proof -
  have a: "y @ ''_roll_mean'' \<noteq> col @ ''_zscore''"
  proof
    assume "y @ ''_roll_mean'' = col @ ''_zscore''"
    then have "last (y @ ''_roll_mean'') = last (col @ ''_zscore'')" by simp
    then show False by simp
  qed
  have b: "y @ ''_roll_std'' \<noteq> col @ ''_zscore''"
  proof
    assume "y @ ''_roll_std'' = col @ ''_zscore''"
    then have "last (y @ ''_roll_std'') = last (col @ ''_zscore'')" by simp
    then show False by simp
  qed
  show ?thesis using a b by (auto simp: rolling_name_def)
qed

lemma foldl_rolling_constant:
  assumes "\<forall>y\<in>set cols. \<not> rolling_name y col"
      and "column d col = replicate (length (rows d)) (Fin v)" and "5 \<le> length (rows d)"
      and "col \<in> set cols \<or>
           (column d (col @ ''_zscore'') = replicate (length (rows d)) NaN
            \<and> col @ ''_zscore'' \<in> set (columns d))"
  shows "column (foldl rolling_stat d cols) (col @ ''_zscore'') = replicate (length (rows d)) NaN
       \<and> col @ ''_zscore'' \<in> set (columns (foldl rolling_stat d cols))"
  using assms
proof (induction cols arbitrary: d)
  case Nil
  then show ?case by simp
next
  case (Cons y cols)
  let ?d = "rolling_stat d y"
  have f: "unchanged_outside (rolling_name y) d ?d" by (rule rolling_stat_frame)
  have len: "length (rows ?d) = length (rows d)" by (rule unchanged_outside_length[OF f])
  have keep: "column ?d col = replicate (length (rows ?d)) (Fin v)"
    using unchanged_outside_column[OF f, of col] Cons.prems(1,2) len by simp
  have settled: "column ?d (col @ ''_zscore'') = replicate (length (rows ?d)) NaN
            \<and> col @ ''_zscore'' \<in> set (columns ?d)"
    if "y = col \<or> (column d (col @ ''_zscore'') = replicate (length (rows d)) NaN
            \<and> col @ ''_zscore'' \<in> set (columns d))"
  proof (cases "y = col")
    case True
    then show ?thesis using rolling_stat_constant[OF Cons.prems(2,3)] len by simp
  next
    case False
    then have n: "\<not> rolling_name y (col @ ''_zscore'')" by (simp add: rolling_name_zscore)
    from False that have old: "column d (col @ ''_zscore'') = replicate (length (rows d)) NaN"
      "col @ ''_zscore'' \<in> set (columns d)" by simp_all
    show ?thesis
      using unchanged_outside_column[OF f n] unchanged_outside_member[OF f n] old len by simp
  qed
  have "column (foldl rolling_stat ?d cols) (col @ ''_zscore'') = replicate (length (rows ?d)) NaN
       \<and> col @ ''_zscore'' \<in> set (columns (foldl rolling_stat ?d cols))"
  proof (rule Cons.IH)
    show "\<forall>y\<in>set cols. \<not> rolling_name y col" using Cons.prems(1) by simp
    show "column ?d col = replicate (length (rows ?d)) (Fin v)" by (rule keep)
    show "5 \<le> length (rows ?d)" using Cons.prems(3) len by simp
    show "col \<in> set cols \<or>
           (column ?d (col @ ''_zscore'') = replicate (length (rows ?d)) NaN
            \<and> col @ ''_zscore'' \<in> set (columns ?d))"
      using Cons.prems(4) settled by auto
  qed
  then show ?case using len by simp
qed

text \<open>
  C8: for a table of at least five rows whose bucket labels convert, and a sensor
  temperature column of it that holds one finite value in every row (and is not itself
  named like the rolling column of another temperature column of the table), the derived
  metrics are computed without an exception and the z-score column of that sensor is NaN
  in every row: the rolling standard deviation of a constant column is NaN on the first row
  and 0 afterwards, and the source replaces 0 by NaN before dividing. The table is one in
  which no index label repeats within a phase: a table with a unique index, or one that
  \<^verbatim>\<open>process_dataset\<close> puts together from one frame per phase (on any other table the write
  of the reporting intervals of the column raises before the rolling statistics are
  reached).
\<close>

theorem C8_zscore_of_constant_column:
  assumes "labels_convert to_float df" and "5 \<le> length (rows df)"
      and "col \<in> set (columns df)" and "prefix ''temperature_'' col"
      and "\<forall>r\<in>set (rows df). cells r col = Fin v"
      and "\<forall>y\<in>set (columns df). prefix ''temperature_'' y \<longrightarrow> \<not> rolling_name y col"
      and "labels_distinct_in_phase df"
  shows "\<exists>df'. calculate_derived_metrics to_float df = Inr df'
          \<and> col @ ''_zscore'' \<in> set (columns df')
          \<and> column df' (col @ ''_zscore'') = replicate (length (rows df)) NaN"
proof -
  have ne: "rows df \<noteq> []" using assms(2) by auto
  from calculate_derived_metrics_ok[OF assms(1) ne] obtain df1 where
    res1: "calculate_derived_metrics to_float df = derive_columns df1"
    and f1: "unchanged_outside (prefix ''latency_ms_'') df df1" by blast
  have ld1: "labels_distinct_in_phase df1"
    by (rule labels_distinct_unchanged[OF f1 assms(7)])
  obtain df2 df3 df4 df5 df6 df7 out where
    f2: "unchanged_outside deviation_name df1 df2"
    and f3: "unchanged_outside (prefix ''reporting_interval_'') df2 df3"
    and f4: "unchanged_outside rate_name df3 df4"
    and f5: "unchanged_outside latency_name df4 df5"
    and d6: "df6 = foldl rolling_stat df5 (filter (prefix ''temperature_'') (columns df1))"
    and f7: "unchanged_outside (prefix ''interval_stability_'') df6 df7"
    and d8: "derive_columns df1 = Inr out"
    and f8: "unchanged_outside (prefix ''cumulative_failures_'') df7 out"
    by (rule derive_columns_chain[OF ld1]) blast
  have res: "calculate_derived_metrics to_float df = Inr out" by (simp only: res1 d8)
  define before where "before = (\<lambda>c. prefix ''latency_ms_'' c \<or> deviation_name c
      \<or> prefix ''reporting_interval_'' c \<or> rate_name c \<or> latency_name c)"
  define after where "after = (\<lambda>c. prefix ''interval_stability_'' c
      \<or> prefix ''cumulative_failures_'' c)"
  have fb: "unchanged_outside before df df5"
    by (rule unchanged_outside_trans[OF unchanged_outside_mono[OF f1]
          unchanged_outside_trans[OF unchanged_outside_mono[OF f2]
            unchanged_outside_trans[OF unchanged_outside_mono[OF f3]
              unchanged_outside_trans[OF unchanged_outside_mono[OF f4]
                unchanged_outside_mono[OF f5]]]]])
       (simp_all add: before_def)
  have fa: "unchanged_outside after df6 out"
    by (rule unchanged_outside_trans[OF unchanged_outside_mono[OF f7]
          unchanged_outside_mono[OF f8]])
       (simp_all add: after_def)
  have temp_nb: "\<not> before c" if "prefix ''temperature_'' c" for c
    using that by (auto simp: before_def deviation_name_def rate_name_def latency_name_def
        dest: prefix_heads)
  have temp_na: "\<not> after c" if "prefix ''temperature_'' c" for c
    using that by (auto simp: after_def dest: prefix_heads)
  have cols: "filter (prefix ''temperature_'') (columns df1) = filter (prefix ''temperature_'') (columns df)"
    by (rule unchanged_outside_filter[OF f1]) (auto dest: prefix_heads)
  have len5: "length (rows df5) = length (rows df)" by (rule unchanged_outside_length[OF fb])
  have const: "column df col = replicate (length (rows df)) (Fin v)"
    unfolding column_def by (rule replicate_eqI) (use assms(5) in auto)
  have c5: "column df5 col = replicate (length (rows df5)) (Fin v)"
    using unchanged_outside_column[OF fb temp_nb[OF assms(4)]] const len5 by simp
  have "column df6 (col @ ''_zscore'') = replicate (length (rows df5)) NaN
       \<and> col @ ''_zscore'' \<in> set (columns df6)"
    unfolding d6 cols
  proof (rule foldl_rolling_constant[OF _ c5])
    show "\<forall>y\<in>set (filter (prefix ''temperature_'') (columns df)). \<not> rolling_name y col"
      using assms(6) by simp
    show "5 \<le> length (rows df5)" using assms(2) len5 by simp
    show "col \<in> set (filter (prefix ''temperature_'') (columns df)) \<or>
          (column df5 (col @ ''_zscore'') = replicate (length (rows df5)) NaN
           \<and> col @ ''_zscore'' \<in> set (columns df5))"
      using assms(3,4) by simp
  qed
  moreover have z: "\<not> after (col @ ''_zscore'')"
    by (rule temp_na) (rule prefix_prefix[OF assms(4)])
  ultimately have "column out (col @ ''_zscore'') = replicate (length (rows df)) NaN"
    "col @ ''_zscore'' \<in> set (columns out)"
    using unchanged_outside_column[OF fa z] unchanged_outside_member[OF fa z] len5 by simp_all
  with res show ?thesis by blast
qed

theorem C8_zscore_of_constant_column_witness:
  "\<exists>df'. calculate_derived_metrics (\<lambda>s. None)
       \<lparr>columns = [''temperature_A''], flag_columns = [], method_columns = [],
        bucket_column = False,
        rows = [\<lparr>index_label = 0, timestamp = Fin 0, human_time = [], phase = ''baseline'',
                 vulnerability_type = ''bola'', bucket = None,
                 cells = (\<lambda>c. NaN)(''temperature_A'' := Fin 21),
                 flags = (\<lambda>c. None), methods = (\<lambda>c. MNaN)\<rparr>,
                \<lparr>index_label = 1, timestamp = Fin 5, human_time = [], phase = ''baseline'',
                 vulnerability_type = ''bola'', bucket = None,
                 cells = (\<lambda>c. NaN)(''temperature_A'' := Fin 21),
                 flags = (\<lambda>c. None), methods = (\<lambda>c. MNaN)\<rparr>,
                \<lparr>index_label = 2, timestamp = Fin 10, human_time = [], phase = ''baseline'',
                 vulnerability_type = ''bola'', bucket = None,
                 cells = (\<lambda>c. NaN)(''temperature_A'' := Fin 21),
                 flags = (\<lambda>c. None), methods = (\<lambda>c. MNaN)\<rparr>,
                \<lparr>index_label = 3, timestamp = Fin 15, human_time = [], phase = ''baseline'',
                 vulnerability_type = ''bola'', bucket = None,
                 cells = (\<lambda>c. NaN)(''temperature_A'' := Fin 21),
                 flags = (\<lambda>c. None), methods = (\<lambda>c. MNaN)\<rparr>,
                \<lparr>index_label = 4, timestamp = Fin 20, human_time = [], phase = ''baseline'',
                 vulnerability_type = ''bola'', bucket = None,
                 cells = (\<lambda>c. NaN)(''temperature_A'' := Fin 21),
                 flags = (\<lambda>c. None), methods = (\<lambda>c. MNaN)\<rparr>]\<rparr> = Inr df'
     \<and> ''temperature_A_zscore'' \<in> set (columns df')
     \<and> column df' ''temperature_A_zscore'' = [NaN, NaN, NaN, NaN, NaN]"
proof -
  let ?T = "\<lparr>columns = [''temperature_A''], flag_columns = [], method_columns = [],
        bucket_column = False,
        rows = [\<lparr>index_label = 0, timestamp = Fin 0, human_time = [], phase = ''baseline'',
                 vulnerability_type = ''bola'', bucket = None,
                 cells = (\<lambda>c. NaN)(''temperature_A'' := Fin 21),
                 flags = (\<lambda>c. None), methods = (\<lambda>c. MNaN)\<rparr>,
                \<lparr>index_label = 1, timestamp = Fin 5, human_time = [], phase = ''baseline'',
                 vulnerability_type = ''bola'', bucket = None,
                 cells = (\<lambda>c. NaN)(''temperature_A'' := Fin 21),
                 flags = (\<lambda>c. None), methods = (\<lambda>c. MNaN)\<rparr>,
                \<lparr>index_label = 2, timestamp = Fin 10, human_time = [], phase = ''baseline'',
                 vulnerability_type = ''bola'', bucket = None,
                 cells = (\<lambda>c. NaN)(''temperature_A'' := Fin 21),
                 flags = (\<lambda>c. None), methods = (\<lambda>c. MNaN)\<rparr>,
                \<lparr>index_label = 3, timestamp = Fin 15, human_time = [], phase = ''baseline'',
                 vulnerability_type = ''bola'', bucket = None,
                 cells = (\<lambda>c. NaN)(''temperature_A'' := Fin 21),
                 flags = (\<lambda>c. None), methods = (\<lambda>c. MNaN)\<rparr>,
                \<lparr>index_label = 4, timestamp = Fin 20, human_time = [], phase = ''baseline'',
                 vulnerability_type = ''bola'', bucket = None,
                 cells = (\<lambda>c. NaN)(''temperature_A'' := Fin 21),
                 flags = (\<lambda>c. None), methods = (\<lambda>c. MNaN)\<rparr>]\<rparr>"
  have h1: "labels_convert (\<lambda>s. None) ?T" by (simp add: labels_convert_def bucket_ok_def)
  have h2: "5 \<le> length (rows ?T)" by simp
  have h3: "''temperature_A'' \<in> set (columns ?T)" by simp
  have h4: "prefix ''temperature_'' ''temperature_A''" by simp
  have h5: "\<forall>r\<in>set (rows ?T). cells r ''temperature_A'' = Fin 21" by simp
  have h6: "\<forall>y\<in>set (columns ?T). prefix ''temperature_'' y \<longrightarrow> \<not> rolling_name y ''temperature_A''"
    by (simp add: rolling_name_def)
  have h7: "labels_distinct_in_phase ?T" by (simp add: labels_distinct_in_phase_def)
  have n: "replicate (length (rows ?T)) NaN = [NaN, NaN, NaN, NaN, NaN]"
    by (simp add: numeral_eq_Suc)
  from C8_zscore_of_constant_column[OF h1 h2 h3 h4 h5 h6 h7]
  show ?thesis unfolding n by simp
qed

subsection \<open>Reporting intervals\<close>

lemma sensor_id_of_temperature: "split_max 1 (''temperature_'' @ s) ! 1 = s"
  by simp

lemma inj_sort_rank: "inj sort_rank"
proof (rule injI)
  fix a b assume "sort_rank a = sort_rank b"
  then show "a = b" by (cases a; cases b) simp_all
qed

lemma rows_in_timestamp_order:
  fixes rs :: "row list"
  assumes "length rs = 4" and "set (map timestamp rs) = {Fin 0, Fin 5, Fin 10, Fin 17}"
  shows "map timestamp (sort_key (\<lambda>r. sort_rank (timestamp r)) rs) = [Fin 0, Fin 5, Fin 10, Fin 17]"
proof -
  let ?target = "[Fin 0, Fin 5, Fin 10, Fin 17]"
  let ?ts = "map timestamp rs"
  let ?sorted = "sort_key (\<lambda>r. sort_rank (timestamp r)) rs"
  have "card (set ?ts) = length ?ts" unfolding assms(2) using assms(1) by simp
  then have d: "distinct ?ts" by (rule card_distinct)
  have "set ?ts = set ?target" using assms(2) by auto
  moreover have "distinct ?target" by simp
  ultimately have m: "mset ?ts = mset ?target"
    using d set_eq_iff_mset_eq_distinct by blast
  let ?ks = "map (\<lambda>r. sort_rank (timestamp r)) ?sorted"
  have "mset ?ks = image_mset (\<lambda>r. sort_rank (timestamp r)) (mset rs)" by simp
  also have "\<dots> = image_mset sort_rank (mset ?ts)"
    by (simp add: comp_def multiset.map_comp)
  also have "\<dots> = mset (map sort_rank ?target)" unfolding m by simp
  finally have mk: "mset ?ks = mset (map sort_rank ?target)" .
  have "sorted ?ks" by (rule sorted_sort_key)
  with mk have "sort (map sort_rank ?target) = ?ks"
    by (rule properties_for_sort)
  moreover have "sort (map sort_rank ?target) = map sort_rank ?target" by simp
  ultimately have "map sort_rank (map timestamp ?sorted) = map sort_rank ?target"
    by (simp add: comp_def)
  then show ?thesis
    using inj_sort_rank by (simp only: inj_map_eq_map)
qed

lemma set_unique: "set (unique xs) = set xs"
  by (simp add: unique_def)

lemma new_column_nth:
  assumes "i < length (rows df)"
  shows "index_label (rows (new_column c df) ! i) = index_label (rows df ! i)"
    and "cells (rows (new_column c df) ! i) c =
           (if c \<in> set (columns df) then cells (rows df ! i) c else NaN)"
proof -
  note f = new_column_frame[of c df]
  have len: "length (rows (new_column c df)) = length (rows df)"
    by (rule unchanged_outside_length[OF f])
  show "index_label (rows (new_column c df) ! i) = index_label (rows df ! i)"
    using unchanged_outside_fields(4)[OF f] assms len by (metis nth_map)
  show "cells (rows (new_column c df) ! i) c =
           (if c \<in> set (columns df) then cells (rows df ! i) c else NaN)"
  proof (cases "c \<in> set (columns df)")
    case True
    then show ?thesis by (simp add: new_column_def)
  next
    case False
    have "column (new_column c df) c = replicate (length (rows df)) NaN"
      using False by (simp add: new_column_def column_set_column)
    then show ?thesis using False assms len by (simp add: cells_nth)
  qed
qed

lemma loc_set_labels_nth:
  assumes "loc_set_labels c series df = Inr df'" and "i < length (rows df)"
  shows "cells (rows df' ! i) c =
           (case map_of series (index_label (rows df ! i)) of
              None \<Rightarrow> if c \<in> set (columns df) then cells (rows df ! i) c else NaN
            | Some v \<Rightarrow> v)"
proof -
  let ?w = "\<lambda>r. case map_of series (index_label r) of
                  None \<Rightarrow> r
                | Some v \<Rightarrow> r\<lparr>cells := (cells r)(c := v)\<rparr>"
  from assms(1) have df': "df' = (new_column c df)\<lparr>rows := map ?w (rows (new_column c df))\<rparr>"
    by (simp add: loc_set_labels_def Let_def split: if_splits)
  have len: "length (rows (new_column c df)) = length (rows df)"
    by (rule unchanged_outside_length[OF new_column_frame])
  have "rows df' ! i = ?w (rows (new_column c df) ! i)"
    unfolding df' using assms(2) len by simp
  then show ?thesis
    using new_column_nth[OF assms(2), of c] by (simp split: option.split)
qed

lemma loc_set_labels_column:
  "loc_set_labels c series df = Inr df' \<Longrightarrow> c \<in> set (columns df')"
  by (auto simp: loc_set_labels_def Let_def new_column_def set_column_def add_name_def
      split: if_splits)

lemma distinct_labels_in_phase:
  "distinct (map index_label (rows df)) \<Longrightarrow> labels_distinct_in_phase df"
  unfolding labels_distinct_in_phase_def
  by (simp add: distinct_map inj_on_def)


lemma phase_intervals_storedI:
  assumes "c \<in> set (columns df')"
      and "unchanged_outside P df df'"
      and "\<And>i. i < length (rows df) \<Longrightarrow> phase (rows df ! i) = p \<Longrightarrow>
             cells (rows df' ! i) c = expected_interval (timestamp (rows df ! i))"
  shows "phase_intervals_stored p c df'"
  unfolding phase_intervals_stored_def
proof (intro conjI ballI impI)
  show "c \<in> set (columns df')" by (rule assms(1))
  fix r assume r: "r \<in> set (rows df')" "phase r = p"
  note f = unchanged_outside_fields[OF assms(2)]
  have len: "length (rows df') = length (rows df)" by (rule unchanged_outside_length[OF assms(2)])
  from r(1) obtain i where i: "i < length (rows df')" "rows df' ! i = r"
    by (auto simp: in_set_conv_nth)
  have "phase (rows df ! i) = phase (rows df' ! i)" "timestamp (rows df ! i) = timestamp (rows df' ! i)"
    using f(1,2) i(1) len by (metis nth_map)+
  with assms(3)[of i] i r(2) len show "cells r c = expected_interval (timestamp r)" by simp
qed

lemma phase_step_writes:
  assumes labels: "distinct (map index_label (rows d))"
      and four: "length (filter (\<lambda>r. phase r = p) (rows d)) = 4"
      and ts: "set (map timestamp (filter (\<lambda>r. phase r = p) (rows d))) = {Fin 0, Fin 5, Fin 10, Fin 17}"
  shows "\<exists>d'. reporting_interval_phase sensor_id d p = Inr d'
          \<and> unchanged_outside (\<lambda>x. x = ''reporting_interval_'' @ sensor_id) d d'
          \<and> phase_intervals_stored p (''reporting_interval_'' @ sensor_id) d'"
proof -
  let ?c = "''reporting_interval_'' @ sensor_id"
  let ?rs = "filter (\<lambda>r. phase r = p) (rows d)"
  let ?s = "sort_key (\<lambda>r. sort_rank (timestamp r)) ?rs"
  let ?series = "zip (map index_label ?s) (diff (map timestamp ?s))"
  from reporting_interval_phase_ok[OF distinct_labels_in_phase[OF labels], of sensor_id p]
  obtain d' where d': "reporting_interval_phase sensor_id d p = Inr d'"
    and f: "unchanged_outside (\<lambda>x. x = ?c) d d'" by blast
  have loc: "loc_set_labels ?c ?series d = Inr d'"
    using d' four by (simp add: reporting_interval_phase_def Let_def)
  have sorted_ts: "map timestamp ?s = [Fin 0, Fin 5, Fin 10, Fin 17]"
    by (rule rows_in_timestamp_order[OF four ts])
  have "diff (map timestamp ?s) = map (\<lambda>r. expected_interval (timestamp r)) ?s"
  proof -
    have "diff (map timestamp ?s) = [NaN, Fin 5, Fin 5, Fin 7]"
      unfolding sorted_ts by (simp add: diff_def fsub_def)
    also have "\<dots> = map expected_interval (map timestamp ?s)"
      unfolding sorted_ts by (simp add: expected_interval_def)
    finally show ?thesis by (simp add: comp_def)
  qed
  then have series: "?series = map (\<lambda>r. (index_label r, expected_interval (timestamp r))) ?s"
    by (simp add: pair_map)
  have "mset (map index_label ?s) = mset (map index_label ?rs)" by simp
  moreover have "distinct (map index_label ?rs)"
    using labels by (rule distinct_map_filter)
  ultimately have "distinct (map index_label ?s)" by (metis mset_eq_imp_distinct_iff)
  then have dist: "distinct (map fst ?series)" by (simp add: length_diff)
  have val: "cells (rows d' ! i) ?c = expected_interval (timestamp (rows d ! i))"
    if i: "i < length (rows d)" and ph: "phase (rows d ! i) = p" for i
  proof -
    have "rows d ! i \<in> set ?s" using i ph by simp
    then have "(index_label (rows d ! i), expected_interval (timestamp (rows d ! i))) \<in> set ?series"
      unfolding series set_map by (intro image_eqI[where x = "rows d ! i"]) simp_all
    then have "map_of ?series (index_label (rows d ! i)) =
                 Some (expected_interval (timestamp (rows d ! i)))"
      using dist by simp
    with loc_set_labels_nth[OF loc i] show ?thesis by simp
  qed
  have "phase_intervals_stored p ?c d'"
    by (rule phase_intervals_storedI[OF loc_set_labels_column[OF loc] f val])
  with d' f show ?thesis by blast
qed

lemma phase_intervals_stored_kept:
  assumes "phase_intervals_stored p c d"
      and "unchanged_outside P d d'"
      and "\<And>i. i < length (rows d) \<Longrightarrow> phase (rows d ! i) = p \<Longrightarrow>
             cells (rows d' ! i) c = cells (rows d ! i) c"
  shows "phase_intervals_stored p c d'"
proof (rule phase_intervals_storedI[OF _ assms(2)])
  from assms(2) obtain new where "columns d' = columns d @ new"
    unfolding unchanged_outside_def by blast
  with assms(1) show "c \<in> set (columns d')" by (simp add: phase_intervals_stored_def)
  fix i assume i: "i < length (rows d)" "phase (rows d ! i) = p"
  then have "rows d ! i \<in> set (rows d)" by simp
  with assms(1) i(2) have "cells (rows d ! i) c = expected_interval (timestamp (rows d ! i))"
    unfolding phase_intervals_stored_def by blast
  with assms(3)[OF i] show "cells (rows d' ! i) c = expected_interval (timestamp (rows d ! i))"
    by simp
qed

lemma phase_step_other:
  assumes labels: "distinct (map index_label (rows d))"
      and stored: "phase_intervals_stored p c d"
      and other: "q \<noteq> p"
      and step: "reporting_interval_phase sensor_id d q = Inr d'"
  shows "phase_intervals_stored p c d'"
proof (cases "1 < length (filter (\<lambda>r. phase r = q) (rows d))")
  case False
  with step stored show ?thesis by (simp add: reporting_interval_phase_def)
next
  case True
  let ?c' = "''reporting_interval_'' @ sensor_id"
  let ?rs = "filter (\<lambda>r. phase r = q) (rows d)"
  let ?s = "sort_key (\<lambda>r. sort_rank (timestamp r)) ?rs"
  let ?series = "zip (map index_label ?s) (diff (map timestamp ?s))"
  have loc: "loc_set_labels ?c' ?series d = Inr d'"
    using step True by (simp add: reporting_interval_phase_def Let_def)
  note f = loc_set_labels_frame[OF loc]
  have keep: "cells (rows d' ! i) c = cells (rows d ! i) c"
    if i: "i < length (rows d)" and ph: "phase (rows d ! i) = p" for i
  proof (cases "c = ?c'")
    case False
    then have "column d' c = column d c" using unchanged_outside_column[OF f, of c] by simp
    then show ?thesis using i unchanged_outside_length[OF f] by (simp add: cells_nth)
  next
    case c: True
    have "index_label (rows d ! i) \<notin> set (map index_label ?s)"
    proof
      assume "index_label (rows d ! i) \<in> set (map index_label ?s)"
      then obtain r where r: "r \<in> set (rows d)" "phase r = q" "index_label r = index_label (rows d ! i)"
        by auto
      from r(1) obtain j where j: "j < length (rows d)" "rows d ! j = r"
        by (auto simp: in_set_conv_nth)
      have "map index_label (rows d) ! j = map index_label (rows d) ! i"
        using r(3) i j by simp
      moreover have "j < length (map index_label (rows d))" "i < length (map index_label (rows d))"
        using i j(1) by simp_all
      ultimately have "j = i" using nth_eq_iff_index_eq[OF labels] by blast
      with j(2) r(2) ph other show False by simp
    qed
    moreover have "map fst ?series = map index_label ?s" by (simp add: length_diff)
    ultimately have "index_label (rows d ! i) \<notin> fst ` set ?series"
      by (metis set_map)
    then have "map_of ?series (index_label (rows d ! i)) = None"
      by (rule map_of_eq_None_iff[THEN iffD2])
    moreover have "c \<in> set (columns d)" using stored by (simp add: phase_intervals_stored_def)
    ultimately show ?thesis using loc_set_labels_nth[OF loc i] c by simp
  qed
  show ?thesis by (rule phase_intervals_stored_kept[OF stored f keep])
qed

lemma unchanged_outside_phase_rows:
  assumes "unchanged_outside P d d'"
  shows "distinct (map index_label (rows d')) = distinct (map index_label (rows d))"
    and "length (filter (\<lambda>r. phase r = p) (rows d')) = length (filter (\<lambda>r. phase r = p) (rows d))"
    and "set (map timestamp (filter (\<lambda>r. phase r = p) (rows d'))) =
         set (map timestamp (filter (\<lambda>r. phase r = p) (rows d)))"
proof -
  note f = unchanged_outside_fields[OF assms]
  show "distinct (map index_label (rows d')) = distinct (map index_label (rows d))"
    by (simp only: f)
  have pt: "map (\<lambda>r. (phase r, timestamp r)) (rows d') = map (\<lambda>r. (phase r, timestamp r)) (rows d)"
    by (simp add: pair_map f)
  have e: "map timestamp (filter (\<lambda>r. phase r = p) rs) =
           map snd (filter (\<lambda>x. fst x = p) (map (\<lambda>r. (phase r, timestamp r)) rs))" for rs :: "row list"
    by (induction rs) simp_all
  have "map timestamp (filter (\<lambda>r. phase r = p) (rows d')) =
        map timestamp (filter (\<lambda>r. phase r = p) (rows d))"
    by (simp only: e pt)
  then show "length (filter (\<lambda>r. phase r = p) (rows d')) = length (filter (\<lambda>r. phase r = p) (rows d))"
    and "set (map timestamp (filter (\<lambda>r. phase r = p) (rows d'))) =
         set (map timestamp (filter (\<lambda>r. phase r = p) (rows d)))"
    by (metis length_map, simp)
qed

lemma foldl_phases:
  assumes "distinct (map index_label (rows d))"
      and "length (filter (\<lambda>r. phase r = p) (rows d)) = 4"
      and "set (map timestamp (filter (\<lambda>r. phase r = p) (rows d))) = {Fin 0, Fin 5, Fin 10, Fin 17}"
      and "distinct ps"
      and "p \<in> set ps \<or> phase_intervals_stored p (''reporting_interval_'' @ sensor_id) d"
  shows "\<exists>d'. foldl_result (reporting_interval_phase sensor_id) d ps = Inr d'
          \<and> unchanged_outside (\<lambda>x. x = ''reporting_interval_'' @ sensor_id) d d'
          \<and> phase_intervals_stored p (''reporting_interval_'' @ sensor_id) d'"
  using assms
proof (induction ps arbitrary: d)
  case Nil
  then show ?case by (simp add: unchanged_outside_refl)
next
  case (Cons q ps)
  let ?c = "''reporting_interval_'' @ sensor_id"
  have "\<exists>d1. reporting_interval_phase sensor_id d q = Inr d1
          \<and> unchanged_outside (\<lambda>x. x = ?c) d d1
          \<and> (p \<in> set ps \<or> phase_intervals_stored p ?c d1)"
  proof (cases "q = p")
    case True
    from phase_step_writes[OF Cons.prems(1,2,3), of sensor_id] show ?thesis
      unfolding True by blast
  next
    case False
    from reporting_interval_phase_ok[OF distinct_labels_in_phase[OF Cons.prems(1)], of sensor_id q]
    obtain d1 where d1: "reporting_interval_phase sensor_id d q = Inr d1"
      "unchanged_outside (\<lambda>x. x = ?c) d d1" by blast
    have "p \<in> set ps \<or> phase_intervals_stored p ?c d1"
    proof (cases "p \<in> set ps")
      case True
      then show ?thesis by simp
    next
      case np: False
      with Cons.prems(5) False have "phase_intervals_stored p ?c d" by simp
      from phase_step_other[OF Cons.prems(1) this False d1(1)] show ?thesis by simp
    qed
    with d1 show ?thesis by blast
  qed
  then obtain d1 where d1: "reporting_interval_phase sensor_id d q = Inr d1"
    and f1: "unchanged_outside (\<lambda>x. x = ?c) d d1"
    and s1: "p \<in> set ps \<or> phase_intervals_stored p ?c d1" by blast
  note tr = unchanged_outside_phase_rows[OF f1]
  have "\<exists>d'. foldl_result (reporting_interval_phase sensor_id) d1 ps = Inr d'
          \<and> unchanged_outside (\<lambda>x. x = ?c) d1 d'
          \<and> phase_intervals_stored p ?c d'"
  proof (rule Cons.IH)
    show "distinct (map index_label (rows d1))" using tr(1) Cons.prems(1) by simp
    show "length (filter (\<lambda>r. phase r = p) (rows d1)) = 4" using tr(2) Cons.prems(2) by simp
    show "set (map timestamp (filter (\<lambda>r. phase r = p) (rows d1))) = {Fin 0, Fin 5, Fin 10, Fin 17}"
      using tr(3) Cons.prems(3) by simp
    show "distinct ps" using Cons.prems(4) by simp
    show "p \<in> set ps \<or> phase_intervals_stored p ?c d1" by (rule s1)
  qed
  then obtain d' where d': "foldl_result (reporting_interval_phase sensor_id) d1 ps = Inr d'"
    "unchanged_outside (\<lambda>x. x = ?c) d1 d'" "phase_intervals_stored p ?c d'" by blast
  show ?case using d1 d'(1,3) unchanged_outside_trans[OF f1 d'(2)] by simp
qed


lemma distinct_unique: "distinct (unique xs)"
  by (simp add: unique_def)

lemma reporting_interval_stores:
  assumes "distinct (map index_label (rows d))"
      and "length (filter (\<lambda>r. phase r = p) (rows d)) = 4"
      and "set (map timestamp (filter (\<lambda>r. phase r = p) (rows d))) = {Fin 0, Fin 5, Fin 10, Fin 17}"
  shows "\<exists>d'. reporting_interval d (''temperature_'' @ sensor_id) = Inr d'
          \<and> unchanged_outside (\<lambda>x. x = ''reporting_interval_'' @ sensor_id) d d'
          \<and> phase_intervals_stored p (''reporting_interval_'' @ sensor_id) d'"
proof -
  have "filter (\<lambda>r. phase r = p) (rows d) \<noteq> []" using assms(2) by auto
  then obtain r where "r \<in> set (rows d)" "phase r = p"
    by (auto simp: filter_empty_conv)
  then have "p \<in> set (unique (map phase (rows d)))" by (auto simp: set_unique)
  then have "p \<in> set (unique (map phase (rows d)))
     \<or> phase_intervals_stored p (''reporting_interval_'' @ sensor_id) d" by simp
  from foldl_phases[OF assms distinct_unique this] show ?thesis
    unfolding reporting_interval_def sensor_id_of_temperature .
qed

lemma reporting_interval_other:
  assumes "distinct (map index_label (rows d))"
      and "phase_intervals_stored p (''reporting_interval_'' @ sensor_id) d"
      and "s \<noteq> sensor_id"
  shows "\<exists>d'. reporting_interval d (''temperature_'' @ s) = Inr d'
          \<and> unchanged_outside (\<lambda>x. x = ''reporting_interval_'' @ s) d d'
          \<and> phase_intervals_stored p (''reporting_interval_'' @ sensor_id) d'"
proof -
  let ?c = "''reporting_interval_'' @ sensor_id"
  from reporting_interval_writes[OF distinct_labels_in_phase[OF assms(1)], of "''temperature_'' @ s"]
  obtain d' where d': "reporting_interval d (''temperature_'' @ s) = Inr d'"
    and f: "unchanged_outside (\<lambda>x. x = ''reporting_interval_'' @ s) d d'"
    unfolding sensor_id_of_temperature by blast
  have "?c \<noteq> ''reporting_interval_'' @ s" using assms(3) by simp
  then have "column d' ?c = column d ?c" using unchanged_outside_column[OF f, of ?c] by simp
  then have keep: "cells (rows d' ! i) ?c = cells (rows d ! i) ?c" if "i < length (rows d)" for i
    using that unchanged_outside_length[OF f] by (simp add: cells_nth)
  have "phase_intervals_stored p ?c d'"
    by (rule phase_intervals_stored_kept[OF assms(2) f keep])
  with d' f show ?thesis by blast
qed

lemma foldl_reporting_interval:
  assumes "distinct (map index_label (rows d))"
      and "length (filter (\<lambda>r. phase r = p) (rows d)) = 4"
      and "set (map timestamp (filter (\<lambda>r. phase r = p) (rows d))) = {Fin 0, Fin 5, Fin 10, Fin 17}"
      and "\<forall>y\<in>set cols. prefix ''temperature_'' y"
      and "''temperature_'' @ sensor_id \<in> set cols
           \<or> phase_intervals_stored p (''reporting_interval_'' @ sensor_id) d"
  shows "\<exists>d'. foldl_result reporting_interval d cols = Inr d'
          \<and> unchanged_outside (prefix ''reporting_interval_'') d d'
          \<and> phase_intervals_stored p (''reporting_interval_'' @ sensor_id) d'"
  using assms
proof (induction cols arbitrary: d)
  case Nil
  then show ?case by (simp add: unchanged_outside_refl)
next
  case (Cons y cols)
  let ?c = "''reporting_interval_'' @ sensor_id"
  from Cons.prems(4) obtain s where s: "y = ''temperature_'' @ s" by (auto elim: prefixE)
  have "\<exists>d1. reporting_interval d y = Inr d1
          \<and> unchanged_outside (\<lambda>x. x = ''reporting_interval_'' @ s) d d1
          \<and> (''temperature_'' @ sensor_id \<in> set cols \<or> phase_intervals_stored p ?c d1)"
  proof (cases "s = sensor_id")
    case True
    from reporting_interval_stores[OF Cons.prems(1,2,3), of sensor_id] show ?thesis
      unfolding s True by blast
  next
    case False
    show ?thesis
    proof (cases "''temperature_'' @ sensor_id \<in> set cols")
      case True
      from reporting_interval_writes[OF distinct_labels_in_phase[OF Cons.prems(1)], of y]
      show ?thesis unfolding s sensor_id_of_temperature using True by blast
    next
      case nc: False
      with Cons.prems(5) False s have "phase_intervals_stored p ?c d" by simp
      from reporting_interval_other[OF Cons.prems(1) this False] show ?thesis
        unfolding s by blast
    qed
  qed
  then obtain d1 where d1: "reporting_interval d y = Inr d1"
    and g1: "unchanged_outside (\<lambda>x. x = ''reporting_interval_'' @ s) d d1"
    and s1: "''temperature_'' @ sensor_id \<in> set cols \<or> phase_intervals_stored p ?c d1" by blast
  have f1: "unchanged_outside (prefix ''reporting_interval_'') d d1"
    by (rule unchanged_outside_mono[OF g1]) simp
  note tr = unchanged_outside_phase_rows[OF f1]
  have "\<exists>d'. foldl_result reporting_interval d1 cols = Inr d'
          \<and> unchanged_outside (prefix ''reporting_interval_'') d1 d'
          \<and> phase_intervals_stored p ?c d'"
  proof (rule Cons.IH)
    show "distinct (map index_label (rows d1))" using tr(1) Cons.prems(1) by simp
    show "length (filter (\<lambda>r. phase r = p) (rows d1)) = 4" using tr(2) Cons.prems(2) by simp
    show "set (map timestamp (filter (\<lambda>r. phase r = p) (rows d1))) = {Fin 0, Fin 5, Fin 10, Fin 17}"
      using tr(3) Cons.prems(3) by simp
    show "\<forall>y\<in>set cols. prefix ''temperature_'' y" using Cons.prems(4) by simp
    show "''temperature_'' @ sensor_id \<in> set cols \<or> phase_intervals_stored p ?c d1" by (rule s1)
  qed
  then obtain d' where d': "foldl_result reporting_interval d1 cols = Inr d'"
    "unchanged_outside (prefix ''reporting_interval_'') d1 d'" "phase_intervals_stored p ?c d'" by blast
  show ?case using d1 d'(1,3) unchanged_outside_trans[OF f1 d'(2)] by simp
qed

lemma intervals_in_timestamp_order:
  fixes rs :: "row list"
  assumes "length rs = 4" and "set (map timestamp rs) = {Fin 0, Fin 5, Fin 10, Fin 17}"
      and "\<forall>r\<in>set rs. cells r c = expected_interval (timestamp r)"
  shows "map (\<lambda>r. cells r c) (sort_key (\<lambda>r. sort_rank (timestamp r)) rs) = [NaN, Fin 5, Fin 5, Fin 7]"
proof -
  let ?sorted = "sort_key (\<lambda>r. sort_rank (timestamp r)) rs"
  have "map (\<lambda>r. cells r c) ?sorted = map (\<lambda>r. expected_interval (timestamp r)) ?sorted"
    by (rule map_cong) (simp_all add: assms(3))
  also have "\<dots> = map expected_interval (map timestamp ?sorted)" by (simp add: comp_def)
  also have "\<dots> = [NaN, Fin 5, Fin 5, Fin 7]"
    unfolding rows_in_timestamp_order[OF assms(1,2)] by (simp add: expected_interval_def)
  finally show ?thesis .
qed

text \<open>
  What the writes by label do on a table whose index labels are all different (a table
  with a unique index, as \<^verbatim>\<open>pd.DataFrame(metrics)\<close> or
  \<^verbatim>\<open>pd.concat(..., ignore_index=True)\<close> builds it): a phase writes its own rows and no
  other. For such a table, with any number of phases beside the phase \<open>p\<close> and the rows in
  any order, if \<open>p\<close> has four rows with the timestamps 0, 5, 10, 17, then the derived
  metrics are computed without an exception, the rows keep their place, and the
  reporting interval on each row of \<open>p\<close> is the one of its timestamp: NaN on the row of 0,
  5 on the rows of 5 and of 10, 7 on the row of 17; read in timestamp order the phase
  holds NaN, 5, 5, 7.
\<close>

lemma reporting_intervals_of_a_phase:
  assumes "labels_convert to_float df"
      and "distinct (map index_label (rows df))"
      and "''temperature_'' @ sensor_id \<in> set (columns df)"
      and "length (filter (\<lambda>r. phase r = p) (rows df)) = 4"
      and "set (map timestamp (filter (\<lambda>r. phase r = p) (rows df))) = {Fin 0, Fin 5, Fin 10, Fin 17}"
  shows "\<exists>df'. calculate_derived_metrics to_float df = Inr df'
          \<and> map index_label (rows df') = map index_label (rows df)
          \<and> map phase (rows df') = map phase (rows df)
          \<and> map timestamp (rows df') = map timestamp (rows df)
          \<and> (\<forall>r\<in>set (rows df'). phase r = p \<longrightarrow>
                cells r (''reporting_interval_'' @ sensor_id) = expected_interval (timestamp r))
          \<and> map (\<lambda>r. cells r (''reporting_interval_'' @ sensor_id))
                (sort_key (\<lambda>r. sort_rank (timestamp r)) (filter (\<lambda>r. phase r = p) (rows df'))) =
              [NaN, Fin 5, Fin 5, Fin 7]"
proof -
  let ?c = "''reporting_interval_'' @ sensor_id"
  have ne: "rows df \<noteq> []" using assms(4) by auto
  from calculate_derived_metrics_ok[OF assms(1) ne] obtain df1 where
    res1: "calculate_derived_metrics to_float df = derive_columns df1"
    and f1: "unchanged_outside (prefix ''latency_ms_'') df df1" by blast
  have ld1: "labels_distinct_in_phase df1"
    by (rule labels_distinct_unchanged[OF f1 distinct_labels_in_phase[OF assms(2)]])
  obtain df2 df3 df4 df5 df6 df7 out where
    f2: "unchanged_outside deviation_name df1 df2"
    and d3: "foldl_result reporting_interval df2 (filter (prefix ''temperature_'') (columns df1)) = Inr df3"
    and f3: "unchanged_outside (prefix ''reporting_interval_'') df2 df3"
    and f4: "unchanged_outside rate_name df3 df4"
    and f5: "unchanged_outside latency_name df4 df5"
    and f6: "unchanged_outside (prefix ''temperature_'') df5 df6"
    and f7: "unchanged_outside (prefix ''interval_stability_'') df6 df7"
    and d8: "derive_columns df1 = Inr out"
    and f8: "unchanged_outside (prefix ''cumulative_failures_'') df7 out"
    by (rule derive_columns_chain[OF ld1]) blast
  have res: "calculate_derived_metrics to_float df = Inr out" by (simp only: res1 d8)
  define before where "before = (\<lambda>c. prefix ''latency_ms_'' c \<or> deviation_name c)"
  define after where "after = (\<lambda>c. rate_name c \<or> latency_name c \<or> prefix ''temperature_'' c
      \<or> prefix ''interval_stability_'' c \<or> prefix ''cumulative_failures_'' c)"
  have fb: "unchanged_outside before df df2"
    by (rule unchanged_outside_trans[OF unchanged_outside_mono[OF f1]
          unchanged_outside_mono[OF f2]])
       (simp_all add: before_def)
  have fa: "unchanged_outside after df3 out"
    by (rule unchanged_outside_trans[OF unchanged_outside_mono[OF f4]
          unchanged_outside_trans[OF unchanged_outside_mono[OF f5]
            unchanged_outside_trans[OF unchanged_outside_mono[OF f6]
              unchanged_outside_trans[OF unchanged_outside_mono[OF f7]
                unchanged_outside_mono[OF f8]]]]])
       (simp_all add: after_def)
  have cols: "filter (prefix ''temperature_'') (columns df1) = filter (prefix ''temperature_'') (columns df)"
    by (rule unchanged_outside_filter[OF f1]) (auto dest: prefix_heads)
  note tb = unchanged_outside_phase_rows[OF fb]
  have "\<exists>d'. foldl_result reporting_interval df2 (filter (prefix ''temperature_'') (columns df)) = Inr d'
          \<and> unchanged_outside (prefix ''reporting_interval_'') df2 d'
          \<and> phase_intervals_stored p ?c d'"
  proof (rule foldl_reporting_interval)
    show "distinct (map index_label (rows df2))" using tb(1) assms(2) by simp
    show "length (filter (\<lambda>r. phase r = p) (rows df2)) = 4" using tb(2) assms(4) by simp
    show "set (map timestamp (filter (\<lambda>r. phase r = p) (rows df2))) = {Fin 0, Fin 5, Fin 10, Fin 17}"
      using tb(3) assms(5) by simp
    show "\<forall>y\<in>set (filter (prefix ''temperature_'') (columns df)). prefix ''temperature_'' y" by simp
    show "''temperature_'' @ sensor_id \<in> set (filter (prefix ''temperature_'') (columns df))
          \<or> phase_intervals_stored p ?c df2"
      using assms(3) by simp
  qed
  then have s3: "phase_intervals_stored p ?c df3" using d3 unfolding cols by auto
  have na: "\<not> after ?c"
    by (auto simp: after_def rate_name_def latency_name_def dest: prefix_heads)
  have "column out ?c = column df3 ?c" by (rule unchanged_outside_column[OF fa na])
  then have keep: "cells (rows out ! i) ?c = cells (rows df3 ! i) ?c" if "i < length (rows df3)" for i
    using that unchanged_outside_length[OF fa] by (simp add: cells_nth)
  have so: "phase_intervals_stored p ?c out"
    by (rule phase_intervals_stored_kept[OF s3 fa keep])
  have whole: "unchanged_outside (\<lambda>c. before c \<or> prefix ''reporting_interval_'' c \<or> after c) df out"
    by (rule unchanged_outside_trans[OF unchanged_outside_mono[OF fb]
          unchanged_outside_trans[OF unchanged_outside_mono[OF f3]
            unchanged_outside_mono[OF fa]]])
       simp_all
  note fw = unchanged_outside_fields[OF whole] and tw = unchanged_outside_phase_rows[OF whole]
  have each: "\<forall>r\<in>set (rows out). phase r = p \<longrightarrow> cells r ?c = expected_interval (timestamp r)"
    using so by (simp add: phase_intervals_stored_def)
  have ordered: "map (\<lambda>r. cells r ?c)
                (sort_key (\<lambda>r. sort_rank (timestamp r)) (filter (\<lambda>r. phase r = p) (rows out))) =
              [NaN, Fin 5, Fin 5, Fin 7]"
  proof (rule intervals_in_timestamp_order)
    show "length (filter (\<lambda>r. phase r = p) (rows out)) = 4" using tw(2) assms(4) by simp
    show "set (map timestamp (filter (\<lambda>r. phase r = p) (rows out))) = {Fin 0, Fin 5, Fin 10, Fin 17}"
      using tw(3) assms(5) by simp
    show "\<forall>r\<in>set (filter (\<lambda>r. phase r = p) (rows out)). cells r ?c = expected_interval (timestamp r)"
      using each by simp
  qed
  show ?thesis
    by (rule exI[of _ out]) (intro conjI res fw(4) fw(2) fw(1) each ordered)
qed


lemma reporting_interval_kept:
  assumes "labels_distinct_in_phase df"
  obtains df3 res where
    "foldl_result reporting_interval
       (foldl temperature_deviation df (filter (prefix ''temperature_'') (columns df)))
       (filter (prefix ''temperature_'') (columns df)) = Inr df3"
    "derive_columns df = Inr res"
    "column res (''reporting_interval_'' @ s) = column df3 (''reporting_interval_'' @ s)"
    "map index_label (rows res) = map index_label (rows df)"
    "map timestamp (rows res) = map timestamp (rows df)"
    "map phase (rows res) = map phase (rows df)"
proof -
  obtain df2 df3 df4 df5 df6 df7 res where
    d2: "df2 = foldl temperature_deviation df (filter (prefix ''temperature_'') (columns df))"
    and f2: "unchanged_outside deviation_name df df2"
    and d3: "foldl_result reporting_interval df2 (filter (prefix ''temperature_'') (columns df)) = Inr df3"
    and f3: "unchanged_outside (prefix ''reporting_interval_'') df2 df3"
    and f4: "unchanged_outside rate_name df3 df4"
    and f5: "unchanged_outside latency_name df4 df5"
    and f6: "unchanged_outside (prefix ''temperature_'') df5 df6"
    and f7: "unchanged_outside (prefix ''interval_stability_'') df6 df7"
    and d8: "derive_columns df = Inr res"
    and f8: "unchanged_outside (prefix ''cumulative_failures_'') df7 res"
    by (rule derive_columns_chain[OF assms]) blast
  define after where "after = (\<lambda>c. rate_name c \<or> latency_name c \<or> prefix ''temperature_'' c
      \<or> prefix ''interval_stability_'' c \<or> prefix ''cumulative_failures_'' c)"
  have fa: "unchanged_outside after df3 res"
    by (rule unchanged_outside_trans[OF unchanged_outside_mono[OF f4]
          unchanged_outside_trans[OF unchanged_outside_mono[OF f5]
            unchanged_outside_trans[OF unchanged_outside_mono[OF f6]
              unchanged_outside_trans[OF unchanged_outside_mono[OF f7]
                unchanged_outside_mono[OF f8]]]]])
       (simp_all add: after_def)
  have na: "\<not> after (''reporting_interval_'' @ s)"
    by (auto simp: after_def rate_name_def latency_name_def dest: prefix_heads)
  have c: "column res (''reporting_interval_'' @ s) = column df3 (''reporting_interval_'' @ s)"
    by (rule unchanged_outside_column[OF fa na])
  note a = unchanged_outside_fields[OF fa] and b = unchanged_outside_fields[OF f3]
    and e = unchanged_outside_fields[OF f2]
  show thesis
    by (rule that[OF d3[unfolded d2] d8 c]) (simp_all only: a b e)
qed

lemmas reporting_interval_steps = reporting_interval_def unique_def reporting_interval_phase_def
  loc_set_labels_def new_column_def set_column_def add_name_def diff_def fsub_def column_def
  Let_def temperature_deviation_def

text \<open>
  C7 fails on the table that \<^verbatim>\<open>process_dataset\<close> builds. It puts one frame per phase
  together with \<^verbatim>\<open>pd.concat(dfs_to_combine)\<close>, without \<^verbatim>\<open>ignore_index\<close>: a baseline phase
  of four rows (timestamps 0, 5, 10, 17) has the index labels 0, 1, 2, 3 and an event phase
  of two rows (timestamps 20, 23) has the labels 0, 1 again. The intervals of the baseline
  phase are written by label, so NaN and 5 also land on the two event rows; then the
  intervals of the event phase, NaN and 3, are written on every row labelled 0 or 1, the
  baseline rows among them. After the call the baseline row of timestamp 5 holds 3, where
  the specification says 5: read in timestamp order the phase holds NaN, 3, 5, 7. On the
  same rows with the labels 0 to 5, the column holds NaN, 5, 5, 7 on the baseline rows and
  NaN, 3 on the event rows.
\<close>

theorem C7_intervals_overwritten_on_repeated_labels:
  "(\<exists>df'. calculate_derived_metrics (\<lambda>s. None)
        \<lparr>columns = [''temperature_A''], flag_columns = [], method_columns = [],
         bucket_column = False,
         rows = [\<lparr>index_label = 0, timestamp = Fin 0, human_time = [],
                  phase = ''baseline'', vulnerability_type = ''bola'', bucket = None,
                  cells = (\<lambda>c. NaN)(''temperature_A'' := Fin 21),
                  flags = (\<lambda>c. None), methods = (\<lambda>c. MNaN)\<rparr>,
                 \<lparr>index_label = 1, timestamp = Fin 5, human_time = [],
                  phase = ''baseline'', vulnerability_type = ''bola'', bucket = None,
                  cells = (\<lambda>c. NaN)(''temperature_A'' := Fin 21),
                  flags = (\<lambda>c. None), methods = (\<lambda>c. MNaN)\<rparr>,
                 \<lparr>index_label = 2, timestamp = Fin 10, human_time = [],
                  phase = ''baseline'', vulnerability_type = ''bola'', bucket = None,
                  cells = (\<lambda>c. NaN)(''temperature_A'' := Fin 21),
                  flags = (\<lambda>c. None), methods = (\<lambda>c. MNaN)\<rparr>,
                 \<lparr>index_label = 3, timestamp = Fin 17, human_time = [],
                  phase = ''baseline'', vulnerability_type = ''bola'', bucket = None,
                  cells = (\<lambda>c. NaN)(''temperature_A'' := Fin 21),
                  flags = (\<lambda>c. None), methods = (\<lambda>c. MNaN)\<rparr>,
                 \<lparr>index_label = 0, timestamp = Fin 20, human_time = [],
                  phase = ''event'', vulnerability_type = ''bola'', bucket = None,
                  cells = (\<lambda>c. NaN)(''temperature_A'' := Fin 21),
                  flags = (\<lambda>c. None), methods = (\<lambda>c. MNaN)\<rparr>,
                 \<lparr>index_label = 1, timestamp = Fin 23, human_time = [],
                  phase = ''event'', vulnerability_type = ''bola'', bucket = None,
                  cells = (\<lambda>c. NaN)(''temperature_A'' := Fin 21),
                  flags = (\<lambda>c. None), methods = (\<lambda>c. MNaN)\<rparr>]\<rparr> = Inr df'
      \<and> map phase (rows df') =
           [''baseline'', ''baseline'', ''baseline'', ''baseline'', ''event'', ''event'']
      \<and> map timestamp (rows df') = [Fin 0, Fin 5, Fin 10, Fin 17, Fin 20, Fin 23]
      \<and> column df' ''reporting_interval_A'' = [NaN, Fin 3, Fin 5, Fin 7, NaN, Fin 3])
   \<and> (\<exists>df'. calculate_derived_metrics (\<lambda>s. None)
        \<lparr>columns = [''temperature_A''], flag_columns = [], method_columns = [],
         bucket_column = False,
         rows = [\<lparr>index_label = 0, timestamp = Fin 0, human_time = [],
                  phase = ''baseline'', vulnerability_type = ''bola'', bucket = None,
                  cells = (\<lambda>c. NaN)(''temperature_A'' := Fin 21),
                  flags = (\<lambda>c. None), methods = (\<lambda>c. MNaN)\<rparr>,
                 \<lparr>index_label = 1, timestamp = Fin 5, human_time = [],
                  phase = ''baseline'', vulnerability_type = ''bola'', bucket = None,
                  cells = (\<lambda>c. NaN)(''temperature_A'' := Fin 21),
                  flags = (\<lambda>c. None), methods = (\<lambda>c. MNaN)\<rparr>,
                 \<lparr>index_label = 2, timestamp = Fin 10, human_time = [],
                  phase = ''baseline'', vulnerability_type = ''bola'', bucket = None,
                  cells = (\<lambda>c. NaN)(''temperature_A'' := Fin 21),
                  flags = (\<lambda>c. None), methods = (\<lambda>c. MNaN)\<rparr>,
                 \<lparr>index_label = 3, timestamp = Fin 17, human_time = [],
                  phase = ''baseline'', vulnerability_type = ''bola'', bucket = None,
                  cells = (\<lambda>c. NaN)(''temperature_A'' := Fin 21),
                  flags = (\<lambda>c. None), methods = (\<lambda>c. MNaN)\<rparr>,
                 \<lparr>index_label = 4, timestamp = Fin 20, human_time = [],
                  phase = ''event'', vulnerability_type = ''bola'', bucket = None,
                  cells = (\<lambda>c. NaN)(''temperature_A'' := Fin 21),
                  flags = (\<lambda>c. None), methods = (\<lambda>c. MNaN)\<rparr>,
                 \<lparr>index_label = 5, timestamp = Fin 23, human_time = [],
                  phase = ''event'', vulnerability_type = ''bola'', bucket = None,
                  cells = (\<lambda>c. NaN)(''temperature_A'' := Fin 21),
                  flags = (\<lambda>c. None), methods = (\<lambda>c. MNaN)\<rparr>]\<rparr> = Inr df'
      \<and> map phase (rows df') =
           [''baseline'', ''baseline'', ''baseline'', ''baseline'', ''event'', ''event'']
      \<and> map timestamp (rows df') = [Fin 0, Fin 5, Fin 10, Fin 17, Fin 20, Fin 23]
      \<and> column df' ''reporting_interval_A'' = [NaN, Fin 5, Fin 5, Fin 7, NaN, Fin 3])"
proof -
  let ?T = "\<lparr>columns = [''temperature_A''], flag_columns = [], method_columns = [],
             bucket_column = False,
             rows = [\<lparr>index_label = 0, timestamp = Fin 0, human_time = [],
                      phase = ''baseline'', vulnerability_type = ''bola'', bucket = None,
                      cells = (\<lambda>c. NaN)(''temperature_A'' := Fin 21),
                      flags = (\<lambda>c. None), methods = (\<lambda>c. MNaN)\<rparr>,
                     \<lparr>index_label = 1, timestamp = Fin 5, human_time = [],
                      phase = ''baseline'', vulnerability_type = ''bola'', bucket = None,
                      cells = (\<lambda>c. NaN)(''temperature_A'' := Fin 21),
                      flags = (\<lambda>c. None), methods = (\<lambda>c. MNaN)\<rparr>,
                     \<lparr>index_label = 2, timestamp = Fin 10, human_time = [],
                      phase = ''baseline'', vulnerability_type = ''bola'', bucket = None,
                      cells = (\<lambda>c. NaN)(''temperature_A'' := Fin 21),
                      flags = (\<lambda>c. None), methods = (\<lambda>c. MNaN)\<rparr>,
                     \<lparr>index_label = 3, timestamp = Fin 17, human_time = [],
                      phase = ''baseline'', vulnerability_type = ''bola'', bucket = None,
                      cells = (\<lambda>c. NaN)(''temperature_A'' := Fin 21),
                      flags = (\<lambda>c. None), methods = (\<lambda>c. MNaN)\<rparr>,
                     \<lparr>index_label = 0, timestamp = Fin 20, human_time = [],
                      phase = ''event'', vulnerability_type = ''bola'', bucket = None,
                      cells = (\<lambda>c. NaN)(''temperature_A'' := Fin 21),
                      flags = (\<lambda>c. None), methods = (\<lambda>c. MNaN)\<rparr>,
                     \<lparr>index_label = 1, timestamp = Fin 23, human_time = [],
                      phase = ''event'', vulnerability_type = ''bola'', bucket = None,
                      cells = (\<lambda>c. NaN)(''temperature_A'' := Fin 21),
                      flags = (\<lambda>c. None), methods = (\<lambda>c. MNaN)\<rparr>]\<rparr>"
  let ?U = "\<lparr>columns = [''temperature_A''], flag_columns = [], method_columns = [],
             bucket_column = False,
             rows = [\<lparr>index_label = 0, timestamp = Fin 0, human_time = [],
                      phase = ''baseline'', vulnerability_type = ''bola'', bucket = None,
                      cells = (\<lambda>c. NaN)(''temperature_A'' := Fin 21),
                      flags = (\<lambda>c. None), methods = (\<lambda>c. MNaN)\<rparr>,
                     \<lparr>index_label = 1, timestamp = Fin 5, human_time = [],
                      phase = ''baseline'', vulnerability_type = ''bola'', bucket = None,
                      cells = (\<lambda>c. NaN)(''temperature_A'' := Fin 21),
                      flags = (\<lambda>c. None), methods = (\<lambda>c. MNaN)\<rparr>,
                     \<lparr>index_label = 2, timestamp = Fin 10, human_time = [],
                      phase = ''baseline'', vulnerability_type = ''bola'', bucket = None,
                      cells = (\<lambda>c. NaN)(''temperature_A'' := Fin 21),
                      flags = (\<lambda>c. None), methods = (\<lambda>c. MNaN)\<rparr>,
                     \<lparr>index_label = 3, timestamp = Fin 17, human_time = [],
                      phase = ''baseline'', vulnerability_type = ''bola'', bucket = None,
                      cells = (\<lambda>c. NaN)(''temperature_A'' := Fin 21),
                      flags = (\<lambda>c. None), methods = (\<lambda>c. MNaN)\<rparr>,
                     \<lparr>index_label = 4, timestamp = Fin 20, human_time = [],
                      phase = ''event'', vulnerability_type = ''bola'', bucket = None,
                      cells = (\<lambda>c. NaN)(''temperature_A'' := Fin 21),
                      flags = (\<lambda>c. None), methods = (\<lambda>c. MNaN)\<rparr>,
                     \<lparr>index_label = 5, timestamp = Fin 23, human_time = [],
                      phase = ''event'', vulnerability_type = ''bola'', bucket = None,
                      cells = (\<lambda>c. NaN)(''temperature_A'' := Fin 21),
                      flags = (\<lambda>c. None), methods = (\<lambda>c. MNaN)\<rparr>]\<rparr>"
  let ?c = "''reporting_interval_'' @ ''A''"
  have repeated: "\<exists>df'. calculate_derived_metrics (\<lambda>s. None) ?T = Inr df'
      \<and> map phase (rows df') =
           [''baseline'', ''baseline'', ''baseline'', ''baseline'', ''event'', ''event'']
      \<and> map timestamp (rows df') = [Fin 0, Fin 5, Fin 10, Fin 17, Fin 20, Fin 23]
      \<and> column df' ''reporting_interval_A'' = [NaN, Fin 3, Fin 5, Fin 7, NaN, Fin 3]"
  proof -
    have ld: "labels_distinct_in_phase ?T" by (simp add: labels_distinct_in_phase_def)
    obtain df3 res where
      d3: "foldl_result reporting_interval
             (foldl temperature_deviation ?T (filter (prefix ''temperature_'') (columns ?T)))
             (filter (prefix ''temperature_'') (columns ?T)) = Inr df3"
      and d8: "derive_columns ?T = Inr res"
      and col: "column res ?c = column df3 ?c"
      and ts: "map timestamp (rows res) = map timestamp (rows ?T)"
      and ph: "map phase (rows res) = map phase (rows ?T)"
      by (rule reporting_interval_kept[OF ld, of "''A''"]) blast
    have "column df3 ''reporting_interval_A'' = [NaN, Fin 3, Fin 5, Fin 7, NaN, Fin 3]"
      using d3 by (auto simp add: reporting_interval_steps)
    with col have c: "column res ''reporting_interval_A'' = [NaN, Fin 3, Fin 5, Fin 7, NaN, Fin 3]"
      by simp
    have r: "calculate_derived_metrics (\<lambda>s. None) ?T = Inr res"
      using d8 by (simp add: calculate_derived_metrics_def)
    have ph': "map phase (rows res) =
           [''baseline'', ''baseline'', ''baseline'', ''baseline'', ''event'', ''event'']"
      using ph by simp
    have ts': "map timestamp (rows res) = [Fin 0, Fin 5, Fin 10, Fin 17, Fin 20, Fin 23]"
      using ts by simp
    show ?thesis by (rule exI[of _ res]) (intro conjI r ph' ts' c)
  qed
  have unique: "\<exists>df'. calculate_derived_metrics (\<lambda>s. None) ?U = Inr df'
      \<and> map phase (rows df') =
           [''baseline'', ''baseline'', ''baseline'', ''baseline'', ''event'', ''event'']
      \<and> map timestamp (rows df') = [Fin 0, Fin 5, Fin 10, Fin 17, Fin 20, Fin 23]
      \<and> column df' ''reporting_interval_A'' = [NaN, Fin 5, Fin 5, Fin 7, NaN, Fin 3]"
  proof -
    have ld: "labels_distinct_in_phase ?U" by (simp add: labels_distinct_in_phase_def)
    obtain df3 res where
      d3: "foldl_result reporting_interval
             (foldl temperature_deviation ?U (filter (prefix ''temperature_'') (columns ?U)))
             (filter (prefix ''temperature_'') (columns ?U)) = Inr df3"
      and d8: "derive_columns ?U = Inr res"
      and col: "column res ?c = column df3 ?c"
      and ts: "map timestamp (rows res) = map timestamp (rows ?U)"
      and ph: "map phase (rows res) = map phase (rows ?U)"
      by (rule reporting_interval_kept[OF ld, of "''A''"]) blast
    have "column df3 ''reporting_interval_A'' = [NaN, Fin 5, Fin 5, Fin 7, NaN, Fin 3]"
      using d3 by (auto simp add: reporting_interval_steps)
    with col have c: "column res ''reporting_interval_A'' = [NaN, Fin 5, Fin 5, Fin 7, NaN, Fin 3]"
      by simp
    have r: "calculate_derived_metrics (\<lambda>s. None) ?U = Inr res"
      using d8 by (simp add: calculate_derived_metrics_def)
    have ph': "map phase (rows res) =
           [''baseline'', ''baseline'', ''baseline'', ''baseline'', ''event'', ''event'']"
      using ph by simp
    have ts': "map timestamp (rows res) = [Fin 0, Fin 5, Fin 10, Fin 17, Fin 20, Fin 23]"
      using ts by simp
    show ?thesis by (rule exI[of _ res]) (intro conjI r ph' ts' c)
  qed
  from repeated unique show ?thesis by (rule conjI)
qed

subsection \<open>Impact analysis\<close>

lemma calculate_percent_increase_total:
  "calculate_percent_increase b n =
     Inr (if isnan b \<or> isnan n \<or> b = Fin 0 then NaN
          else fmul (fsub (fdiv n b) (Fin 1)) (Fin 100))"
  by (simp add: calculate_percent_increase_def py_div_def)

lemma safe_divide_total:
  "safe_divide n d = Inr (if isnan n \<or> isnan d \<or> d = Fin 0 then NaN else fdiv n d)"
  by (simp add: safe_divide_def py_div_def)

lemma ratio_if_total: "\<exists>v. ratio_if recovery field baseline = Inr v"
  by (cases recovery) (simp_all add: ratio_if_def and_then_def safe_divide_total)

lemma impact_of_cpu:
  "\<exists>i. impact_of vt fault b e r = Inr i \<and> impact_fault_type i = fault
       \<and> Inr (cpu_increase_percent i) = calculate_percent_increase (avg_cpu b) (avg_cpu e)"
proof -
  obtain r1 r2 r3 r4 where r:
    "ratio_if r avg_cpu b = Inr r1" "ratio_if r avg_memory b = Inr r2"
    "ratio_if r avg_latency_ms b = Inr r3" "ratio_if r avg_reporting_interval b = Inr r4"
    using ratio_if_total by metis
  show ?thesis
    unfolding impact_of_def calculate_percent_increase_total r and_then_def by simp
qed

lemma series_mean_constant:
  assumes "xs \<noteq> []" and "\<forall>x\<in>set xs. x = Fin v"
  shows "series_mean xs = Fin v"
proof -
  have xs: "xs = replicate (length xs) (Fin v)"
    by (rule replicate_eqI) (use assms(2) in auto)
  have n: "real (length xs) \<noteq> 0" using assms(1) by simp
  have "dropna xs = xs" using assms(2) by (auto simp: dropna_def filter_id_conv)
  moreover have "fsum xs = Fin (real (length xs) * v)"
    using fsum_replicate[of "length xs" v] xs by simp
  ultimately show ?thesis using assms(1) n by (simp add: series_mean_def)
qed

lemma summarize_fields:
  "fault_type (summarize df vt fault ph rs) = fault"
  "summary_phase (summarize df vt fault ph rs) = ph"
  "avg_cpu (summarize df vt fault ph rs) =
     or_nan np_mean (map (\<lambda>col. series_mean (values_of rs col)) (filter (prefix ''cpu_'') (columns df)))"
  by (simp_all add: summarize_def Let_def)

lemma summary_of_iff:
  "s \<in> set (summary_of df vt) \<longleftrightarrow>
     (\<exists>fault ph. fault \<in> vulnerability_type ` set (rows df) \<and> ph \<in> phase ` set (rows df)
        \<and> filter (\<lambda>r. vulnerability_type r = fault \<and> phase r = ph) (rows df) \<noteq> []
        \<and> s = summarize df vt fault ph
                 (filter (\<lambda>r. vulnerability_type r = fault \<and> phase r = ph) (rows df)))"
  unfolding summary_of_def Let_def by (auto simp: set_unique)

lemma single_cpu_average:
  assumes "filter (prefix ''cpu_'') (columns df) = [c]"
      and "rs \<noteq> []" and "\<forall>r\<in>set rs. cells r c = Fin v"
  shows "avg_cpu (summarize df vt fault ph rs) = Fin v"
proof -
  have "series_mean (values_of rs c) = Fin v"
    by (rule series_mean_constant) (use assms(2,3) in \<open>auto simp: values_of_def\<close>)
  then show ?thesis
    by (simp add: summarize_fields assms(1) or_nan_def np_mean_def fsum_def)
qed

lemma group_average:
  assumes cpu: "filter (prefix ''cpu_'') (columns df) = [c]"
      and ne: "\<exists>r\<in>set (rows df). vulnerability_type r = fault \<and> phase r = ph"
      and val: "\<forall>r\<in>set (rows df). vulnerability_type r = fault \<and> phase r = ph \<longrightarrow> cells r c = Fin v"
  shows "filter (\<lambda>s. fault_type s = fault \<and> summary_phase s = ph) (summary_of df vt) \<noteq> []"
    and "avg_cpu (hd (filter (\<lambda>s. fault_type s = fault \<and> summary_phase s = ph) (summary_of df vt))) = Fin v"
proof -
  define grp where "grp = filter (\<lambda>s. fault_type s = fault \<and> summary_phase s = ph) (summary_of df vt)"
  let ?rs = "filter (\<lambda>r. vulnerability_type r = fault \<and> phase r = ph) (rows df)"
  have rs: "?rs \<noteq> []" using ne by (auto simp: filter_empty_conv)
  have "summarize df vt fault ph ?rs \<in> set (summary_of df vt)"
    unfolding summary_of_iff using ne rs by blast
  then have "summarize df vt fault ph ?rs \<in> set grp"
    by (simp add: grp_def summarize_fields)
  then have g: "grp \<noteq> []" by auto
  then show "filter (\<lambda>s. fault_type s = fault \<and> summary_phase s = ph) (summary_of df vt) \<noteq> []"
    by (simp add: grp_def)
  from g
  have "hd grp \<in> set grp" by simp
  then have h: "hd grp \<in> set (summary_of df vt)" "fault_type (hd grp) = fault"
    "summary_phase (hd grp) = ph" by (simp_all add: grp_def)
  from h(1) obtain f p where fp:
    "hd grp = summarize df vt f p (filter (\<lambda>r. vulnerability_type r = f \<and> phase r = p) (rows df))"
    unfolding summary_of_iff by blast
  with h(2,3) have "f = fault" "p = ph" by (simp_all add: summarize_fields)
  with fp have "hd grp = summarize df vt fault ph ?rs" by simp
  moreover have "avg_cpu (summarize df vt fault ph ?rs) = Fin v"
    by (rule single_cpu_average[OF cpu rs]) (use val in simp)
  ultimately show "avg_cpu (hd (filter (\<lambda>s. fault_type s = fault \<and> summary_phase s = ph) (summary_of df vt))) = Fin v"
    by (simp add: grp_def)
qed

lemma impact_of_single_cpu_column:
  assumes cpu: "filter (prefix ''cpu_'') (columns df) = [c]"
      and bne: "\<exists>r\<in>set (rows df). vulnerability_type r = fault \<and> phase r = ''baseline''"
      and bval: "\<forall>r\<in>set (rows df). vulnerability_type r = fault \<and> phase r = ''baseline''
                   \<longrightarrow> cells r c = Fin b"
      and ene: "\<exists>r\<in>set (rows df). vulnerability_type r = fault \<and> phase r = ''event''"
      and evl: "\<forall>r\<in>set (rows df). vulnerability_type r = fault \<and> phase r = ''event''
                   \<longrightarrow> cells r c = Fin e"
  shows "\<exists>i\<in>set (impact_data_of df vt (summary_of df vt)).
           impact_fault_type i = fault
           \<and> Inr (cpu_increase_percent i) = calculate_percent_increase (Fin b) (Fin e)"
proof -
  let ?S = "summary_of df vt"
  let ?B = "filter (\<lambda>s. fault_type s = fault \<and> summary_phase s = ''baseline'') ?S"
  let ?E = "filter (\<lambda>s. fault_type s = fault \<and> summary_phase s = ''event'') ?S"
  let ?R = "filter (\<lambda>s. fault_type s = fault \<and> summary_phase s = ''recovery'') ?S"
  note B = group_average[OF cpu bne bval, of vt]
  note E = group_average[OF cpu ene evl, of vt]
  from impact_of_cpu[of vt fault "hd ?B" "hd ?E" "if ?R = [] then None else Some (hd ?R)"]
  obtain i where i: "impact_of vt fault (hd ?B) (hd ?E) (if ?R = [] then None else Some (hd ?R)) = Inr i"
    "impact_fault_type i = fault"
    "Inr (cpu_increase_percent i) = calculate_percent_increase (avg_cpu (hd ?B)) (avg_cpu (hd ?E))"
    by blast
  have f: "fault \<in> set (unique (map vulnerability_type (rows df)))"
    using bne by (auto simp: set_unique)
  define per_fault where "per_fault = (\<lambda>fault.
       (let baseline = filter (\<lambda>s. fault_type s = fault \<and> summary_phase s = ''baseline'') ?S;
            event = filter (\<lambda>s. fault_type s = fault \<and> summary_phase s = ''event'') ?S;
            recovery = filter (\<lambda>s. fault_type s = fault \<and> summary_phase s = ''recovery'') ?S
        in if baseline = [] \<or> event = [] then []
           else (case impact_of vt fault (hd baseline) (hd event)
                        (if recovery = [] then None else Some (hd recovery)) of
                   Inl e \<Rightarrow> []
                 | Inr i \<Rightarrow> [i])))"
  have whole: "impact_data_of df vt ?S = concat (map per_fault (unique (map vulnerability_type (rows df))))"
    unfolding impact_data_of_def per_fault_def ..
  have "per_fault fault = [i]"
    unfolding per_fault_def Let_def using B(1) E(1) i(1) by simp
  then have "i \<in> set (per_fault fault)" by simp
  with f have "i \<in> set (impact_data_of df vt ?S)"
    unfolding whole set_concat set_map by blast
  then show ?thesis using i(2,3) B(2) E(2) by auto
qed

lemma methods_astype_str_rows:
  "columns (methods_astype_str df) = columns df"
  "set (rows (methods_astype_str df)) =
     (\<lambda>r. r\<lparr>methods := (\<lambda>col. if col \<in> set (method_columns df) \<and> suffix ''_method'' col
                                  then astype_str (methods r col) else methods r col)\<rparr>) ` set (rows df)"
  by (simp_all add: methods_astype_str_def)

lemma analyze_impact_cpu:
  assumes cpu: "filter (prefix ''cpu_'') (columns df) = [c]"
      and bne: "\<exists>r\<in>set (rows df). vulnerability_type r = label \<and> phase r = ''baseline''"
      and bval: "\<forall>r\<in>set (rows df). vulnerability_type r = label \<and> phase r = ''baseline''
                   \<longrightarrow> cells r c = Fin b"
      and ene: "\<exists>r\<in>set (rows df). vulnerability_type r = label \<and> phase r = ''event''"
      and evl: "\<forall>r\<in>set (rows df). vulnerability_type r = label \<and> phase r = ''event''
                   \<longrightarrow> cells r c = Fin e"
  shows "\<exists>df' summary_df impact_df.
           analyze_impact df vt = Inr (df', summary_df, impact_df)
           \<and> (\<exists>i\<in>set impact_df.
                 impact_fault_type i = label
                 \<and> Inr (cpu_increase_percent i) = calculate_percent_increase (Fin b) (Fin e))"
proof -
  let ?d = "methods_astype_str df"
  have ne: "rows df \<noteq> []" using bne by auto
  have res: "analyze_impact df vt =
               Inr (?d, summary_of ?d vt, impact_data_of ?d vt (summary_of ?d vt))"
    using ne by (simp add: analyze_impact_def Let_def)
  have "\<exists>i\<in>set (impact_data_of ?d vt (summary_of ?d vt)).
          impact_fault_type i = label
          \<and> Inr (cpu_increase_percent i) = calculate_percent_increase (Fin b) (Fin e)"
  proof (rule impact_of_single_cpu_column)
    show "filter (prefix ''cpu_'') (columns ?d) = [c]" using cpu by (simp add: methods_astype_str_rows)
    show "\<exists>r\<in>set (rows ?d). vulnerability_type r = label \<and> phase r = ''baseline''"
      using bne unfolding methods_astype_str_rows by auto
    show "\<forall>r\<in>set (rows ?d). vulnerability_type r = label \<and> phase r = ''baseline'' \<longrightarrow> cells r c = Fin b"
      using bval unfolding methods_astype_str_rows by auto
    show "\<exists>r\<in>set (rows ?d). vulnerability_type r = label \<and> phase r = ''event''"
      using ene unfolding methods_astype_str_rows by auto
    show "\<forall>r\<in>set (rows ?d). vulnerability_type r = label \<and> phase r = ''event'' \<longrightarrow> cells r c = Fin e"
      using evl unfolding methods_astype_str_rows by auto
  qed
  with res show ?thesis by blast
qed

text \<open>
  C1 (as amended): for a table whose only CPU column (the only column whose name starts
  with \<^verbatim>\<open>cpu_\<close>) is \<open>cpu_X\<close>, with at least one baseline row and one event row of a label,
  \<open>cpu_X\<close> being 10 on every baseline row and 40 on every event row of that label, the
  impact table holds a record of that label with \<open>cpu_increase_percent = 300.0\<close>, that is
  \<open>(40 / 10 - 1) * 100\<close>.
\<close>

theorem C1_cpu_increase_percent:
  assumes "filter (prefix ''cpu_'') (columns df) = [''cpu_'' @ x]"
      and "\<exists>r\<in>set (rows df). vulnerability_type r = label \<and> phase r = ''baseline''"
      and "\<forall>r\<in>set (rows df). vulnerability_type r = label \<and> phase r = ''baseline''
             \<longrightarrow> cells r (''cpu_'' @ x) = Fin 10"
      and "\<exists>r\<in>set (rows df). vulnerability_type r = label \<and> phase r = ''event''"
      and "\<forall>r\<in>set (rows df). vulnerability_type r = label \<and> phase r = ''event''
             \<longrightarrow> cells r (''cpu_'' @ x) = Fin 40"
  shows "\<exists>df' summary_df impact_df.
           analyze_impact df vt = Inr (df', summary_df, impact_df)
           \<and> (\<exists>i\<in>set impact_df. impact_fault_type i = label \<and> cpu_increase_percent i = Fin 300)"
proof -
  have "calculate_percent_increase (Fin 10) (Fin 40) = Inr (Fin 300)"
    by (simp add: calculate_percent_increase_total fsub_def)
  with analyze_impact_cpu[OF assms, of vt] show ?thesis by fastforce
qed

theorem C1_cpu_increase_percent_witness:
  "\<exists>df' summary_df impact_df.
     analyze_impact
       \<lparr>columns = [''cpu_X''], flag_columns = [], method_columns = [],
        bucket_column = False,
        rows = [\<lparr>index_label = 0, timestamp = Fin 0, human_time = [],
                 phase = ''baseline'', vulnerability_type = ''bola'', bucket = None,
                 cells = (\<lambda>c. NaN)(''cpu_X'' := Fin 10),
                 flags = (\<lambda>c. None), methods = (\<lambda>c. MNaN)\<rparr>,
                \<lparr>index_label = 0, timestamp = Fin 5, human_time = [],
                 phase = ''event'', vulnerability_type = ''bola'', bucket = None,
                 cells = (\<lambda>c. NaN)(''cpu_X'' := Fin 40),
                 flags = (\<lambda>c. None), methods = (\<lambda>c. MNaN)\<rparr>]\<rparr> ''bola'' =
       Inr (df', summary_df, impact_df)
     \<and> (\<exists>i\<in>set impact_df. impact_fault_type i = ''bola'' \<and> cpu_increase_percent i = Fin 300)"
proof -
  let ?T = "\<lparr>columns = [''cpu_X''], flag_columns = [], method_columns = [],
             bucket_column = False,
             rows = [\<lparr>index_label = 0, timestamp = Fin 0, human_time = [],
                      phase = ''baseline'', vulnerability_type = ''bola'', bucket = None,
                      cells = (\<lambda>c. NaN)(''cpu_X'' := Fin 10),
                      flags = (\<lambda>c. None), methods = (\<lambda>c. MNaN)\<rparr>,
                     \<lparr>index_label = 0, timestamp = Fin 5, human_time = [],
                      phase = ''event'', vulnerability_type = ''bola'', bucket = None,
                      cells = (\<lambda>c. NaN)(''cpu_X'' := Fin 40),
                      flags = (\<lambda>c. None), methods = (\<lambda>c. MNaN)\<rparr>]\<rparr>"
  have h1: "filter (prefix ''cpu_'') (columns ?T) = [''cpu_'' @ ''X'']" by simp
  have h2: "\<exists>r\<in>set (rows ?T). vulnerability_type r = ''bola'' \<and> phase r = ''baseline''" by simp
  have h3: "\<forall>r\<in>set (rows ?T). vulnerability_type r = ''bola'' \<and> phase r = ''baseline''
             \<longrightarrow> cells r (''cpu_'' @ ''X'') = Fin 10" by simp
  have h4: "\<exists>r\<in>set (rows ?T). vulnerability_type r = ''bola'' \<and> phase r = ''event''" by simp
  have h5: "\<forall>r\<in>set (rows ?T). vulnerability_type r = ''bola'' \<and> phase r = ''event''
             \<longrightarrow> cells r (''cpu_'' @ ''X'') = Fin 40" by simp
  show ?thesis by (rule C1_cpu_increase_percent[OF h1 h2 h3 h4 h5])
qed

lemma single_cpu_column_example:
  "\<exists>df' summary_df impact_df.
     analyze_impact
       \<lparr>columns = [''cpu_X''], flag_columns = [], method_columns = [],
        bucket_column = False,
        rows = [\<lparr>index_label = 0, timestamp = Fin 0, human_time = [],
                 phase = ''baseline'', vulnerability_type = ''bola'', bucket = None,
                 cells = (\<lambda>c. NaN)(''cpu_X'' := Fin 10),
                 flags = (\<lambda>c. None), methods = (\<lambda>c. MNaN)\<rparr>,
                \<lparr>index_label = 0, timestamp = Fin 5, human_time = [],
                 phase = ''event'', vulnerability_type = ''bola'', bucket = None,
                 cells = (\<lambda>c. NaN)(''cpu_X'' := Fin 40),
                 flags = (\<lambda>c. None), methods = (\<lambda>c. MNaN)\<rparr>]\<rparr> ''bola'' =
       Inr (df', summary_df, impact_df)
     \<and> map cpu_increase_percent impact_df = [Fin 300]"
proof -
  let ?T = "\<lparr>columns = [''cpu_X''], flag_columns = [], method_columns = [],
             bucket_column = False,
             rows = [\<lparr>index_label = 0, timestamp = Fin 0, human_time = [],
                      phase = ''baseline'', vulnerability_type = ''bola'', bucket = None,
                      cells = (\<lambda>c. NaN)(''cpu_X'' := Fin 10),
                      flags = (\<lambda>c. None), methods = (\<lambda>c. MNaN)\<rparr>,
                     \<lparr>index_label = 0, timestamp = Fin 5, human_time = [],
                      phase = ''event'', vulnerability_type = ''bola'', bucket = None,
                      cells = (\<lambda>c. NaN)(''cpu_X'' := Fin 40),
                      flags = (\<lambda>c. None), methods = (\<lambda>c. MNaN)\<rparr>]\<rparr>"
  let ?r0 = "\<lparr>index_label = 0, timestamp = Fin 0, human_time = [],
              phase = ''baseline'', vulnerability_type = ''bola'', bucket = None,
              cells = (\<lambda>c. NaN)(''cpu_X'' := Fin 10),
              flags = (\<lambda>c. None), methods = (\<lambda>c. MNaN)\<rparr>"
  let ?r1 = "\<lparr>index_label = 0, timestamp = Fin 5, human_time = [],
              phase = ''event'', vulnerability_type = ''bola'', bucket = None,
              cells = (\<lambda>c. NaN)(''cpu_X'' := Fin 40),
              flags = (\<lambda>c. None), methods = (\<lambda>c. MNaN)\<rparr>"
  let ?s0 = "summarize ?T ''bola'' ''bola'' ''baseline'' [?r0]"
  let ?s1 = "summarize ?T ''bola'' ''bola'' ''event'' [?r1]"
  have m: "methods_astype_str ?T = ?T" by (simp add: methods_astype_str_def)
  have S: "summary_of ?T ''bola'' = [?s0, ?s1]"
    by (simp add: summary_of_def unique_def Let_def)
  have a0: "avg_cpu ?s0 = Fin 10"
    by (rule single_cpu_average[where c = "''cpu_X''"]) simp_all
  have a1: "avg_cpu ?s1 = Fin 40"
    by (rule single_cpu_average[where c = "''cpu_X''"]) simp_all
  from impact_of_cpu[of "''bola''" "''bola''" ?s0 ?s1 None] obtain i where
    i: "impact_of ''bola'' ''bola'' ?s0 ?s1 None = Inr i
        \<and> impact_fault_type i = ''bola''
        \<and> Inr (cpu_increase_percent i) = calculate_percent_increase (avg_cpu ?s0) (avg_cpu ?s1)" ..
  have "Inr (cpu_increase_percent i) = (Inr (Fin 300) :: error + fl)"
    unfolding i[THEN conjunct2, THEN conjunct2] a0 a1
    by (simp add: calculate_percent_increase_total fsub_def)
  then have c: "cpu_increase_percent i = Fin 300" by simp
  have "impact_data_of ?T ''bola'' [?s0, ?s1] = [i]"
    unfolding impact_data_of_def Let_def
    by (simp add: unique_def summarize_fields i[THEN conjunct1])
  then have "analyze_impact ?T ''bola'' = Inr (?T, [?s0, ?s1], [i])"
    by (simp add: analyze_impact_def Let_def m S)
  then show ?thesis using c by simp
qed

lemma two_cpu_columns_example:
  "\<exists>df' summary_df impact_df.
     analyze_impact
       \<lparr>columns = [''cpu_X'', ''cpu_total_X''], flag_columns = [], method_columns = [],
        bucket_column = False,
        rows = [\<lparr>index_label = 0, timestamp = Fin 0, human_time = [],
                 phase = ''baseline'', vulnerability_type = ''bola'', bucket = None,
                 cells = (\<lambda>c. NaN)(''cpu_X'' := Fin 10, ''cpu_total_X'' := Fin 30),
                 flags = (\<lambda>c. None), methods = (\<lambda>c. MNaN)\<rparr>,
                \<lparr>index_label = 0, timestamp = Fin 5, human_time = [],
                 phase = ''event'', vulnerability_type = ''bola'', bucket = None,
                 cells = (\<lambda>c. NaN)(''cpu_X'' := Fin 40, ''cpu_total_X'' := Fin 50),
                 flags = (\<lambda>c. None), methods = (\<lambda>c. MNaN)\<rparr>]\<rparr> ''bola'' =
       Inr (df', summary_df, impact_df)
     \<and> map cpu_increase_percent impact_df = [Fin 125]"
proof -
  let ?T = "\<lparr>columns = [''cpu_X'', ''cpu_total_X''],
             flag_columns = [],
             method_columns = [],
             bucket_column = False,
             rows = [\<lparr>index_label = 0, timestamp = Fin 0, human_time = [],
                      phase = ''baseline'', vulnerability_type = ''bola'', bucket = None,
                      cells = (\<lambda>c. NaN)(''cpu_X'' := Fin 10, ''cpu_total_X'' := Fin 30),
                      flags = (\<lambda>c. None), methods = (\<lambda>c. MNaN)\<rparr>,
                     \<lparr>index_label = 0, timestamp = Fin 5, human_time = [],
                      phase = ''event'', vulnerability_type = ''bola'', bucket = None,
                      cells = (\<lambda>c. NaN)(''cpu_X'' := Fin 40, ''cpu_total_X'' := Fin 50),
                      flags = (\<lambda>c. None), methods = (\<lambda>c. MNaN)\<rparr>]\<rparr>"
  let ?r0 = "\<lparr>index_label = 0, timestamp = Fin 0, human_time = [],
              phase = ''baseline'', vulnerability_type = ''bola'', bucket = None,
              cells = (\<lambda>c. NaN)(''cpu_X'' := Fin 10, ''cpu_total_X'' := Fin 30),
              flags = (\<lambda>c. None), methods = (\<lambda>c. MNaN)\<rparr>"
  let ?r1 = "\<lparr>index_label = 0, timestamp = Fin 5, human_time = [],
              phase = ''event'', vulnerability_type = ''bola'', bucket = None,
              cells = (\<lambda>c. NaN)(''cpu_X'' := Fin 40, ''cpu_total_X'' := Fin 50),
              flags = (\<lambda>c. None), methods = (\<lambda>c. MNaN)\<rparr>"
  let ?s0 = "summarize ?T ''bola'' ''bola'' ''baseline'' [?r0]"
  let ?s1 = "summarize ?T ''bola'' ''bola'' ''event'' [?r1]"
  have m: "methods_astype_str ?T = ?T" by (simp add: methods_astype_str_def)
  have S: "summary_of ?T ''bola'' = [?s0, ?s1]"
    by (simp add: summary_of_def unique_def Let_def)
  have a0: "avg_cpu ?s0 = Fin 20"
    by (simp add: summarize_fields or_nan_def np_mean_def fsum_def values_of_def
        series_mean_def dropna_def)
  have a1: "avg_cpu ?s1 = Fin 45"
    by (simp add: summarize_fields or_nan_def np_mean_def fsum_def values_of_def
        series_mean_def dropna_def)
  from impact_of_cpu[of "''bola''" "''bola''" ?s0 ?s1 None] obtain i where
    i: "impact_of ''bola'' ''bola'' ?s0 ?s1 None = Inr i
        \<and> impact_fault_type i = ''bola''
        \<and> Inr (cpu_increase_percent i) = calculate_percent_increase (avg_cpu ?s0) (avg_cpu ?s1)" ..
  have "Inr (cpu_increase_percent i) = (Inr (Fin 125) :: error + fl)"
    unfolding i[THEN conjunct2, THEN conjunct2] a0 a1
    by (simp add: calculate_percent_increase_total fsub_def)
  then have c: "cpu_increase_percent i = Fin 125" by simp
  have "impact_data_of ?T ''bola'' [?s0, ?s1] = [i]"
    unfolding impact_data_of_def Let_def
    by (simp add: unique_def summarize_fields i[THEN conjunct1])
  then have "analyze_impact ?T ''bola'' = Inr (?T, [?s0, ?s1], [i])"
    by (simp add: analyze_impact_def Let_def m S)
  then show ?thesis using c by simp
qed

text \<open>
  C1 as the specification states it fails: with one baseline row where \<open>cpu_X = 10\<close> and
  one event row where \<open>cpu_X = 40\<close>, the impact table holds exactly one record, and its
  \<open>cpu_increase_percent\<close> is 300.0, not 200.0. And when the table has a second column whose
  name starts with \<^verbatim>\<open>cpu_\<close> (here \<open>cpu_total_X\<close>, which the flattener writes for a
  \<^verbatim>\<open>cpu_seconds_total\<close> metric, 30 on the baseline row and 50 on the event row), the two
  columns are averaged and the result is 125.0.
\<close>

theorem C1_two_rows_counterexample:
  "(\<exists>df' summary_df impact_df.
      analyze_impact
        \<lparr>columns = [''cpu_X''], flag_columns = [], method_columns = [],
         bucket_column = False,
         rows = [\<lparr>index_label = 0, timestamp = Fin 0, human_time = [],
                  phase = ''baseline'', vulnerability_type = ''bola'', bucket = None,
                  cells = (\<lambda>c. NaN)(''cpu_X'' := Fin 10),
                  flags = (\<lambda>c. None), methods = (\<lambda>c. MNaN)\<rparr>,
                 \<lparr>index_label = 0, timestamp = Fin 5, human_time = [],
                  phase = ''event'', vulnerability_type = ''bola'', bucket = None,
                  cells = (\<lambda>c. NaN)(''cpu_X'' := Fin 40),
                  flags = (\<lambda>c. None), methods = (\<lambda>c. MNaN)\<rparr>]\<rparr> ''bola'' =
        Inr (df', summary_df, impact_df)
      \<and> map cpu_increase_percent impact_df = [Fin 300])
   \<and> Fin 300 \<noteq> Fin 200
   \<and> (\<exists>df' summary_df impact_df.
      analyze_impact
        \<lparr>columns = [''cpu_X'', ''cpu_total_X''], flag_columns = [], method_columns = [],
         bucket_column = False,
         rows = [\<lparr>index_label = 0, timestamp = Fin 0, human_time = [],
                  phase = ''baseline'', vulnerability_type = ''bola'', bucket = None,
                  cells = (\<lambda>c. NaN)(''cpu_X'' := Fin 10, ''cpu_total_X'' := Fin 30),
                  flags = (\<lambda>c. None), methods = (\<lambda>c. MNaN)\<rparr>,
                 \<lparr>index_label = 0, timestamp = Fin 5, human_time = [],
                  phase = ''event'', vulnerability_type = ''bola'', bucket = None,
                  cells = (\<lambda>c. NaN)(''cpu_X'' := Fin 40, ''cpu_total_X'' := Fin 50),
                  flags = (\<lambda>c. None), methods = (\<lambda>c. MNaN)\<rparr>]\<rparr> ''bola'' =
        Inr (df', summary_df, impact_df)
      \<and> map cpu_increase_percent impact_df = [Fin 125])"
  using single_cpu_column_example two_cpu_columns_example by simp

subsection \<open>The table passed to the impact analysis\<close>

text \<open>
  C9 holds for \<^verbatim>\<open>calculate_derived_metrics\<close>, which works on \<^verbatim>\<open>df.copy()\<close> (its model
  is a function that returns a new table), and fails for \<^verbatim>\<open>analyze_impact\<close>: on a table
  put together from two scenarios, one with a latency histogram and one without (as
  \<^verbatim>\<open>pd.concat\<close> builds it in the BOLA processor), the \<^verbatim>\<open>_method\<close> cell of the second
  scenario's row is missing before the call and is the string \<^verbatim>\<open>'nan'\<close> after it. The
  table passed in has changed.
\<close>

theorem C9_analyze_impact_changes_its_input:
  "methods (rows
       \<lparr>columns = [''cpu_A'', ''latency_ms_x_A''],
        flag_columns = [''latency_ms_x_A_estimated''],
        method_columns = [''latency_ms_x_A_method''],
        bucket_column = False,
        rows = [\<lparr>index_label = 0, timestamp = Fin 0, human_time = [],
                 phase = ''baseline'', vulnerability_type = ''none'', bucket = None,
                 cells = (\<lambda>c. NaN)(''cpu_A'' := Fin 10, ''latency_ms_x_A'' := Fin 460),
                 flags = (\<lambda>c. None)(''latency_ms_x_A_estimated'' := Some False),
                 methods = (\<lambda>c. MNaN)(''latency_ms_x_A_method'' := MStr ''interpolation'')\<rparr>,
                \<lparr>index_label = 0, timestamp = Fin 0, human_time = [],
                 phase = ''baseline'', vulnerability_type = ''stuck'', bucket = None,
                 cells = (\<lambda>c. NaN)(''cpu_A'' := Fin 12),
                 flags = (\<lambda>c. None), methods = (\<lambda>c. MNaN)\<rparr>]\<rparr> ! 1)
     ''latency_ms_x_A_method'' = MNaN
   \<and> (\<exists>df' summary_df impact_df.
        analyze_impact
          \<lparr>columns = [''cpu_A'', ''latency_ms_x_A''],
           flag_columns = [''latency_ms_x_A_estimated''],
           method_columns = [''latency_ms_x_A_method''],
           bucket_column = False,
           rows = [\<lparr>index_label = 0, timestamp = Fin 0, human_time = [],
                    phase = ''baseline'', vulnerability_type = ''none'', bucket = None,
                    cells = (\<lambda>c. NaN)(''cpu_A'' := Fin 10, ''latency_ms_x_A'' := Fin 460),
                    flags = (\<lambda>c. None)(''latency_ms_x_A_estimated'' := Some False),
                    methods = (\<lambda>c. MNaN)(''latency_ms_x_A_method'' := MStr ''interpolation'')\<rparr>,
                   \<lparr>index_label = 0, timestamp = Fin 0, human_time = [],
                    phase = ''baseline'', vulnerability_type = ''stuck'', bucket = None,
                    cells = (\<lambda>c. NaN)(''cpu_A'' := Fin 12),
                    flags = (\<lambda>c. None), methods = (\<lambda>c. MNaN)\<rparr>]\<rparr> ''bola'' =
          Inr (df', summary_df, impact_df)
        \<and> methods (rows df' ! 1) ''latency_ms_x_A_method'' = MStr ''nan''
        \<and> df' \<noteq>
          \<lparr>columns = [''cpu_A'', ''latency_ms_x_A''],
           flag_columns = [''latency_ms_x_A_estimated''],
           method_columns = [''latency_ms_x_A_method''],
           bucket_column = False,
           rows = [\<lparr>index_label = 0, timestamp = Fin 0, human_time = [],
                    phase = ''baseline'', vulnerability_type = ''none'', bucket = None,
                    cells = (\<lambda>c. NaN)(''cpu_A'' := Fin 10, ''latency_ms_x_A'' := Fin 460),
                    flags = (\<lambda>c. None)(''latency_ms_x_A_estimated'' := Some False),
                    methods = (\<lambda>c. MNaN)(''latency_ms_x_A_method'' := MStr ''interpolation'')\<rparr>,
                   \<lparr>index_label = 0, timestamp = Fin 0, human_time = [],
                    phase = ''baseline'', vulnerability_type = ''stuck'', bucket = None,
                    cells = (\<lambda>c. NaN)(''cpu_A'' := Fin 12),
                    flags = (\<lambda>c. None), methods = (\<lambda>c. MNaN)\<rparr>]\<rparr>)"
proof -
  let ?T = "\<lparr>columns = [''cpu_A'', ''latency_ms_x_A''],
             flag_columns = [''latency_ms_x_A_estimated''],
             method_columns = [''latency_ms_x_A_method''],
             bucket_column = False,
             rows = [\<lparr>index_label = 0, timestamp = Fin 0, human_time = [],
                      phase = ''baseline'', vulnerability_type = ''none'', bucket = None,
                      cells = (\<lambda>c. NaN)(''cpu_A'' := Fin 10, ''latency_ms_x_A'' := Fin 460),
                      flags = (\<lambda>c. None)(''latency_ms_x_A_estimated'' := Some False),
                      methods = (\<lambda>c. MNaN)(''latency_ms_x_A_method'' := MStr ''interpolation'')\<rparr>,
                     \<lparr>index_label = 0, timestamp = Fin 0, human_time = [],
                      phase = ''baseline'', vulnerability_type = ''stuck'', bucket = None,
                      cells = (\<lambda>c. NaN)(''cpu_A'' := Fin 12),
                      flags = (\<lambda>c. None), methods = (\<lambda>c. MNaN)\<rparr>]\<rparr>"
  have f: "analyze_impact ?T ''bola'' =
             Inr (methods_astype_str ?T, summary_of (methods_astype_str ?T) ''bola'',
                  impact_data_of (methods_astype_str ?T) ''bola''
                    (summary_of (methods_astype_str ?T) ''bola''))"
    by (simp add: analyze_impact_def Let_def)
  have before: "methods (rows ?T ! 1) ''latency_ms_x_A_method'' = MNaN" by simp
  have after: "methods (rows (methods_astype_str ?T) ! 1) ''latency_ms_x_A_method'' = MStr ''nan''"
    by (simp add: methods_astype_str_def suffix_to_prefix)
  have changed: "methods_astype_str ?T \<noteq> ?T"
  proof
    assume "methods_astype_str ?T = ?T"
    then have "methods (rows (methods_astype_str ?T) ! 1) ''latency_ms_x_A_method'' =
               methods (rows ?T ! 1) ''latency_ms_x_A_method''" by (rule arg_cong)
    then show False unfolding after before by simp
  qed
  have "\<exists>df' summary_df impact_df.
        analyze_impact ?T ''bola'' = Inr (df', summary_df, impact_df)
        \<and> methods (rows df' ! 1) ''latency_ms_x_A_method'' = MStr ''nan''
        \<and> df' \<noteq> ?T"
    by (intro exI conjI) (rule f, rule after, rule changed)
  with before show ?thesis by (intro conjI)
qed

end
